(* ===== verification/GoPrelude.thy ===== *)
theory GoPrelude
  imports Main "HOL-Library.AList" "HOL-Library.List_Lexorder" "HOL-Library.Char_ord"
    "HOL-Library.Multiset" "HOL-Library.State_Monad"
begin

text \<open>
  What every theory of the development shares: Go errors as values, Go maps as
  association lists, sorting by a key as \<open>sort.Slice\<close> and \<open>sort.Strings\<close> do it,
  and a weakest-precondition calculus for the state monad in which the code that talks to
  the cluster is written.
\<close>

named_theorems wp_intro "weakest-precondition facts of the operations"

section \<open>Errors\<close>

text \<open>
  An \<open>error\<close> value: a kind, which is what \<open>errors.IsNotFound\<close> and
  \<open>errors.IsConflict\<close> ask for, and the text \<open>Error()\<close> gives. \<open>Panic\<close> is a
  run-time panic that unwinds the stack: every caller in this program hands an error straight
  back to its own caller, so a panic and an error leave by the same branches.
\<close>

datatype err_kind = NotFound | Conflict | Other | Panic

datatype goerr = GoErr (ekind: err_kind) (emsg: string)

definition IsNotFound :: "goerr \<Rightarrow> bool" where
  "IsNotFound e = (ekind e = NotFound)"

definition IsConflict :: "goerr \<Rightarrow> bool" where
  "IsConflict e = (ekind e = Conflict)"

text \<open>\<open>fmt.Errorf("...: %w", err)\<close>: a longer message, the kind still visible.\<close>

definition wrap :: "string \<Rightarrow> goerr \<Rightarrow> goerr" where
  "wrap msg e = GoErr (ekind e) (msg @ '': '' @ emsg e)"

lemma ekind_wrap [simp]: "ekind (wrap msg e) = ekind e"
  by (simp add: wrap_def)

lemma map_sum_Inl_iff: "map_sum f g s = Inl e \<longleftrightarrow> (\<exists>x. s = Inl x \<and> e = f x)"
  by (cases s) auto

lemma map_sum_Inr_iff: "map_sum f g s = Inr y \<longleftrightarrow> (\<exists>x. s = Inr x \<and> y = g x)"
  by (cases s) auto

section \<open>Maps\<close>

text \<open>
  A Go \<open>map[string]V\<close> as an association list with distinct keys; the order of the list
  is the order in which a \<open>range\<close> loop happens to visit the map. A missing key reads as
  the zero value of \<open>V\<close>.
\<close>

type_synonym 'v gomap = "(string \<times> 'v) list"

definition map_get :: "'v \<Rightarrow> 'v gomap \<Rightarrow> string \<Rightarrow> 'v" where
  "map_get zero m k = (case map_of m k of None \<Rightarrow> zero | Some v \<Rightarrow> v)"

abbreviation map_keys :: "'v gomap \<Rightarrow> string list" where
  "map_keys m \<equiv> map fst m"

abbreviation map_wf :: "'v gomap \<Rightarrow> bool" where
  "map_wf m \<equiv> distinct (map fst m)"

lemma map_wf_same_mset:
  assumes "map_wf m" "map_wf m'" "map_of m = map_of m'"
  shows "mset m = mset m'"
proof -
  have "(k, v) \<in> set m \<longleftrightarrow> (k, v) \<in> set m'" for k v
    using assms by (metis map_of_eq_Some_iff)
  then have "set m = set m'" by auto
  moreover have "distinct m" "distinct m'"
    using assms by (auto simp: distinct_map)
  ultimately show ?thesis
    by (simp add: set_eq_iff_mset_eq_distinct)
qed

lemma map_of_rev_wf: "map_wf m \<Longrightarrow> map_of (rev m) = map_of m"
  by (rule map_of_inject_set [THEN iffD2]) (simp_all add: rev_map [symmetric])

lemma map_get_in: "map_wf m \<Longrightarrow> (k, v) \<in> set m \<Longrightarrow> map_get z m k = v"
  by (simp add: map_get_def)

section \<open>Sorting by a key\<close>

text \<open>
  \<open>sort.Strings\<close> orders strings byte by byte, which is the lexicographic order on
  char lists. \<open>sort.Slice\<close> promises a permutation sorted by the key; the model uses
  the stable \<open>sort_key\<close>. On elements with distinct keys every such permutation is the
  same list, so nothing then depends on which sorting algorithm the library has.
\<close>

lemma sort_key_unique:
  assumes "mset ys = mset xs" "sorted (map f ys)" "distinct (map f xs)"
  shows "ys = sort_key f xs"
proof (rule sym, rule properties_for_sort_key)
  show "mset ys = mset xs" by fact
  show "sorted (map f ys)" by fact
  show "filter (\<lambda>x. f k = f x) ys = filter (\<lambda>x. f k = f x) xs" if "k \<in> set ys" for k
  proof -
    have set: "set ys = set xs" using assms(1) by (rule mset_eq_setD)
    have dy: "distinct (map f ys)"
      using assms(1,3) by (metis mset_eq_imp_distinct_iff mset_map)
    have one: "filter (\<lambda>x. f k = f x) zs = [k]" if "k \<in> set zs" "distinct (map f zs)" for zs
      using that
    proof (induction zs)
      case (Cons a zs)
      show ?case
      proof (cases "k = a")
        case True
        with Cons.prems have "f k \<notin> f ` set zs" by simp
        with True show ?thesis by (auto simp: filter_empty_conv)
      next
        case False
        with Cons have "k \<in> set zs" "f a \<notin> f ` set zs" by auto
        then have "f k \<noteq> f a" by (metis imageI)
        with False Cons show ?thesis by simp
      qed
    qed simp
    show ?thesis
      using one [OF that dy] one [of xs] that set assms(3) by simp
  qed
qed

lemma sort_key_perm:
  assumes "mset ys = mset xs" "distinct (map f xs)"
  shows "sort_key f ys = sort_key f xs"
  by (rule sort_key_unique) (use assms in auto)

lemma map_sort_key: "map f (sort_key f xs) = sort (map f xs)"
  by (rule properties_for_sort [symmetric]) simp_all

section \<open>Weakest preconditions for the state monad\<close>

text \<open>
  \<open>wp m Q s\<close>: running \<open>m\<close> from \<open>s\<close> ends with a result and a state that satisfy
  \<open>Q\<close>. The monad is total and deterministic, so this is total correctness.
\<close>

definition wp :: "('s, 'a) state \<Rightarrow> ('a \<Rightarrow> 's \<Rightarrow> bool) \<Rightarrow> 's \<Rightarrow> bool" where
  "wp m Q s = (case run_state m s of (r, s') \<Rightarrow> Q r s')"

lemma wp_return [simp]: "wp (State_Monad.return x) Q = Q x"
  by (simp add: wp_def fun_eq_iff)

lemma wp_bind [simp]: "wp (State_Monad.bind m f) Q = wp m (\<lambda>x. wp (f x) Q)"
  by (simp add: wp_def fun_eq_iff split: prod.splits)

lemma wp_get [simp]: "wp State_Monad.get Q s = Q s s"
  by (simp add: wp_def)

lemma wp_set [simp]: "wp (State_Monad.set t) Q s = Q () t"
  by (simp add: wp_def)

lemma wp_State [simp]: "wp (State f) Q s = (case f s of (r, s') \<Rightarrow> Q r s')"
  by (simp add: wp_def)

lemma wp_mono: "wp m Q s \<Longrightarrow> (\<And>r s'. Q r s' \<Longrightarrow> Q' r s') \<Longrightarrow> wp m Q' s"
  by (auto simp: wp_def split: prod.splits)

lemma wp_True [simp]: "wp m (\<lambda>_ _. True) s"
  by (simp add: wp_def case_prod_beta)

lemma wp_any: "(\<And>r t. Q r t) \<Longrightarrow> wp m Q s"
  by (simp add: wp_def case_prod_beta)

lemma wp_conj: "wp m Q s \<Longrightarrow> wp m Q' s \<Longrightarrow> wp m (\<lambda>r t. Q r t \<and> Q' r t) s"
  by (auto simp: wp_def split: prod.splits)

lemma wp_run: "wp m Q s \<Longrightarrow> run_state m s = (r, t) \<Longrightarrow> Q r t"
  by (simp add: wp_def)

lemma wp_iff_run: "wp m Q s \<longleftrightarrow> (\<forall>r t. run_state m s = (r, t) \<longrightarrow> Q r t)"
  by (auto simp: wp_def split: prod.splits)

lemma wp_sum: "(\<And>e. r = Inl e \<Longrightarrow> wp (f e) Q w) \<Longrightarrow> (\<And>x. r = Inr x \<Longrightarrow> wp (g x) Q w) \<Longrightarrow>
    wp (case r of Inl e \<Rightarrow> f e | Inr x \<Rightarrow> g x) Q w"
  by (cases r) simp_all

lemma wp_triple: "(\<And>a b c. t = (a, b, c) \<Longrightarrow> wp (f a b c) Q w) \<Longrightarrow> wp (case t of (a, b, c) \<Rightarrow> f a b c) Q w"
  by (cases t) simp

lemma wp_pair: "(\<And>a b. t = (a, b) \<Longrightarrow> wp (f a b) Q w) \<Longrightarrow> wp (case t of (a, b) \<Rightarrow> f a b) Q w"
  by (cases t) simp

lemma wp_option: "(r = None \<Longrightarrow> wp f Q w) \<Longrightarrow> (\<And>x. r = Some x \<Longrightarrow> wp (g x) Q w) \<Longrightarrow>
    wp (case r of None \<Rightarrow> f | Some x \<Rightarrow> g x) Q w"
  by (cases r) simp_all

lemma wp_if: "(c \<Longrightarrow> wp m Q w) \<Longrightarrow> (\<not> c \<Longrightarrow> wp n Q w) \<Longrightarrow> wp (if c then m else n) Q w"
  by simp

lemmas wp_cases = wp_sum wp_option wp_triple wp_pair wp_if

lemma wp_sum_case: "wp (case r of Inl e \<Rightarrow> f e | Inr x \<Rightarrow> g x) Q s \<longleftrightarrow>
    (\<forall>e. r = Inl e \<longrightarrow> wp (f e) Q s) \<and> (\<forall>x. r = Inr x \<longrightarrow> wp (g x) Q s)"
  by (cases r) auto

end
