(* ===== verification/ApiTypes.thy ===== *)
theory ApiTypes
  imports GoStrings "HOL-Library.Word"
begin

text \<open>
  The custom resources of \<open>api/v1alpha1\<close>, field by field: NatsCluster, NatsAccount and
  NatsUser with their specs and statuses. A Go pointer is an option, a slice a list, a Go
  map an association list, an integer a word of its width. A nil slice and an empty slice are
  both \<open>[]\<close>: the program only ever looks at lengths and elements. Of the Kubernetes
  metadata the model keeps the name, the namespace and the generation; a
  \<open>resource.Quantity\<close>, a type of a library, is the value its method \<open>Value()\<close>
  returns, a signed 64-bit number.
\<close>

section \<open>Words read as Go integers\<close>

type_synonym int64 = "64 word"
type_synonym int32 = "32 word"
type_synonym quantity = int64

section \<open>Metadata and conditions\<close>

record object_meta =
  meta_name :: string
  meta_namespace :: string
  meta_generation :: int

record condition =
  cond_type :: string
  cond_status :: string
  cond_reason :: string
  cond_message :: string
  cond_observed :: int

definition ConditionReady :: string where
  "ConditionReady = ''Ready''"

definition ReasonReconciled :: string where
  "ReasonReconciled = ''Reconciled''"

definition ReasonReconcileError :: string where
  "ReasonReconcileError = ''ReconcileError''"

definition ReasonInvalidRegex :: string where
  "ReasonInvalidRegex = ''InvalidRegex''"

definition ReasonNamespaceNotAllowed :: string where
  "ReasonNamespaceNotAllowed = ''NamespaceNotAllowed''"

definition ReasonNamespaceFetchError :: string where
  "ReasonNamespaceFetchError = ''NamespaceFetchError''"

definition ReasonSystemAccountConflict :: string where
  "ReasonSystemAccountConflict = ''SystemAccountConflict''"

abbreviation ConditionTrue :: string where
  "ConditionTrue \<equiv> ''True''"

abbreviation ConditionFalse :: string where
  "ConditionFalse \<equiv> ''False''"

section \<open>NatsCluster\<close>

record workload_reference =
  wr_kind :: string
  wr_name :: string

record nats_cluster_spec =
  cs_server_ref :: "workload_reference option"
  cs_monitoring_port :: "int32 option"
  cs_external_urls :: "string list"

record nats_cluster_status =
  cst_conditions :: "condition list"
  cst_account_count :: nat
  cst_user_count :: nat
  cst_last_config_hash :: string

record nats_cluster =
  cl_meta :: object_meta
  cl_spec :: nats_cluster_spec
  cl_status :: nats_cluster_status

section \<open>NatsAccount\<close>

definition UserRuleActionGrant :: string where
  "UserRuleActionGrant = ''grant''"

definition UserRuleActionDeny :: string where
  "UserRuleActionDeny = ''deny''"

record user_rule =
  ur_action :: string
  ur_namespace_regex :: "string option"
  ur_namespace_labels :: "string gomap option"
  ur_same_namespace :: "bool option"

record account_jetstream =
  ajs_max_memory :: "quantity option"
  ajs_max_file :: "quantity option"
  ajs_max_streams :: "int64 option"
  ajs_max_consumers :: "int64 option"
  ajs_max_bytes_required :: "bool option"
  ajs_memory_max_stream_bytes :: "quantity option"
  ajs_disk_max_stream_bytes :: "quantity option"
  ajs_max_ack_pending :: "int64 option"

record account_limits =
  al_max_connections :: "int64 option"
  al_max_subscriptions :: "int64 option"
  al_max_payload :: "quantity option"
  al_max_leafnodes :: "int64 option"

record nats_account_spec =
  as_cluster_ref :: string
  as_user_rules :: "user_rule list"
  as_jetstream :: "account_jetstream option"
  as_limits :: "account_limits option"
  as_system_account :: bool

record nats_account_status =
  ast_conditions :: "condition list"
  ast_user_count :: nat
  ast_debug_command :: string

record nats_account =
  ac_meta :: object_meta
  ac_spec :: nats_account_spec
  ac_status :: nats_account_status

section \<open>NatsUser\<close>

record allow_responses_spec =
  ars_bool_value :: "bool option"
  ars_max_msgs :: "int64 option"
  ars_ttl :: "string option"

record permission_rule =
  pr_allow :: "string list"
  pr_deny :: "string list"

record permissions =
  pm_publish :: "permission_rule option"
  pm_subscribe :: "permission_rule option"
  pm_allow_responses :: "allow_responses_spec option"

record namespaced_object_reference =
  nor_name :: string
  nor_namespace :: string

record nats_user_spec =
  us_account_ref :: namespaced_object_reference
  us_inbox_prefix :: "string option"
  us_insecure_shared_inbox_prefix :: bool
  us_permissions :: "permissions option"

record nats_user_status =
  ust_conditions :: "condition list"
  ust_nkey_public_key :: string
  ust_secret_ref :: "string option"
  ust_debug_command :: string
  ust_connection_urls :: "string list"
  ust_is_system_account :: bool

record nats_user =
  u_meta :: object_meta
  u_spec :: nats_user_spec
  u_status :: nats_user_status

abbreviation cluster_name :: "nats_cluster \<Rightarrow> string" where
  "cluster_name c \<equiv> meta_name (cl_meta c)"

abbreviation cluster_namespace :: "nats_cluster \<Rightarrow> string" where
  "cluster_namespace c \<equiv> meta_namespace (cl_meta c)"

abbreviation account_name :: "nats_account \<Rightarrow> string" where
  "account_name a \<equiv> meta_name (ac_meta a)"

abbreviation account_namespace :: "nats_account \<Rightarrow> string" where
  "account_namespace a \<equiv> meta_namespace (ac_meta a)"

abbreviation user_name :: "nats_user \<Rightarrow> string" where
  "user_name u \<equiv> meta_name (u_meta u)"

abbreviation user_namespace :: "nats_user \<Rightarrow> string" where
  "user_namespace u \<equiv> meta_namespace (u_meta u)"

section \<open>AllowResponsesSpec\<close>

text \<open>
  The one resource type with hand-written methods. Its JSON form is a boolean or an object.
  \<open>json.Unmarshal\<close> into a \<open>bool\<close> accepts \<open>null\<close> and leaves the zero
  value; into the struct it takes the members in their order, finds the field of each
  without regard to (ASCII) case, sets it to nil for \<open>null\<close>, and ignores members
  it does not know. A number that is no 64-bit integer is an error; \<open>JFraction\<close> is a number
  that is not written as an integer.
\<close>

datatype json =
    JNull
  | JBool bool
  | JInt int
  | JFraction string
  | JString string
  | JArray "json list"
  | JObject "json gomap"

definition unmarshal_bool :: "json \<Rightarrow> goerr + bool" where
  "unmarshal_bool j =
     (case j of JBool b \<Rightarrow> Inr b | JNull \<Rightarrow> Inr False
      | _ \<Rightarrow> Inl (GoErr Other ''json: cannot unmarshal into Go value of type bool''))"

definition unmarshal_int_ptr :: "json \<Rightarrow> goerr + int64 option" where
  "unmarshal_int_ptr j =
     (case j of JNull \<Rightarrow> Inr None
      | JInt i \<Rightarrow>
          (if - (2 ^ 63) \<le> i \<and> i < 2 ^ 63 then Inr (Some (word_of_int i))
           else Inl (GoErr Other ''json: cannot unmarshal number into Go struct field of type int''))
      | _ \<Rightarrow> Inl (GoErr Other ''json: cannot unmarshal into Go struct field of type int''))"

definition unmarshal_string_ptr :: "json \<Rightarrow> goerr + string option" where
  "unmarshal_string_ptr j =
     (case j of JNull \<Rightarrow> Inr None | JString s \<Rightarrow> Inr (Some s)
      | _ \<Rightarrow> Inl (GoErr Other ''json: cannot unmarshal into Go struct field of type string''))"

fun unmarshal_alias ::
  "json gomap \<Rightarrow> int64 option \<Rightarrow> string option \<Rightarrow> goerr + int64 option \<times> string option" where
  "unmarshal_alias [] mm t = Inr (mm, t)"
| "unmarshal_alias ((k, v) # m) mm t =
     (if ToLower k = ToLower ''maxMsgs'' then
        (case unmarshal_int_ptr v of Inl e \<Rightarrow> Inl e | Inr mm' \<Rightarrow> unmarshal_alias m mm' t)
      else if ToLower k = ToLower ''ttl'' then
        (case unmarshal_string_ptr v of Inl e \<Rightarrow> Inl e | Inr t' \<Rightarrow> unmarshal_alias m mm t')
      else unmarshal_alias m mm t)"

definition UnmarshalJSON :: "json \<Rightarrow> goerr + allow_responses_spec" where
  "UnmarshalJSON data =
     (case unmarshal_bool data of
        Inr b \<Rightarrow> Inr \<lparr>ars_bool_value = Some b, ars_max_msgs = None, ars_ttl = None\<rparr>
      | Inl _ \<Rightarrow>
          (case data of
             JObject m \<Rightarrow>
               (case unmarshal_alias m None None of
                  Inl e \<Rightarrow> Inl e
                | Inr (mm, t) \<Rightarrow> Inr \<lparr>ars_bool_value = None, ars_max_msgs = mm, ars_ttl = t\<rparr>)
           | _ \<Rightarrow> Inl (GoErr Other ''json: cannot unmarshal into Go value of type alias'')))"

definition MarshalJSON :: "allow_responses_spec \<Rightarrow> json" where
  "MarshalJSON a =
     (case ars_bool_value a of
        Some b \<Rightarrow> JBool b
      | None \<Rightarrow> JObject
          ((case ars_max_msgs a of None \<Rightarrow> [] | Some n \<Rightarrow> [(''maxMsgs'', JInt (sint n))]) @
           (case ars_ttl a of None \<Rightarrow> [] | Some t \<Rightarrow> [(''ttl'', JString t)])))"

definition NewAllowResponsesBool :: "bool \<Rightarrow> allow_responses_spec" where
  "NewAllowResponsesBool enabled = \<lparr>ars_bool_value = Some enabled, ars_max_msgs = None, ars_ttl = None\<rparr>"

definition ShouldEmit :: "allow_responses_spec \<Rightarrow> bool" where
  "ShouldEmit a = (case ars_bool_value a of Some b \<Rightarrow> b | None \<Rightarrow> True)"

text \<open>What every value built by the program satisfies: the two forms are never mixed.\<close>

definition ars_wf :: "allow_responses_spec \<Rightarrow> bool" where
  "ars_wf a = (ars_bool_value a = None \<or> ars_max_msgs a = None \<and> ars_ttl a = None)"

lemma ars_wf_Unmarshal: "UnmarshalJSON j = Inr a \<Longrightarrow> ars_wf a"
  by (auto simp: UnmarshalJSON_def ars_wf_def split: sum.splits json.splits)

lemma ars_wf_New [simp]: "ars_wf (NewAllowResponsesBool b)"
  by (simp add: ars_wf_def NewAllowResponsesBool_def)

lemma sint_int64_range: "- (2 ^ 63) \<le> sint (n :: int64) \<and> sint n < 2 ^ 63"
  using sint_ge [of n] sint_lt [of n] by simp

lemma unmarshal_int_sint [simp]: "unmarshal_int_ptr (JInt (sint n)) = Inr (Some n)"
  using sint_int64_range [of n] by (simp add: unmarshal_int_ptr_def)

lemma unmarshal_string [simp]: "unmarshal_string_ptr (JString t) = Inr (Some t)"
  by (simp add: unmarshal_string_ptr_def)

lemma member_names:
  "ToLower ''ttl'' \<noteq> ToLower ''maxMsgs''"
  by (simp add: ToLower_def)

lemma Unmarshal_Marshal: "ars_wf a \<Longrightarrow> UnmarshalJSON (MarshalJSON a) = Inr a"
  using member_names
  by (cases a)
    (auto simp: ars_wf_def MarshalJSON_def UnmarshalJSON_def unmarshal_bool_def split: option.split)

text \<open>
  C32. The API server may rewrite a resource without changing its meaning: whatever document a value was read from, the
  value never mixes the boolean form with the object form, and the document written for it is read as the same value.
\<close>
theorem AllowResponses_roundtrip:
  assumes "UnmarshalJSON j = Inr a"
  shows "ars_wf a \<and> UnmarshalJSON (MarshalJSON a) = Inr a"
  using ars_wf_Unmarshal [OF assms] Unmarshal_Marshal by simp

theorem AllowResponses_roundtrip_witness:
  "\<exists>a. UnmarshalJSON (JObject [(''TTL'', JString ''5m''), (''maxMsgs'', JInt 3)]) = Inr a \<and> ars_ttl a = Some ''5m'' \<and>
     ars_wf a \<and> UnmarshalJSON (MarshalJSON a) = Inr a"
proof -
  have "UnmarshalJSON (JObject [(''TTL'', JString ''5m''), (''maxMsgs'', JInt 3)]) =
      Inr \<lparr>ars_bool_value = None, ars_max_msgs = Some 3, ars_ttl = Some ''5m''\<rparr>"
    by code_simp
  then show ?thesis using AllowResponses_roundtrip by fastforce
qed

end
