(* ===== verification/NatsConvert.thy ===== *)
theory NatsConvert
  imports ApiTypes
begin

text \<open>
  \<open>internal/natsconfig/types.go\<close> and \<open>convert.go\<close>: the configuration the operator
  renders, and the conversion of the custom resources into it. It holds the security decisions
  of the program: which permissions each user gets, how inboxes are isolated, which account
  becomes the system account.
\<close>

section \<open>The configuration (types.go)\<close>

record jetstream_config =
  jc_max_memory :: string
  jc_max_file :: string
  jc_max_streams :: "int64 option"
  jc_max_consumers :: "int64 option"
  jc_max_bytes_required :: "bool option"
  jc_memory_max_stream_bytes :: string
  jc_disk_max_stream_bytes :: string
  jc_max_ack_pending :: "int64 option"

record limits_config =
  lc_max_connections :: "int64 option"
  lc_max_subscriptions :: "int64 option"
  lc_max_payload :: string
  lc_max_leafnodes :: "int64 option"

record response_permission_config =
  rp_enabled :: bool
  rp_max_msgs :: "int64 option"
  rp_ttl :: "string option"

record permission_rule_config =
  prc_allow :: "string list"
  prc_deny :: "string list"

record permissions_config =
  pc_publish :: "permission_rule_config option"
  pc_subscribe :: "permission_rule_config option"
  pc_allow_responses :: "response_permission_config option"

record user_config =
  uc_nkey :: string
  uc_permissions :: "permissions_config option"

record account_config =
  acc_jetstream :: "jetstream_config option"
  acc_limits :: "limits_config option"
  acc_users :: "user_config list"

record nats_config =
  nc_system_account :: string
  nc_system_account_conflicts :: "string list"
  nc_accounts :: "account_config gomap"

record user_with_public_key =
  uwk_user :: nats_user
  uwk_public_key :: string
  uwk_inbox_prefix :: string

record account_with_users =
  awu_account :: nats_account
  awu_users :: "user_with_public_key list"

section \<open>Sizes\<close>

text \<open>\<open>quantityToNATSSize\<close>: the largest binary unit that divides the number of bytes.\<close>

definition quantityToNATSSize :: "quantity \<Rightarrow> string" where
  "quantityToNATSSize q =
     (let bytes = sint q in
      if 2 ^ 40 \<le> bytes \<and> bytes mod 2 ^ 40 = 0 then show_int (bytes div 2 ^ 40) @ ''TI''
      else if 2 ^ 30 \<le> bytes \<and> bytes mod 2 ^ 30 = 0 then show_int (bytes div 2 ^ 30) @ ''GI''
      else if 2 ^ 20 \<le> bytes \<and> bytes mod 2 ^ 20 = 0 then show_int (bytes div 2 ^ 20) @ ''MI''
      else if 2 ^ 10 \<le> bytes \<and> bytes mod 2 ^ 10 = 0 then show_int (bytes div 2 ^ 10) @ ''KI''
      else show_int bytes)"

section \<open>JetStream and limits\<close>

definition opt_size :: "quantity option \<Rightarrow> string" where
  "opt_size q = (case q of None \<Rightarrow> [] | Some v \<Rightarrow> quantityToNATSSize v)"

definition convertJetStream :: "account_jetstream \<Rightarrow> jetstream_config" where
  "convertJetStream js =
     \<lparr>jc_max_memory = opt_size (ajs_max_memory js),
      jc_max_file = opt_size (ajs_max_file js),
      jc_max_streams = ajs_max_streams js,
      jc_max_consumers = ajs_max_consumers js,
      jc_max_bytes_required = ajs_max_bytes_required js,
      jc_memory_max_stream_bytes = opt_size (ajs_memory_max_stream_bytes js),
      jc_disk_max_stream_bytes = opt_size (ajs_disk_max_stream_bytes js),
      jc_max_ack_pending = ajs_max_ack_pending js\<rparr>"

definition convertLimits :: "account_limits \<Rightarrow> limits_config" where
  "convertLimits l =
     \<lparr>lc_max_connections = al_max_connections l,
      lc_max_subscriptions = al_max_subscriptions l,
      lc_max_payload = opt_size (al_max_payload l),
      lc_max_leafnodes = al_max_leafnodes l\<rparr>"

section \<open>Permissions\<close>

fun containsString :: "string list \<Rightarrow> string \<Rightarrow> bool" where
  "containsString [] s = False"
| "containsString (v # vs) s = (if v = s then True else containsString vs s)"

definition empty_rule :: permission_rule_config where
  "empty_rule = \<lparr>prc_allow = [], prc_deny = []\<rparr>"

definition injectInboxPrefix ::
  "permission_rule_config option \<Rightarrow> string \<Rightarrow> permission_rule_config" where
  "injectInboxPrefix sub pfx =
     (let sub0 = (case sub of None \<Rightarrow> empty_rule | Some s \<Rightarrow> s);
          inboxDeny = ''_INBOX.>'';
          inboxAllow = pfx @ ''.>'';
          sub1 = (if \<not> containsString (prc_deny sub0) inboxDeny
                  then sub0\<lparr>prc_deny := prc_deny sub0 @ [inboxDeny]\<rparr> else sub0);
          sub2 = (if \<not> containsString (prc_allow sub1) inboxAllow
                  then sub1\<lparr>prc_allow := prc_allow sub1 @ [inboxAllow]\<rparr> else sub1)
      in sub2)"

text \<open>The backfill of one direction: a rule without any allow gets an explicit deny of all.\<close>

definition denyBackfill :: "permission_rule_config option \<Rightarrow> permission_rule_config option" where
  "denyBackfill r =
     (if r = None \<or> prc_allow (the r) = [] then
        (let r1 = (case r of None \<Rightarrow> empty_rule | Some x \<Rightarrow> x) in
         Some (if \<not> containsString (prc_deny r1) ''>''
               then r1\<lparr>prc_deny := prc_deny r1 @ [''>'']\<rparr> else r1))
      else r)"

definition convertRule :: "permission_rule \<Rightarrow> permission_rule_config" where
  "convertRule r = \<lparr>prc_allow = pr_allow r, prc_deny = pr_deny r\<rparr>"

definition convertAllowResponses :: "allow_responses_spec \<Rightarrow> response_permission_config" where
  "convertAllowResponses a =
     \<lparr>rp_enabled = ShouldEmit a, rp_max_msgs = ars_max_msgs a, rp_ttl = ars_ttl a\<rparr>"

definition convertPermissions :: "permissions option \<Rightarrow> string \<Rightarrow> permissions_config" where
  "convertPermissions p inboxPrefix =
     (let c0 = (case p of
            None \<Rightarrow> \<lparr>pc_publish = None, pc_subscribe = None, pc_allow_responses = None\<rparr>
          | Some q \<Rightarrow>
              \<lparr>pc_publish = map_option convertRule (pm_publish q),
               pc_subscribe = map_option convertRule (pm_subscribe q),
               pc_allow_responses = map_option convertAllowResponses (pm_allow_responses q)\<rparr>);
          c1 = (if inboxPrefix \<noteq> []
                then c0\<lparr>pc_subscribe := Some (injectInboxPrefix (pc_subscribe c0) inboxPrefix)\<rparr>
                else c0);
          c2 = c1\<lparr>pc_publish := denyBackfill (pc_publish c1)\<rparr>
      in c2\<lparr>pc_subscribe := denyBackfill (pc_subscribe c2)\<rparr>)"

section \<open>The conversion\<close>

definition convertUser :: "user_with_public_key \<Rightarrow> user_config" where
  "convertUser uwk =
     \<lparr>uc_nkey = uwk_public_key uwk,
      uc_permissions =
        Some (convertPermissions (us_permissions (u_spec (uwk_user uwk))) (uwk_inbox_prefix uwk))\<rparr>"

definition convertAccount :: "account_with_users \<Rightarrow> account_config" where
  "convertAccount awu =
     \<lparr>acc_jetstream = map_option convertJetStream (as_jetstream (ac_spec (awu_account awu))),
      acc_limits = map_option convertLimits (as_limits (ac_spec (awu_account awu))),
      acc_users = map convertUser (awu_users awu)\<rparr>"

abbreviation awu_name :: "account_with_users \<Rightarrow> string" where
  "awu_name awu \<equiv> account_name (awu_account awu)"

definition systemCandidates :: "account_with_users list \<Rightarrow> string list" where
  "systemCandidates accounts =
     map awu_name (filter (\<lambda>awu. as_system_account (ac_spec (awu_account awu))) accounts)"

text \<open>
  \<open>ConvertToNatsConfig\<close>: the switch on the number of candidates, then the loop that
  stores each account under its name (a later account of the same name would overwrite).
\<close>

definition ConvertToNatsConfig :: "account_with_users list \<Rightarrow> nats_config" where
  "ConvertToNatsConfig accounts =
     (let cands = systemCandidates accounts in
      \<lparr>nc_system_account = (if length cands = 1 then cands ! 0 else []),
       nc_system_account_conflicts = (if length cands \<le> 1 then [] else sort cands),
       nc_accounts =
         foldl (\<lambda>m awu. AList.update (awu_name awu) (convertAccount awu) m) [] accounts\<rparr>)"

section \<open>Sizes read back\<close>

text \<open>
  The number of bytes a size string stands for: decimal digits, then one of the binary
  suffixes the server knows.
\<close>

definition suffix_factor :: "string \<Rightarrow> int" where
  "suffix_factor u =
     (if u = ''TI'' then 2 ^ 40 else if u = ''GI'' then 2 ^ 30 else if u = ''MI'' then 2 ^ 20
      else if u = ''KI'' then 2 ^ 10 else 1)"

definition natsSizeValue :: "string \<Rightarrow> int" where
  "natsSizeValue t =
     (if t \<noteq> [] \<and> hd t = CHR ''-'' then - int (read_nat (tl t))
      else int (read_nat (takeWhile is_digit t)) * suffix_factor (dropWhile is_digit t))"

lemma natsSizeValue_nonneg:
  assumes "0 \<le> n" "u = [] \<or> \<not> is_digit (hd u)"
  shows "natsSizeValue (show_int n @ u) = n * suffix_factor u"
proof -
  have d: "\<forall>c\<in>set (show_nat (nat n)). is_digit c" by (auto dest: show_nat_digits)
  obtain c cs where c: "show_nat (nat n) = c # cs" by (metis show_nat_neq_Nil neq_Nil_conv)
  with d have "c \<noteq> CHR ''-''" by (auto simp: is_digit_def)
  moreover have "takeWhile is_digit (show_nat (nat n) @ u) = show_nat (nat n)"
    "dropWhile is_digit (show_nat (nat n) @ u) = u"
    using d assms(2) by (cases u; simp)+
  ultimately show ?thesis
    using assms(1) c read_show_nat [of "nat n"]
    by (simp add: natsSizeValue_def show_int_def)
qed

lemma quantityToNATSSize_value: "natsSizeValue (quantityToNATSSize q) = sint q"
proof (cases "sint q < 0")
  case True
  then show ?thesis
    by (simp add: quantityToNATSSize_def Let_def show_int_def natsSizeValue_def read_show_nat)
next
  case False
  define b where "b = sint q"
  have b: "0 \<le> b" using False by (simp add: b_def)
  have unit: "natsSizeValue (show_int (b div k) @ u) = b"
    if "b mod k = 0" "0 < k" "suffix_factor u = k" "\<not> is_digit (hd u)" for k u
    using natsSizeValue_nonneg [of "b div k" u] that b div_mult_mod_eq [of b k]
    by (simp add: pos_imp_zdiv_nonneg_iff)
  have "natsSizeValue (show_int b) = b"
    using natsSizeValue_nonneg [of b "[]"] b by (simp add: suffix_factor_def)
  then show ?thesis
    using unit [of "2 ^ 40" "''TI''"] unit [of "2 ^ 30" "''GI''"] unit [of "2 ^ 20" "''MI''"]
      unit [of "2 ^ 10" "''KI''"]
    by (simp add: quantityToNATSSize_def Let_def b_def [symmetric] suffix_factor_def is_digit_def)
qed

section \<open>Permissions in closed form\<close>

lemma containsString_iff [simp]: "containsString xs s \<longleftrightarrow> s \<in> set xs"
  by (induction xs) auto

text \<open>What the resource asks for in one direction; nothing said is nothing allowed or denied.\<close>

definition spec_allow :: "(permissions \<Rightarrow> permission_rule option) \<Rightarrow> permissions option \<Rightarrow> string list" where
  "spec_allow dir p = (case Option.bind p dir of None \<Rightarrow> [] | Some r \<Rightarrow> pr_allow r)"

definition spec_deny :: "(permissions \<Rightarrow> permission_rule option) \<Rightarrow> permissions option \<Rightarrow> string list" where
  "spec_deny dir p = (case Option.bind p dir of None \<Rightarrow> [] | Some r \<Rightarrow> pr_deny r)"

definition add_new :: "string list \<Rightarrow> string \<Rightarrow> string list" where
  "add_new xs s = (if s \<in> set xs then xs else xs @ [s])"

definition backfilled :: "string list \<Rightarrow> string list \<Rightarrow> permission_rule_config" where
  "backfilled allow deny =
     \<lparr>prc_allow = allow, prc_deny = (if allow = [] then add_new deny ''>'' else deny)\<rparr>"

lemma set_add_new [simp]: "set (add_new xs s) = insert s (set xs)"
  by (auto simp: add_new_def)

lemma injectInboxPrefix_eq:
  "injectInboxPrefix sub pfx =
     (case sub of
        None \<Rightarrow> \<lparr>prc_allow = [pfx @ ''.>''], prc_deny = [''_INBOX.>'']\<rparr>
      | Some r \<Rightarrow> \<lparr>prc_allow = add_new (prc_allow r) (pfx @ ''.>''),
                    prc_deny = add_new (prc_deny r) ''_INBOX.>''\<rparr>)"
  by (auto simp: injectInboxPrefix_def empty_rule_def add_new_def Let_def split: option.split)

lemma denyBackfill_eq:
  "denyBackfill r =
     Some (case r of None \<Rightarrow> backfilled [] [] | Some x \<Rightarrow> backfilled (prc_allow x) (prc_deny x))"
  by (auto simp: denyBackfill_def backfilled_def empty_rule_def add_new_def Let_def split: option.split)

lemma pc_publish_convert:
  "pc_publish (convertPermissions p pfx) =
     Some (backfilled (spec_allow pm_publish p) (spec_deny pm_publish p))"
  by (auto simp: convertPermissions_def Let_def denyBackfill_eq spec_allow_def spec_deny_def
      convertRule_def split: option.split)

lemma pc_subscribe_steps:
  "pc_subscribe (convertPermissions p pfx) =
     denyBackfill
       (if pfx = [] then map_option convertRule (Option.bind p pm_subscribe)
        else Some (injectInboxPrefix (map_option convertRule (Option.bind p pm_subscribe)) pfx))"
  by (cases p) (simp_all add: convertPermissions_def Let_def)

lemma pc_subscribe_convert:
  "pc_subscribe (convertPermissions p pfx) =
     Some (if pfx = [] then backfilled (spec_allow pm_subscribe p) (spec_deny pm_subscribe p)
           else \<lparr>prc_allow = add_new (spec_allow pm_subscribe p) (pfx @ ''.>''),
                 prc_deny = add_new (spec_deny pm_subscribe p) ''_INBOX.>''\<rparr>)"
proof -
  have nonempty: "backfilled (add_new xs x) ds = \<lparr>prc_allow = add_new xs x, prc_deny = ds\<rparr>" for xs x ds
    by (auto simp: backfilled_def add_new_def)
  show ?thesis
  proof (cases "Option.bind p pm_subscribe")
    case None
    with nonempty [of "[]"] show ?thesis
      by (simp add: pc_subscribe_steps denyBackfill_eq spec_allow_def spec_deny_def
          injectInboxPrefix_eq add_new_def)
  next
    case (Some r)
    with nonempty show ?thesis
      by (simp add: pc_subscribe_steps denyBackfill_eq spec_allow_def spec_deny_def
          injectInboxPrefix_eq convertRule_def)
  qed
qed

lemma pc_allow_responses_convert:
  "pc_allow_responses (convertPermissions p pfx) =
     map_option convertAllowResponses (Option.bind p pm_allow_responses)"
  by (auto simp: convertPermissions_def Let_def split: option.split)

section \<open>Effective permissions\<close>

text \<open>
  What the server makes of one direction of a user's permissions: a subject is permitted
  when no deny pattern matches it and either nothing is listed under allow or an allow pattern
  matches. Pattern matching is the server's; it is the argument \<open>m\<close>, and all that is
  assumed of it is that the pattern \<open>>\<close> matches every subject.
\<close>

definition permits ::
  "(string \<Rightarrow> string \<Rightarrow> bool) \<Rightarrow> permission_rule_config option \<Rightarrow> string \<Rightarrow> bool" where
  "permits m r s =
     (case r of None \<Rightarrow> True
      | Some x \<Rightarrow> (prc_allow x = [] \<or> (\<exists>a\<in>set (prc_allow x). m a s))
                   \<and> \<not> (\<exists>d\<in>set (prc_deny x). m d s))"

text \<open>The documented matching: tokens separated by dots, \<open>*\<close> one token, \<open>>\<close> a tail.\<close>

fun tokens_match :: "string list \<Rightarrow> string list \<Rightarrow> bool" where
  "tokens_match [] [] = True"
| "tokens_match (p # ps) (t # ts) =
     (p = ''>'' \<and> ps = [] \<or> (p = ''*'' \<or> p = t) \<and> tokens_match ps ts)"
| "tokens_match _ _ = False"

definition subject_match :: "string \<Rightarrow> string \<Rightarrow> bool" where
  "subject_match p s = tokens_match (Split p CHR ''.'') (Split s CHR ''.'')"

lemma subject_match_all [simp]: "subject_match ''>'' s"
  by (cases "Split s CHR ''.''") (simp_all add: subject_match_def)

lemma permits_backfilled:
  "m ''>'' s \<Longrightarrow>
   permits m (Some (backfilled allow deny)) s \<longleftrightarrow>
     (\<exists>a\<in>set allow. m a s) \<and> \<not> (\<exists>d\<in>set deny. m d s)"
  by (auto simp: permits_def backfilled_def)



lemma permits_publish:
  "m ''>'' s \<Longrightarrow> permits m (pc_publish (convertPermissions p pfx)) s \<longleftrightarrow>
    (\<exists>a\<in>set (spec_allow pm_publish p). m a s) \<and> \<not> (\<exists>d\<in>set (spec_deny pm_publish p). m d s)"
  by (simp add: pc_publish_convert permits_backfilled)

lemma permits_subscribe:
  assumes "m ''>'' s"
  shows "permits m (pc_subscribe (convertPermissions p pfx)) s \<longleftrightarrow>
    ((\<exists>a\<in>set (spec_allow pm_subscribe p). m a s) \<or> pfx \<noteq> [] \<and> m (pfx @ ''.>'') s)
    \<and> \<not> (\<exists>d\<in>set (spec_deny pm_subscribe p). m d s) \<and> \<not> (pfx \<noteq> [] \<and> m ''_INBOX.>'' s)"
proof (cases "pfx = []")
  case True
  with assms show ?thesis by (simp add: pc_subscribe_convert permits_backfilled)
next
  case False
  then have "add_new (spec_allow pm_subscribe p) (pfx @ ''.>'') \<noteq> []" by (auto simp: add_new_def)
  with False show ?thesis by (auto simp: pc_subscribe_convert permits_def)
qed

text \<open>
  C4. A user may subscribe to exactly the subjects the resource allows and does not deny;
  with an inbox prefix, the subjects below the prefix are allowed too and the shared
  \<open>_INBOX.>\<close> space is denied, whatever the resource allows.
\<close>
theorem subscribe_permitted_iff:
  assumes "m ''>'' s"
  shows "permits m (pc_subscribe (convertPermissions p pfx)) s \<longleftrightarrow>
    ((\<exists>a\<in>set (spec_allow pm_subscribe p). m a s) \<or> pfx \<noteq> [] \<and> m (pfx @ ''.>'') s)
    \<and> \<not> (\<exists>d\<in>set (spec_deny pm_subscribe p). m d s) \<and> \<not> (pfx \<noteq> [] \<and> m ''_INBOX.>'' s)"
  using assms by (rule permits_subscribe)

theorem subscribe_permitted_iff_witness:
  "permits subject_match (pc_subscribe (convertPermissions None ''_I_A'')) ''_I_A.r1'' \<longleftrightarrow> True"
  using subscribe_permitted_iff [of subject_match "''_I_A.r1''" None "''_I_A''"]
  by (simp add: spec_allow_def spec_deny_def subject_match_def)



text \<open>
  Injecting the inbox rules is idempotent, keeps every entry the user wrote in its place,
  and adds at most the two entries it is for.
\<close>
lemma injectInboxPrefix_idem:
  "injectInboxPrefix (Some (injectInboxPrefix sub pfx)) pfx = injectInboxPrefix sub pfx \<and>
   set (prc_allow (injectInboxPrefix sub pfx)) =
     insert (pfx @ ''.>'') (case sub of None \<Rightarrow> {} | Some r \<Rightarrow> set (prc_allow r)) \<and>
   set (prc_deny (injectInboxPrefix sub pfx)) =
     insert ''_INBOX.>'' (case sub of None \<Rightarrow> {} | Some r \<Rightarrow> set (prc_deny r)) \<and>
   (case sub of None \<Rightarrow> True
    | Some r \<Rightarrow> prefix (prc_allow r) (prc_allow (injectInboxPrefix sub pfx)) \<and>
                 prefix (prc_deny r) (prc_deny (injectInboxPrefix sub pfx)))"
  by (cases sub) (auto simp: injectInboxPrefix_eq add_new_def)

text \<open>
  The size written for a quantity stands for exactly its number of bytes, for every
  64-bit value.
\<close>
lemma quantityToNATSSize_exact: "natsSizeValue (quantityToNATSSize q) = sint q"
  by (rule quantityToNATSSize_value)

section \<open>The whole conversion\<close>

text \<open>The loop over the accounts builds a map with distinct keys, the last account of a name winning.\<close>

lemma accounts_fold_keys:
  "map_wf m \<Longrightarrow>
   map_wf (foldl (\<lambda>m awu. AList.update (awu_name awu) (convertAccount awu) m) m accounts)"
  by (induction accounts arbitrary: m) (auto simp: distinct_update)

lemma accounts_fold_map_of:
  "map_of (foldl (\<lambda>m awu. AList.update (awu_name awu) (convertAccount awu) m) m accounts) =
   map_of m ++ map_of (rev (map (\<lambda>awu. (awu_name awu, convertAccount awu)) accounts))"
  by (induction accounts arbitrary: m) (auto simp: update_conv' map_add_upd_left map_add_def
      fun_eq_iff split: option.splits)

lemma nc_accounts_wf: "map_wf (nc_accounts (ConvertToNatsConfig accounts))"
  by (simp add: ConvertToNatsConfig_def Let_def accounts_fold_keys)

lemma nc_accounts_keys:
  "set (map_keys (nc_accounts (ConvertToNatsConfig accounts))) = awu_name ` set accounts"
proof -
  have "dom (map_of (nc_accounts (ConvertToNatsConfig accounts))) = awu_name ` set accounts"
    by (force simp: ConvertToNatsConfig_def Let_def accounts_fold_map_of dom_map_of_conv_image_fst)
  then show ?thesis by (simp add: dom_map_of_conv_image_fst)
qed

lemma nc_accounts_map_of:
  assumes "distinct (map awu_name accounts)"
  shows "map_of (nc_accounts (ConvertToNatsConfig accounts)) =
    map_of (map (\<lambda>awu. (awu_name awu, convertAccount awu)) accounts)"
proof -
  have "map_wf (map (\<lambda>awu. (awu_name awu, convertAccount awu)) accounts)"
    using assms by (simp add: o_def)
  from map_of_rev_wf [OF this] show ?thesis
    by (simp add: ConvertToNatsConfig_def Let_def accounts_fold_map_of)
qed

lemma nc_accounts_lookup:
  assumes "distinct (map awu_name accounts)" "awu \<in> set accounts"
  shows "map_of (nc_accounts (ConvertToNatsConfig accounts)) (awu_name awu) = Some (convertAccount awu)"
  using assms(2)
  by (simp add: nc_accounts_map_of [OF assms(1)] map_of_eq_Some_iff o_def assms(1))

lemma nc_accounts_in:
  assumes "map_of (nc_accounts (ConvertToNatsConfig accounts)) k = Some c"
  obtains awu where "awu \<in> set accounts" "awu_name awu = k" "convertAccount awu = c"
proof -
  have "map_of (rev (map (\<lambda>awu. (awu_name awu, convertAccount awu)) accounts)) k = Some c"
    using assms by (simp add: ConvertToNatsConfig_def Let_def accounts_fold_map_of)
  from map_of_SomeD [OF this] show thesis using that by auto
qed

lemma length_1_mset: "mset xs = mset ys \<Longrightarrow> length xs = 1 \<Longrightarrow> xs ! 0 = ys ! 0"
  by (cases xs; cases ys) auto

lemma mset_systemCandidates:
  "mset accounts = mset accounts' \<Longrightarrow> mset (systemCandidates accounts) = mset (systemCandidates accounts')"
  by (simp add: systemCandidates_def)




text \<open>Listing the accounts in another order gives an equivalent configuration.\<close>

lemma ConvertToNatsConfig_perm:
  assumes "mset accounts = mset accounts'" "distinct (map awu_name accounts)"
  shows "nc_system_account (ConvertToNatsConfig accounts) = nc_system_account (ConvertToNatsConfig accounts')"
    and "nc_system_account_conflicts (ConvertToNatsConfig accounts) =
         nc_system_account_conflicts (ConvertToNatsConfig accounts')"
    and "map_of (nc_accounts (ConvertToNatsConfig accounts)) =
         map_of (nc_accounts (ConvertToNatsConfig accounts'))"
proof -
  note c = mset_systemCandidates [OF assms(1)]
  have l: "length (systemCandidates accounts) = length (systemCandidates accounts')"
    using c by (rule mset_eq_length)
  show "nc_system_account (ConvertToNatsConfig accounts) = nc_system_account (ConvertToNatsConfig accounts')"
    using length_1_mset [OF c] l by (auto simp: ConvertToNatsConfig_def Let_def)
  show "nc_system_account_conflicts (ConvertToNatsConfig accounts) =
         nc_system_account_conflicts (ConvertToNatsConfig accounts')"
    using c l by (auto simp: ConvertToNatsConfig_def Let_def intro!: properties_for_sort)
  have d: "distinct (map awu_name accounts')"
    using assms by (metis mset_eq_imp_distinct_iff mset_map)
  have "set accounts = set accounts'" using assms(1) by (rule mset_eq_setD)
  then show "map_of (nc_accounts (ConvertToNatsConfig accounts)) =
         map_of (nc_accounts (ConvertToNatsConfig accounts'))"
    unfolding nc_accounts_map_of [OF assms(2)] nc_accounts_map_of [OF d]
    using assms(2) d by (intro map_of_inject_set [THEN iffD2]) (simp_all add: o_def)
qed

end
