(* ===== verification/GoQuote.thy ===== *)
theory GoQuote
  imports GoStrings
begin

text \<open>
  The verb \<open>%q\<close> (\<open>strconv.Quote\<close>): the only quoting the program applies to
  user-supplied text before it writes it into the server configuration. The definitions
  follow \<open>strconv\<close> byte by byte, UTF-8 decoding included. Which code points above
  ASCII are printable is a Unicode table of Go's library; it is the argument \<open>ip\<close>.
\<close>

abbreviation ord :: "char \<Rightarrow> nat" where
  "ord c \<equiv> of_char c"

abbreviation BS :: char where
  "BS \<equiv> CHR 0x5C"

abbreviation DQ :: char where
  "DQ \<equiv> CHR 0x22"

lemma ord_less_256: "ord c < 256"
  by simp

lemma ord_eq_iff: "ord c = ord d \<longleftrightarrow> c = d"
  by simp

lemma char_of_ord: "n = ord c \<Longrightarrow> char_of n = c"
  by simp

lemma char_of_lits:
  "char_of (0x22 :: nat) = CHR 0x22" "char_of (0x5C :: nat) = CHR 0x5C"
  "char_of (0x07 :: nat) = CHR 0x07" "char_of (0x08 :: nat) = CHR 0x08"
  "char_of (0x0C :: nat) = CHR 0x0C" "char_of (0x0A :: nat) = CHR 0x0A"
  "char_of (0x0D :: nat) = CHR 0x0D" "char_of (0x09 :: nat) = CHR 0x09"
  "char_of (0x0B :: nat) = CHR 0x0B"
  by (rule char_of_ord, simp)+

section \<open>Hexadecimal digits\<close>

definition hexd :: "nat \<Rightarrow> char" where
  "hexd n = (if n < 10 then char_of (48 + n) else char_of (87 + n))"

definition hexval :: "char \<Rightarrow> nat" where
  "hexval c = (if ord c < 58 then ord c - 48 else ord c - 87)"

fun hex_digits :: "nat \<Rightarrow> nat \<Rightarrow> string" where
  "hex_digits 0 r = []"
| "hex_digits (Suc k) r = hex_digits k (r div 16) @ [hexd (r mod 16)]"

definition hex_val :: "string \<Rightarrow> nat" where
  "hex_val s = foldl (\<lambda>n c. 16 * n + hexval c) 0 s"

lemma ord_hexd: "n < 16 \<Longrightarrow> ord (hexd n) = (if n < 10 then 48 + n else 87 + n)"
  by (simp add: hexd_def)

lemma hexval_hexd: "n < 16 \<Longrightarrow> hexval (hexd n) = n"
  by (simp add: hexval_def ord_hexd)

lemma visible_hexd: "n < 16 \<Longrightarrow> visible (hexd n)"
  by (simp add: visible_def ord_hexd)

lemma length_hex_digits [simp]: "length (hex_digits k r) = k"
  by (induction k arbitrary: r) auto

lemma set_hex_digits: "c \<in> set (hex_digits k r) \<Longrightarrow> \<exists>n<16. c = hexd n"
  by (induction k arbitrary: r) (auto, metis mod_less_divisor zero_less_numeral)

lemma hex_val_hex_digits: "hex_val (hex_digits k r) = r mod 16 ^ k"
proof (induction k arbitrary: r)
  case (Suc k)
  have "hex_val (hex_digits (Suc k) r) = 16 * hex_val (hex_digits k (r div 16)) + r mod 16"
    by (simp add: hex_val_def hexval_hexd)
  also have "\<dots> = r mod 16 ^ Suc k"
    using Suc by (simp add: mod_mult2_eq)
  finally show ?case .
qed (simp add: hex_val_def)

section \<open>UTF-8\<close>

text \<open>
  \<open>utf8.DecodeRuneInString\<close>: the code point and its width, or \<open>None\<close> for
  \<open>(RuneError, 1)\<close>. The ranges of the second byte exclude overlong forms, surrogates
  and values above U+10FFFF.
\<close>

definition in_range :: "nat \<Rightarrow> nat \<Rightarrow> char \<Rightarrow> bool" where
  "in_range lo hi c = (lo \<le> ord c \<and> ord c \<le> hi)"

definition second_lo :: "nat \<Rightarrow> nat" where
  "second_lo b0 = (if b0 = 0xE0 then 0xA0 else if b0 = 0xF0 then 0x90 else 0x80)"

definition second_hi :: "nat \<Rightarrow> nat" where
  "second_hi b0 = (if b0 = 0xED then 0x9F else if b0 = 0xF4 then 0x8F else 0xBF)"

definition DecodeRune :: "string \<Rightarrow> (nat \<times> nat) option" where
  "DecodeRune s = (case s of [] \<Rightarrow> None | c # cs \<Rightarrow>
     (let b0 = ord c in
      if b0 < 0x80 then Some (b0, 1)
      else if 0xC2 \<le> b0 \<and> b0 \<le> 0xDF then
        (case cs of
           c1 # _ \<Rightarrow> if in_range 0x80 0xBF c1
             then Some ((b0 - 0xC0) * 64 + (ord c1 - 0x80), 2) else None
         | _ \<Rightarrow> None)
      else if 0xE0 \<le> b0 \<and> b0 \<le> 0xEF then
        (case cs of
           c1 # c2 # _ \<Rightarrow> if in_range (second_lo b0) (second_hi b0) c1 \<and> in_range 0x80 0xBF c2
             then Some ((b0 - 0xE0) * 4096 + (ord c1 - 0x80) * 64 + (ord c2 - 0x80), 3) else None
         | _ \<Rightarrow> None)
      else if 0xF0 \<le> b0 \<and> b0 \<le> 0xF4 then
        (case cs of
           c1 # c2 # c3 # _ \<Rightarrow> if in_range (second_lo b0) (second_hi b0) c1
               \<and> in_range 0x80 0xBF c2 \<and> in_range 0x80 0xBF c3
             then Some ((b0 - 0xF0) * 262144 + (ord c1 - 0x80) * 4096
                        + (ord c2 - 0x80) * 64 + (ord c3 - 0x80), 4) else None
         | _ \<Rightarrow> None)
      else None))"

text \<open>\<open>utf8.AppendRune\<close> on the code points \<open>DecodeRune\<close> can return.\<close>

definition EncodeRune :: "nat \<Rightarrow> string" where
  "EncodeRune r =
     (if r < 0x80 then [char_of r]
      else if r < 0x800 then [char_of (0xC0 + r div 64), char_of (0x80 + r mod 64)]
      else if r < 0x10000 then
        [char_of (0xE0 + r div 4096), char_of (0x80 + r div 64 mod 64), char_of (0x80 + r mod 64)]
      else
        [char_of (0xF0 + r div 262144), char_of (0x80 + r div 4096 mod 64),
         char_of (0x80 + r div 64 mod 64), char_of (0x80 + r mod 64)])"

text \<open>What a successful decode says about the bytes it consumed.\<close>

lemma split64: "z < 64 \<Longrightarrow> n = m * 64 + z \<Longrightarrow> n div 64 = m \<and> n mod 64 = z" for n :: nat
  by simp

lemma ord_DQ: "ord DQ = 0x22" and ord_BS: "ord BS = 0x5C"
  by simp_all

lemma DecodeRune_Some:
  assumes "DecodeRune s = Some (r, w)"
  shows "0 < w \<and> w \<le> length s \<and> EncodeRune r = take w s \<and> r < 0x110000
    \<and> (r < 0x80 \<longrightarrow> take w s = [char_of r]) \<and> (0x80 \<le> r \<longrightarrow> (\<forall>b\<in>set (take w s). 0x80 \<le> ord b))"
proof -
  obtain c cs where s: "s = c # cs" using assms by (cases s) (auto simp: DecodeRune_def)
  consider (one) "ord c < 0x80" "r = ord c" "w = 1"
    | (two) c1 t where "cs = c1 # t" "0xC2 \<le> ord c" "ord c \<le> 0xDF" "in_range 0x80 0xBF c1"
        "r = (ord c - 0xC0) * 64 + (ord c1 - 0x80)" "w = 2"
    | (three) c1 c2 t where "cs = c1 # c2 # t" "0xE0 \<le> ord c" "ord c \<le> 0xEF"
        "in_range (second_lo (ord c)) (second_hi (ord c)) c1" "in_range 0x80 0xBF c2"
        "r = (ord c - 0xE0) * 4096 + (ord c1 - 0x80) * 64 + (ord c2 - 0x80)" "w = 3"
    | (four) c1 c2 c3 t where "cs = c1 # c2 # c3 # t" "0xF0 \<le> ord c" "ord c \<le> 0xF4"
        "in_range (second_lo (ord c)) (second_hi (ord c)) c1" "in_range 0x80 0xBF c2"
        "in_range 0x80 0xBF c3"
        "r = (ord c - 0xF0) * 262144 + (ord c1 - 0x80) * 4096 + (ord c2 - 0x80) * 64 + (ord c3 - 0x80)"
        "w = 4"
    using assms by (auto simp: DecodeRune_def s Let_def split: if_splits list.splits)
  then show ?thesis
  proof cases
    case one
    then show ?thesis by (simp add: s EncodeRune_def)
  next
    case two
    define x y where "x = ord c - 0xC0" and "y = ord c1 - 0x80"
    have xy: "r = x * 64 + y" "y < 64" "2 \<le> x" "x < 32" "ord c = 0xC0 + x" "ord c1 = 0x80 + y"
      using two by (auto simp: x_def y_def in_range_def)
    then have "r div 64 = x" "r mod 64 = y" "0x80 \<le> r" "r < 0x800" by auto
    with xy have "EncodeRune r = [c, c1]"
      by (simp add: EncodeRune_def flip: xy(5,6))
    with two xy(5,6) \<open>0x80 \<le> r\<close> \<open>r < 0x800\<close> show ?thesis by (simp add: s)
  next
    case three
    define x y z where "x = ord c - 0xE0" and "y = ord c1 - 0x80" and "z = ord c2 - 0x80"
    have b: "0x80 \<le> ord c1" "ord c1 \<le> 0xBF" "ord c = 0xE0 \<Longrightarrow> 0xA0 \<le> ord c1"
      "0x80 \<le> ord c2" "ord c2 \<le> 0xBF"
      using three by (auto simp: in_range_def second_lo_def second_hi_def split: if_splits)
    have xy: "r = x * 4096 + y * 64 + z" "y < 64" "z < 64" "x < 16" "x = 0 \<longrightarrow> 32 \<le> y"
      "ord c = 0xE0 + x" "ord c1 = 0x80 + y" "ord c2 = 0x80 + z"
      using three b by (auto simp: x_def y_def z_def)
    have r: "r = (x * 64 + y) * 64 + z" using xy(1) by simp
    have d: "r div 64 = x * 64 + y" "r mod 64 = z" "(x * 64 + y) div 64 = x" "(x * 64 + y) mod 64 = y"
      using split64 [OF xy(3) r] split64 [OF xy(2) refl, of x] by auto
    have d4: "r div 4096 = x" using d div_mult2_eq [of r 64 64] by simp
    have "0x800 \<le> r" "r < 0x10000" using xy by linarith+
    moreover from this have "EncodeRune r = [c, c1, c2]"
      by (simp add: EncodeRune_def d d4 xy(2) flip: xy(6-8))
    ultimately show ?thesis using three(1,7) xy(6-8) by (simp add: s)
  next
    case four
    define x y z u where "x = ord c - 0xF0" and "y = ord c1 - 0x80" and "z = ord c2 - 0x80"
      and "u = ord c3 - 0x80"
    have b: "0x80 \<le> ord c1" "ord c1 \<le> 0xBF" "ord c = 0xF0 \<Longrightarrow> 0x90 \<le> ord c1"
      "ord c = 0xF4 \<Longrightarrow> ord c1 \<le> 0x8F" "0x80 \<le> ord c2" "ord c2 \<le> 0xBF" "0x80 \<le> ord c3"
      "ord c3 \<le> 0xBF"
      using four by (auto simp: in_range_def second_lo_def second_hi_def split: if_splits)
    have x4: "x = 4 \<longrightarrow> y < 16"
    proof
      assume "x = 4"
      then have "ord c = 0xF4" using four(2,3) unfolding x_def by linarith
      with b(4) show "y < 16" unfolding y_def by linarith
    qed
    have xy: "r = x * 262144 + y * 4096 + z * 64 + u" "y < 64" "z < 64" "u < 64" "x < 5"
      "x = 0 \<longrightarrow> 16 \<le> y"
      "ord c = 0xF0 + x" "ord c1 = 0x80 + y" "ord c2 = 0x80 + z" "ord c3 = 0x80 + u"
      using four b by (auto simp: x_def y_def z_def u_def)
    have r: "r = ((x * 64 + y) * 64 + z) * 64 + u" using xy(1) by simp
    have d: "r div 64 = (x * 64 + y) * 64 + z" "r mod 64 = u"
      "((x * 64 + y) * 64 + z) div 64 = x * 64 + y" "((x * 64 + y) * 64 + z) mod 64 = z"
      "(x * 64 + y) div 64 = x" "(x * 64 + y) mod 64 = y"
      using split64 [OF xy(4) r] split64 [OF xy(3) refl, of "x * 64 + y"]
        split64 [OF xy(2) refl, of x] by auto
    have d4: "r div 4096 = x * 64 + y" "r div 262144 = x"
      using d div_mult2_eq [of r 64 64] div_mult2_eq [of r 64 "64 * 64"] div_mult2_eq [of "r div 64" 64 64]
      by simp_all
    have m: "r div 64 mod 64 = z" "r div 4096 mod 64 = y"
      by (simp_all only: d d4)
    have "0x10000 \<le> r" "r < 0x110000" using xy x4 by linarith+
    moreover from this have "EncodeRune r = [c, c1, c2, c3]"
      by (simp add: EncodeRune_def m d(2) d4(2) flip: xy(7-10))
    ultimately show ?thesis using four(1,8) xy(7-10) by (simp add: s)
  qed
qed

lemma DecodeRune_width: "DecodeRune s = Some (r, w) \<Longrightarrow> 0 < w \<and> w \<le> length s"
  using DecodeRune_Some by blast

section \<open>Quoting\<close>

text \<open>\<open>unicode.IsPrint\<close>: ASCII written out, the rest the table \<open>ip\<close>.\<close>

definition IsPrint :: "(nat \<Rightarrow> bool) \<Rightarrow> nat \<Rightarrow> bool" where
  "IsPrint ip r = (if r < 0x80 then 0x20 \<le> r \<and> r \<le> 0x7E else ip r)"

text \<open>
  \<open>appendEscapedRune\<close>: \<open>raw\<close> holds the bytes of the code point \<open>r\<close>, which
  is what \<open>utf8.AppendRune\<close> writes.
\<close>

definition named_escapes :: "(nat \<times> char) list" where
  "named_escapes =
     [(0x07, CHR ''a''), (0x08, CHR ''b''), (0x0C, CHR ''f''), (0x0A, CHR ''n''),
      (0x0D, CHR ''r''), (0x09, CHR ''t''), (0x0B, CHR ''v'')]"

definition escape_rune :: "(nat \<Rightarrow> bool) \<Rightarrow> nat \<Rightarrow> string \<Rightarrow> string" where
  "escape_rune ip r raw =
     (if r = 0x22 then [BS, DQ]
      else if r = 0x5C then [BS, BS]
      else if IsPrint ip r then raw
      else (case map_of named_escapes r of
          Some x \<Rightarrow> [BS, x]
        | None \<Rightarrow>
            (if r < 0x20 \<or> r = 0x7F then [BS, CHR ''x''] @ hex_digits 2 r
             else if r < 0x10000 then [BS, CHR ''u''] @ hex_digits 4 r
             else [BS, CHR ''U''] @ hex_digits 8 r)))"

text \<open>The three shapes of an escaped code point: as it is, a pair, a hexadecimal escape.\<close>

lemma named_escapes_Some:
  assumes "map_of named_escapes r = Some x"
  shows "r < 0x20 \<and> visible x"
proof -
  have "(r, x) \<in> set named_escapes" using assms by (rule map_of_SomeD)
  then show ?thesis by (auto simp: named_escapes_def visible_def)
qed

lemma escape_rune_cases:
  obtains (raw) "escape_rune ip r raw = raw" "r \<noteq> 0x22" "r \<noteq> 0x5C" "IsPrint ip r"
  | (pair) x where "escape_rune ip r raw = [BS, x]" "visible x"
  | (hex) x k where "escape_rune ip r raw = [BS, x] @ hex_digits k r" "visible x"
proof -
  have v: "visible DQ" "visible BS" "visible (CHR ''x'')" "visible (CHR ''u'')" "visible (CHR ''U'')"
    by (simp_all add: visible_def)
  consider "r = 0x22" | "r = 0x5C" | "r \<noteq> 0x22" "r \<noteq> 0x5C" "IsPrint ip r"
    | "r \<noteq> 0x22" "r \<noteq> 0x5C" "\<not> IsPrint ip r" by blast
  then show thesis
  proof cases
    case 4
    show thesis
    proof (cases "map_of named_escapes r")
      case None
      with 4 v show thesis
        by (cases "r < 0x20 \<or> r = 0x7F"; cases "r < 0x10000")
          (auto simp: escape_rune_def simp del: hex_digits.simps intro: hex)
    next
      case (Some x)
      with 4 named_escapes_Some [OF Some] show thesis by (auto simp: escape_rune_def intro: pair)
    qed
  qed (use v in \<open>auto simp: escape_rune_def intro: raw pair\<close>)
qed

function quote_body :: "(nat \<Rightarrow> bool) \<Rightarrow> string \<Rightarrow> string" where
  "quote_body ip s =
     (case s of [] \<Rightarrow> []
      | c # cs \<Rightarrow>
        (case DecodeRune s of
           None \<Rightarrow> [BS, CHR ''x''] @ hex_digits 2 (ord c) @ quote_body ip cs
         | Some (r, w) \<Rightarrow> escape_rune ip r (take w s) @ quote_body ip (drop w s)))"
  by pat_completeness auto
termination
  by (relation "measure (\<lambda>(ip, s). length s)") (auto dest!: DecodeRune_width)

declare quote_body.simps [simp del]

lemma DecodeRune_Nil [simp]: "DecodeRune [] = None"
  by (simp add: DecodeRune_def)

lemma quote_body_Nil [simp]: "quote_body ip [] = []"
  by (simp add: quote_body.simps)

lemma quote_body_bad:
  "DecodeRune (c # cs) = None \<Longrightarrow>
   quote_body ip (c # cs) = ([BS, CHR ''x''] @ hex_digits 2 (ord c)) @ quote_body ip cs"
  by (subst quote_body.simps) simp

lemma quote_body_rune:
  "DecodeRune s = Some (r, w) \<Longrightarrow>
   quote_body ip s = escape_rune ip r (take w s) @ quote_body ip (drop w s)"
  by (cases s; subst quote_body.simps) simp_all

lemma quote_body_induct [case_names Nil bad rune]:
  assumes "P []"
    and "\<And>c cs. DecodeRune (c # cs) = None \<Longrightarrow> P cs \<Longrightarrow> P (c # cs)"
    and "\<And>s r w. DecodeRune s = Some (r, w) \<Longrightarrow> P (drop w s) \<Longrightarrow> P s"
  shows "P s"
proof (induction s rule: length_induct)
  case (1 s)
  show ?case
  proof (cases s)
    case (Cons c cs)
    show ?thesis
    proof (cases "DecodeRune s")
      case None
      have "P cs" using 1 Cons by simp
      with None Cons show ?thesis by (simp add: assms(2))
    next
      case (Some q)
      obtain r w where q: "q = (r, w)" by (cases q)
      have "0 < w" "w \<le> length s" using DecodeRune_width [of s r w] Some q by simp_all
      then have "length (drop w s) < length s" by simp
      with 1 have "P (drop w s)" by blast
      with Some q show ?thesis by (simp add: assms(3))
    qed
  qed (simp add: assms(1))
qed

definition Quote :: "(nat \<Rightarrow> bool) \<Rightarrow> string \<Rightarrow> string" where
  "Quote ip s = [DQ] @ quote_body ip s @ [DQ]"

section \<open>Reading a quoted string\<close>

text \<open>
  A reader of quoted strings, standing for the one in the server: it stops at the first quote
  that no backslash escapes and returns the text between the quotes and what follows.
\<close>

fun scan_quoted :: "string \<Rightarrow> (string \<times> string) option" where
  "scan_quoted [] = None"
| "scan_quoted (c # cs) =
     (if c = DQ then Some ([], cs)
      else if c = BS then
        (case cs of [] \<Rightarrow> None
         | d # ds \<Rightarrow> map_option (\<lambda>(t, r). (c # d # t, r)) (scan_quoted ds))
      else map_option (\<lambda>(t, r). (c # t, r)) (scan_quoted cs))"

text \<open>Undoing the escapes, \<open>strconv.Unquote\<close> without the quotes.\<close>

definition simple_escape :: "char \<Rightarrow> char" where
  "simple_escape d =
     (if d = CHR ''a'' then CHR 0x07 else if d = CHR ''b'' then CHR 0x08
      else if d = CHR ''f'' then CHR 0x0C else if d = CHR ''n'' then CHR 0x0A
      else if d = CHR ''r'' then CHR 0x0D else if d = CHR ''t'' then CHR 0x09
      else if d = CHR ''v'' then CHR 0x0B else d)"

text \<open>The bytes a backslash sequence stands for and the number of characters after the backslash.\<close>

definition unescape :: "string \<Rightarrow> (string \<times> nat) option" where
  "unescape ds =
     (case ds of [] \<Rightarrow> None
      | d # hs \<Rightarrow>
        if d = CHR ''x'' then Some ([char_of (hex_val (take 2 hs))], 3)
        else if d = CHR ''u'' then Some (EncodeRune (hex_val (take 4 hs)), 5)
        else if d = CHR ''U'' then Some (EncodeRune (hex_val (take 8 hs)), 9)
        else Some ([simple_escape d], 1))"

fun unquote :: "string \<Rightarrow> string option" where
  "unquote [] = Some []"
| "unquote (c # cs) =
     (if c \<noteq> BS then map_option ((#) c) (unquote cs)
      else (case unescape cs of
          None \<Rightarrow> None
        | Some (bs, n) \<Rightarrow> map_option ((@) bs) (unquote (drop n cs))))"

section \<open>Quoted text cannot break out of its quotes\<close>

text \<open>
  \<open>quote_safe e\<close>: the reader passes over \<open>e\<close> whatever follows. Escaped and
  plain pieces are safe, so every quoted body is.
\<close>

definition quote_safe :: "string \<Rightarrow> bool" where
  "quote_safe e = (\<forall>t. scan_quoted (e @ t) = map_option (\<lambda>(x, y). (e @ x, y)) (scan_quoted t))"

lemma quote_safe_Nil [simp]: "quote_safe []"
  by (simp add: quote_safe_def map_option_case split: option.splits)

lemma quote_safe_append: "quote_safe a \<Longrightarrow> quote_safe b \<Longrightarrow> quote_safe (a @ b)"
  by (simp add: quote_safe_def option.map_comp o_def case_prod_unfold)

lemma quote_safe_escaped: "quote_safe [BS, d]"
  by (simp add: quote_safe_def map_option_case split: option.splits)

lemma quote_safe_char: "c \<noteq> DQ \<Longrightarrow> c \<noteq> BS \<Longrightarrow> quote_safe [c]"
  by (simp add: quote_safe_def map_option_case split: option.splits)

lemma quote_safe_plain: "DQ \<notin> set e \<Longrightarrow> BS \<notin> set e \<Longrightarrow> quote_safe e"
proof (induction e)
  case (Cons c e)
  then have "quote_safe ([c] @ e)" by (intro quote_safe_append quote_safe_char) auto
  then show ?case by simp
qed simp

lemma hex_digits_plain:
  assumes "c \<in> set (hex_digits k r)"
  shows "c \<noteq> DQ" "c \<noteq> BS" "0x20 \<le> ord c" "ord c < 0x7F"
proof -
  obtain n where "n < 16" "c = hexd n" using set_hex_digits [OF assms] by blast
  then have "48 \<le> ord c" "ord c < 0x7F" "ord c \<noteq> 0x5C" by (auto simp: ord_hexd)
  then show "c \<noteq> DQ" "c \<noteq> BS" "0x20 \<le> ord c" "ord c < 0x7F" by auto
qed

lemma quote_safe_hex: "quote_safe ([BS, x] @ hex_digits k r)"
  by (intro quote_safe_append quote_safe_escaped quote_safe_plain) (auto dest: hex_digits_plain)

lemma raw_plain:
  assumes "DecodeRune s = Some (r, w)" "r \<noteq> 0x22" "r \<noteq> 0x5C"
  shows "DQ \<notin> set (take w s)" "BS \<notin> set (take w s)"
proof -
  note D = DecodeRune_Some [OF assms(1)]
  have "DQ \<notin> set (take w s) \<and> BS \<notin> set (take w s)"
  proof (cases "r < 0x80")
    case True
    with D have one: "take w s = [char_of r]" by blast
    have "ord (char_of r) = r" using True by (simp add: take_bit_nat_eq_self)
    with assms(2,3) have "char_of r \<noteq> DQ" "char_of r \<noteq> BS" by (metis ord_DQ, metis ord_BS)
    with one show ?thesis by simp
  next
    case False
    with D have "\<forall>b\<in>set (take w s). 0x80 \<le> ord b" by simp
    then show ?thesis by (auto dest: bspec)
  qed
  then show "DQ \<notin> set (take w s)" "BS \<notin> set (take w s)" by auto
qed

lemma quote_safe_rune:
  assumes "DecodeRune s = Some (r, w)"
  shows "quote_safe (escape_rune ip r (take w s))"
proof (cases rule: escape_rune_cases [of ip r "take w s"])
  case raw
  with raw_plain [OF assms] show ?thesis by (simp add: quote_safe_plain)
next
  case (pair x)
  then show ?thesis by (simp only: quote_safe_escaped)
next
  case (hex x k)
  then show ?thesis by (simp only: quote_safe_hex)
qed

lemma quote_safe_quote_body: "quote_safe (quote_body ip s)"
proof (induction s rule: quote_body_induct)
  case (bad c cs)
  then show ?case by (simp only: quote_body_bad quote_safe_append quote_safe_hex)
next
  case (rune s r w)
  then show ?case by (simp only: quote_body_rune quote_safe_append quote_safe_rune)
qed simp

text \<open>The reader finds exactly the quoted body and leaves the text after the closing quote.\<close>

lemma scan_Quote: "scan_quoted (quote_body ip s @ DQ # rest) = Some (quote_body ip s, rest)"
  using quote_safe_quote_body [of ip s] by (simp add: quote_safe_def)

section \<open>Quoting is invertible and stays on one line\<close>

lemma simple_escape_named:
  "list_all (\<lambda>(r, x). simple_escape x = char_of r \<and> x \<notin> {CHR ''x'', CHR ''u'', CHR ''U''}) named_escapes"
  by (simp add: named_escapes_def simple_escape_def char_of_lits)

lemma unquote_hex_escape:
  assumes "n < 256"
  shows "unquote ([BS, CHR ''x''] @ hex_digits 2 n @ t) = map_option ((@) [char_of n]) (unquote t)"
  using assms hex_val_hex_digits [of 2 n] by (simp add: unescape_def del: hex_digits.simps)

lemma unquote_u_escape:
  assumes "r < 0x10000"
  shows "unquote ([BS, CHR ''u''] @ hex_digits 4 r @ t) = map_option ((@) (EncodeRune r)) (unquote t)"
  using assms hex_val_hex_digits [of 4 r] by (simp add: unescape_def del: hex_digits.simps)

lemma unquote_U_escape:
  assumes "r < 0x110000"
  shows "unquote ([BS, CHR ''U''] @ hex_digits 8 r @ t) = map_option ((@) (EncodeRune r)) (unquote t)"
  using assms hex_val_hex_digits [of 8 r] by (simp add: unescape_def del: hex_digits.simps)

lemma unquote_plain: "BS \<notin> set e \<Longrightarrow> unquote (e @ t) = map_option ((@) e) (unquote t)"
  by (induction e) (auto simp: map_option_case split: option.splits)

lemma unquote_rune:
  assumes "DecodeRune s = Some (r, w)"
  shows "unquote (escape_rune ip r (take w s) @ t) = map_option ((@) (take w s)) (unquote t)"
proof -
  have E: "EncodeRune r = take w s" "r < 0x110000" "r < 0x80 \<longrightarrow> take w s = [char_of r]"
    using DecodeRune_Some [OF assms] by blast+
  consider "r = 0x22" | "r = 0x5C" | "r \<noteq> 0x22" "r \<noteq> 0x5C" "IsPrint ip r"
    | "r < 0x80" "\<not> IsPrint ip r" "r \<noteq> 0x22" "r \<noteq> 0x5C" | "0x80 \<le> r" "\<not> IsPrint ip r"
    by (meson not_less)
  then show ?thesis
  proof cases
    case 1
    with E(3) show ?thesis by (simp add: escape_rune_def unescape_def simple_escape_def char_of_lits)
  next
    case 2
    with E(3) show ?thesis by (simp add: escape_rune_def unescape_def simple_escape_def char_of_lits)
  next
    case 3
    with raw_plain [OF assms] show ?thesis by (simp add: escape_rune_def unquote_plain)
  next
    case 4
    have r: "r < 0x20 \<or> r = 0x7F" using 4 by (auto simp: IsPrint_def)
    show ?thesis
    proof (cases "map_of named_escapes r")
      case None
      with 4 r E(3) unquote_hex_escape [of r t] show ?thesis
        by (simp add: escape_rune_def del: unquote.simps hex_digits.simps)
    next
      case (Some x)
      with 4 E(3) have e: "escape_rune ip r (take w s) = [BS, x]" "take w s = [char_of r]"
        by (simp_all add: escape_rune_def)
      have "(r, x) \<in> set named_escapes" using Some by (rule map_of_SomeD)
      then have "simple_escape x = char_of r" "x \<noteq> CHR ''x''" "x \<noteq> CHR ''u''" "x \<noteq> CHR ''U''"
        using simple_escape_named by (auto simp: list_all_iff)
      then have "unescape (x # t) = Some ([char_of r], 1)" by (simp add: unescape_def)
      with e show ?thesis by simp
    qed
  next
    case 5
    then have "map_of named_escapes r = None"
      using named_escapes_Some [of r] by (cases "map_of named_escapes r") auto
    with 5 have "escape_rune ip r (take w s) =
        (if r < 0x10000 then [BS, CHR ''u''] @ hex_digits 4 r else [BS, CHR ''U''] @ hex_digits 8 r)"
      by (simp add: escape_rune_def del: hex_digits.simps)
    with E(1,2) unquote_u_escape [of r t] unquote_U_escape [of r t] show ?thesis
      by (simp only: append_assoc split: if_split) blast
  qed
qed

lemma unquote_quote_body: "unquote (quote_body ip s) = Some s"
proof (induction s rule: quote_body_induct)
  case (bad c cs)
  then show ?case using unquote_hex_escape [of "ord c" "quote_body ip cs"]
    by (simp add: quote_body_bad del: unquote.simps hex_digits.simps)
next
  case (rune s r w)
  then show ?case by (simp add: quote_body_rune unquote_rune)
qed simp

lemma quote_body_inject: "quote_body ip s = quote_body ip t \<Longrightarrow> s = t"
  by (metis option.inject unquote_quote_body)

lemma Quote_inject: "Quote ip s = Quote ip t \<longleftrightarrow> s = t"
  by (auto simp: Quote_def dest: quote_body_inject)

lemma visible_no_control: "visible b \<Longrightarrow> 0x20 \<le> ord b \<and> ord b \<noteq> 0x7F"
  by (simp add: visible_def)

lemma hex_digits_visible: "c \<in> set (hex_digits k r) \<Longrightarrow> visible c"
  by (auto dest: set_hex_digits intro: visible_hexd)

lemma raw_no_control:
  assumes "DecodeRune s = Some (r, w)" "IsPrint ip r" "b \<in> set (take w s)"
  shows "0x20 \<le> ord b \<and> ord b \<noteq> 0x7F"
proof (cases "r < 0x80")
  case True
  with DecodeRune_Some [OF assms(1)] assms(3) have "b = char_of r" by simp
  then have "ord b = r" using True by (simp add: take_bit_nat_eq_self)
  then show ?thesis using True assms(2) by (simp add: IsPrint_def)
next
  case False
  with DecodeRune_Some [OF assms(1)] have "\<forall>b\<in>set (take w s). 0x80 \<le> ord b" by simp
  from bspec [OF this assms(3)] show ?thesis by simp
qed

lemma escape_rune_no_control:
  assumes "DecodeRune s = Some (r, w)" "b \<in> set (escape_rune ip r (take w s))"
  shows "0x20 \<le> ord b \<and> ord b \<noteq> 0x7F"
proof (cases rule: escape_rune_cases [of ip r "take w s"])
  case raw
  with assms show ?thesis by (metis raw_no_control)
next
  case (pair x)
  with assms(2) have "b = BS \<or> b = x" by simp
  with pair show ?thesis by (auto dest: visible_no_control)
next
  case (hex x k)
  with assms(2) have "b = BS \<or> b = x \<or> b \<in> set (hex_digits k r)" by simp
  with hex show ?thesis by (auto dest: visible_no_control hex_digits_visible)
qed

lemma quote_body_no_control: "b \<in> set (quote_body ip s) \<Longrightarrow> 0x20 \<le> ord b \<and> ord b \<noteq> 0x7F"
proof (induction s rule: quote_body_induct)
  case (bad c cs)
  from bad.prems consider "b \<in> set [BS, CHR ''x'']" | "b \<in> set (hex_digits 2 (ord c))"
    | "b \<in> set (quote_body ip cs)"
    by (auto simp: quote_body_bad [OF bad.hyps] simp del: hex_digits.simps)
  then show ?case using bad.IH by cases (auto dest: hex_digits_plain(3,4))
next
  case (rune s r w)
  then show ?case by (auto simp: quote_body_rune dest: escape_rune_no_control)
qed simp

lemma Quote_no_newline: "CHR 0x0A \<notin> set (Quote ip s)"
  by (auto simp: Quote_def dest: quote_body_no_control)

end
