(* ===== verification/NatsGenerate.thy ===== *)
theory NatsGenerate
  imports NatsConvert GoQuote
begin

text \<open>
  \<open>internal/natsconfig/generate.go\<close>: rendering the configuration as the text of
  \<open>auth.conf\<close>. Each \<open>write...\<close> function of the source appends to a string builder;
  here it returns what it appends. \<open>ip\<close> is the table of printable code points that
  \<open>%q\<close> consults.
\<close>

section \<open>Rendering\<close>

definition sentinelNKey :: string where
  "sentinelNKey = ''UCIDQZZKASESVE5OOIFA3HJAQNSHYMUOSFPKY4FTDKMWNVIO4JW4Q5Q6''"

definition indentation :: "nat \<Rightarrow> string" where
  "indentation n = Repeat ''  '' n"

definition quoteStrings :: "(nat \<Rightarrow> bool) \<Rightarrow> string list \<Rightarrow> string" where
  "quoteStrings ip ss = Join (map (Quote ip) ss) '', ''"

definition writeAllowResponses :: "(nat \<Rightarrow> bool) \<Rightarrow> response_permission_config \<Rightarrow> nat \<Rightarrow> string" where
  "writeAllowResponses ip ar indent =
     (if rp_max_msgs ar = None \<and> rp_ttl ar = None then
        indentation indent @ ''allow_responses: true'' @ NL
      else
        indentation indent @ ''allow_responses {'' @ NL
        @ (case rp_max_msgs ar of None \<Rightarrow> []
           | Some n \<Rightarrow> indentation (indent + 1) @ ''max: '' @ show_int (sint n) @ NL)
        @ (case rp_ttl ar of None \<Rightarrow> []
           | Some t \<Rightarrow> indentation (indent + 1) @ ''ttl: '' @ Quote ip t @ NL)
        @ indentation indent @ ''}'' @ NL)"

definition writePermissionRule ::
  "(nat \<Rightarrow> bool) \<Rightarrow> string \<Rightarrow> permission_rule_config \<Rightarrow> nat \<Rightarrow> string" where
  "writePermissionRule ip name rule indent =
     indentation indent @ name @ '' {'' @ NL
     @ (if prc_allow rule \<noteq> []
        then indentation (indent + 1) @ ''allow: ['' @ quoteStrings ip (prc_allow rule) @ '']'' @ NL else [])
     @ (if prc_deny rule \<noteq> []
        then indentation (indent + 1) @ ''deny: ['' @ quoteStrings ip (prc_deny rule) @ '']'' @ NL else [])
     @ indentation indent @ ''}'' @ NL"

definition writePermissions :: "(nat \<Rightarrow> bool) \<Rightarrow> permissions_config \<Rightarrow> nat \<Rightarrow> string" where
  "writePermissions ip perms indent =
     indentation indent @ ''permissions {'' @ NL
     @ (case pc_publish perms of None \<Rightarrow> []
        | Some r \<Rightarrow> writePermissionRule ip ''publish'' r (indent + 1))
     @ (case pc_subscribe perms of None \<Rightarrow> []
        | Some r \<Rightarrow> writePermissionRule ip ''subscribe'' r (indent + 1))
     @ (case pc_allow_responses perms of None \<Rightarrow> []
        | Some ar \<Rightarrow> if rp_enabled ar then writeAllowResponses ip ar (indent + 1) else [])
     @ indentation indent @ ''}'' @ NL"

definition writeUser :: "(nat \<Rightarrow> bool) \<Rightarrow> user_config \<Rightarrow> nat \<Rightarrow> string" where
  "writeUser ip user indent =
     indentation indent @ ''nkey: '' @ uc_nkey user @ NL
     @ (case uc_permissions user of None \<Rightarrow> [] | Some p \<Rightarrow> writePermissions ip p indent)"

definition writeUsers :: "(nat \<Rightarrow> bool) \<Rightarrow> user_config list \<Rightarrow> nat \<Rightarrow> string" where
  "writeUsers ip users indent =
     indentation indent @ ''users = ['' @ NL
     @ concat (map (\<lambda>user. indentation (indent + 1) @ ''{'' @ NL
                           @ writeUser ip user (indent + 2)
                           @ indentation (indent + 1) @ ''}'' @ NL) users)
     @ indentation indent @ '']'' @ NL"

definition opt_line :: "nat \<Rightarrow> string \<Rightarrow> string \<Rightarrow> string" where
  "opt_line indent key v = (if v \<noteq> [] then indentation indent @ key @ '': '' @ v @ NL else [])"

definition opt_num :: "nat \<Rightarrow> string \<Rightarrow> int64 option \<Rightarrow> string" where
  "opt_num indent key v =
     (case v of None \<Rightarrow> [] | Some n \<Rightarrow> indentation indent @ key @ '': '' @ show_int (sint n) @ NL)"

definition opt_bool :: "nat \<Rightarrow> string \<Rightarrow> bool option \<Rightarrow> string" where
  "opt_bool indent key v =
     (case v of None \<Rightarrow> [] | Some b \<Rightarrow> indentation indent @ key @ '': '' @ show_bool b @ NL)"

definition writeJetStream :: "jetstream_config \<Rightarrow> nat \<Rightarrow> string" where
  "writeJetStream js indent =
     indentation indent @ ''jetstream {'' @ NL
     @ opt_line (indent + 1) ''max_mem'' (jc_max_memory js)
     @ opt_line (indent + 1) ''max_file'' (jc_max_file js)
     @ opt_num (indent + 1) ''max_streams'' (jc_max_streams js)
     @ opt_num (indent + 1) ''max_consumers'' (jc_max_consumers js)
     @ opt_bool (indent + 1) ''max_bytes_required'' (jc_max_bytes_required js)
     @ opt_line (indent + 1) ''memory_max_stream_bytes'' (jc_memory_max_stream_bytes js)
     @ opt_line (indent + 1) ''disk_max_stream_bytes'' (jc_disk_max_stream_bytes js)
     @ opt_num (indent + 1) ''max_ack_pending'' (jc_max_ack_pending js)
     @ indentation indent @ ''}'' @ NL"

definition writeLimits :: "limits_config \<Rightarrow> nat \<Rightarrow> string" where
  "writeLimits limits indent =
     indentation indent @ ''limits {'' @ NL
     @ opt_num (indent + 1) ''max_connections'' (lc_max_connections limits)
     @ opt_num (indent + 1) ''max_subscriptions'' (lc_max_subscriptions limits)
     @ opt_line (indent + 1) ''max_payload'' (lc_max_payload limits)
     @ opt_num (indent + 1) ''max_leafnodes'' (lc_max_leafnodes limits)
     @ indentation indent @ ''}'' @ NL"

definition writeAccount :: "(nat \<Rightarrow> bool) \<Rightarrow> string \<Rightarrow> account_config \<Rightarrow> nat \<Rightarrow> string" where
  "writeAccount ip name acct indent =
     indentation indent @ name @ '' {'' @ NL
     @ (case acc_jetstream acct of None \<Rightarrow> [] | Some js \<Rightarrow> writeJetStream js (indent + 1))
     @ (case acc_limits acct of None \<Rightarrow> [] | Some l \<Rightarrow> writeLimits l (indent + 1))
     @ (if acc_users acct \<noteq> [] then writeUsers ip (acc_users acct) (indent + 1) else [])
     @ indentation indent @ ''}'' @ NL"

definition sentinelUser :: user_config where
  "sentinelUser =
     \<lparr>uc_nkey = sentinelNKey,
      uc_permissions = Some
        \<lparr>pc_publish = Some \<lparr>prc_allow = [], prc_deny = [''>'']\<rparr>,
         pc_subscribe = Some \<lparr>prc_allow = [], prc_deny = [''>'']\<rparr>,
         pc_allow_responses = None\<rparr>\<rparr>"

definition writeSentinelAuthorization :: "(nat \<Rightarrow> bool) \<Rightarrow> string" where
  "writeSentinelAuthorization ip =
     ''authorization {'' @ NL @ writeUsers ip [sentinelUser] 1 @ ''}'' @ NL"

definition totalUsers :: "account_config gomap \<Rightarrow> nat" where
  "totalUsers accounts = foldl (\<lambda>n (name, a). n + length (acc_users a)) 0 accounts"

definition empty_account :: account_config where
  "empty_account = \<lparr>acc_jetstream = None, acc_limits = None, acc_users = []\<rparr>"

definition Generate :: "(nat \<Rightarrow> bool) \<Rightarrow> nats_config \<Rightarrow> string" where
  "Generate ip cfg =
     ''# Auto-generated by nats-operator - DO NOT EDIT'' @ NL
     @ (if nc_system_account cfg \<noteq> []
        then ''system_account: '' @ Quote ip (nc_system_account cfg) @ NL else [])
     @ (if totalUsers (nc_accounts cfg) = 0 then
          ''# WARNING: no NatsUser resources defined. Emitting deny-all sentinel'' @ NL
          @ ''# user (implicitly in $G) to force NATS to require authentication.'' @ NL
          @ ''# Provision NatsUser resources to enable real client access.'' @ NL
          @ writeSentinelAuthorization ip
        else [])
     @ ''accounts {'' @ NL
     @ concat (map (\<lambda>name. writeAccount ip name (map_get empty_account (nc_accounts cfg) name) 1)
         (sort (map_keys (nc_accounts cfg))))
     @ ''}'' @ NL"

section \<open>Rendering does not depend on the order of the map\<close>

lemma foldl_add: "foldl (\<lambda>n x. n + f x) a xs = a + sum_list (map f xs)" for a :: nat
  by (induction xs arbitrary: a) auto

lemma totalUsers_sum: "totalUsers m = sum_list (map (\<lambda>(name, a). length (acc_users a)) m)"
  using foldl_add [of "\<lambda>(name, a). length (acc_users a)" 0 m]
  by (simp add: totalUsers_def case_prod_unfold)

lemma totalUsers_mset: "mset m = mset m' \<Longrightarrow> totalUsers m = totalUsers m'"
  unfolding totalUsers_sum sum_mset_sum_list [symmetric] by (simp only: mset_map)

lemma totalUsers_0: "totalUsers m = 0 \<longleftrightarrow> (\<forall>(name, a)\<in>set m. acc_users a = [])"
  by (auto simp: totalUsers_sum)

text \<open>
  C21. Rendering is deterministic: two configurations with the same system account and the
  same accounts give the same text, whatever the order in which Go iterates over the map.
\<close>
theorem Generate_deterministic:
  assumes "nc_system_account c = nc_system_account d"
    and "map_wf (nc_accounts c)" "map_wf (nc_accounts d)"
    and "map_of (nc_accounts c) = map_of (nc_accounts d)"
  shows "Generate ip c = Generate ip d"
proof -
  have m: "mset (nc_accounts c) = mset (nc_accounts d)"
    using assms(2-4) by (rule map_wf_same_mset)
  then have "sort (map_keys (nc_accounts c)) = sort (map_keys (nc_accounts d))"
    by (metis mset_map properties_for_sort sorted_sort mset_sort)
  moreover have "map_get empty_account (nc_accounts c) = map_get empty_account (nc_accounts d)"
    using assms(4) by (simp add: map_get_def fun_eq_iff)
  ultimately show ?thesis
    using assms(1) totalUsers_mset [OF m] by (simp add: Generate_def)
qed

theorem Generate_deterministic_witness:
  "Generate (\<lambda>_. True)
     \<lparr>nc_system_account = [], nc_system_account_conflicts = [],
      nc_accounts = [(''b'', empty_account), (''a'', empty_account)]\<rparr> =
   Generate (\<lambda>_. True)
     \<lparr>nc_system_account = [], nc_system_account_conflicts = [],
      nc_accounts = [(''a'', empty_account), (''b'', empty_account)]\<rparr>"
  by (rule Generate_deterministic) (auto simp: fun_eq_iff)

section \<open>The text as a tree of lines\<close>

text \<open>
  The server's configuration format is a tree: a line that ends in an opening brace or bracket
  starts a block, a line that is just the closing one ends it, every other line is an entry.
  \<open>layout\<close> lays a tree out, two blanks per level; \<open>read_doc\<close> is a reader of
  such text that knows nothing of the program.
\<close>

datatype node = Leaf string | Block string "node list"

definition closer :: "string \<Rightarrow> string" where
  "closer h = (if last h = CHR ''['' then '']'' else ''}'')"

definition opens :: "string \<Rightarrow> bool" where
  "opens s = (s \<noteq> [] \<and> (last s = CHR ''{'' \<or> last s = CHR ''[''))"

definition closes :: "string \<Rightarrow> bool" where
  "closes s = (s = ''}'' \<or> s = '']'')"

definition strip_blanks :: "string \<Rightarrow> string" where
  "strip_blanks l = dropWhile (\<lambda>c. c = CHR '' '') l"

primrec node_lines :: "nat \<Rightarrow> node \<Rightarrow> string list" where
  "node_lines n (Leaf s) = [indentation n @ s]"
| "node_lines n (Block h ns) =
     (indentation n @ h) # concat (map (node_lines (Suc n)) ns) @ [indentation n @ closer h]"

definition layout :: "nat \<Rightarrow> node list \<Rightarrow> string" where
  "layout n ns = concat (map (\<lambda>l. l @ NL) (concat (map (node_lines n) ns)))"

text \<open>The reader keeps the blocks that are open, each with the entries before it, newest first.\<close>

definition close_block ::
  "string \<Rightarrow> (string \<times> node list) list \<times> node list \<Rightarrow>
     ((string \<times> node list) list \<times> node list) option" where
  "close_block s st =
     (case st of ((h, acc0) # st', acc) \<Rightarrow>
        if closer h = s then Some (st', Block h (rev acc) # acc0) else None
      | ([], acc) \<Rightarrow> None)"

definition read_line ::
  "string \<Rightarrow> (string \<times> node list) list \<times> node list \<Rightarrow>
     ((string \<times> node list) list \<times> node list) option" where
  "read_line s st =
     (if opens s then Some ((s, snd st) # fst st, [])
      else if closes s then close_block s st
      else Some (fst st, Leaf s # snd st))"

primrec read_lines ::
  "string list \<Rightarrow> (string \<times> node list) list \<times> node list \<Rightarrow> node list option" where
  "read_lines [] st = (if fst st = [] then Some (rev (snd st)) else None)"
| "read_lines (l # ls) st = Option.bind (read_line (strip_blanks l) st) (read_lines ls)"

definition read_doc :: "string \<Rightarrow> node list option" where
  "read_doc t = read_lines (butlast (Split t CHR 0x0A)) ([], [])"

text \<open>Trees the reader can tell apart: no line breaks inside an entry, no stray braces at its end.\<close>

definition line_ok :: "string \<Rightarrow> bool" where
  "line_ok s = (s \<noteq> [] \<and> hd s \<noteq> CHR '' '' \<and> CHR 0x0A \<notin> set s)"

primrec node_ok :: "node \<Rightarrow> bool" where
  "node_ok (Leaf s) = (line_ok s \<and> \<not> opens s \<and> \<not> closes s)"
| "node_ok (Block h ns) = (line_ok h \<and> opens h \<and> list_all node_ok ns)"

lemma strip_indentation: "line_ok s \<Longrightarrow> strip_blanks (indentation n @ s) = s"
  by (induction n)
    (auto simp: indentation_def Repeat_def line_ok_def strip_blanks_def dropWhile_eq_self_iff)

lemma indentation_no_newline: "CHR 0x0A \<notin> set (indentation n)"
  using set_Repeat [of "''  ''" n] by (auto simp: indentation_def)

lemma closer_ok [simp]: "closes (closer h)" "line_ok (closer h)" "\<not> opens (closer h)"
  by (auto simp: closer_def closes_def line_ok_def opens_def)

lemma read_line_Leaf: "node_ok (Leaf s) \<Longrightarrow> read_line s (st, acc) = Some (st, Leaf s # acc)"
  by (simp add: read_line_def)

lemma read_line_open: "opens h \<Longrightarrow> read_line h (st, acc) = Some ((h, acc) # st, [])"
  by (simp add: read_line_def)

lemma read_line_close:
  "read_line (closer h) ((h, acc0) # st, acc) = Some (st, Block h (rev acc) # acc0)"
  by (simp add: read_line_def close_block_def)

lemma read_node_lines:
  assumes "node_ok t"
  shows "read_lines (node_lines n t @ ls) (st, acc) = read_lines ls (st, t # acc)"
  using assms
proof (induction t arbitrary: n ls st acc)
  case (Leaf s)
  then show ?case by (simp add: strip_indentation read_line_Leaf del: append_assoc)
next
  case (Block h ns)
  have kids: "read_lines (concat (map (node_lines (Suc n)) ms) @ ls) (st, acc) =
      read_lines ls (st, rev ms @ acc)" if "set ms \<subseteq> set ns" for ms ls st acc
    using that
  proof (induction ms arbitrary: acc)
    case (Cons m ms)
    have "node_ok m" using Block.prems Cons.prems by (auto simp: list_all_iff)
    with Block.IH [of m] Cons show ?case by simp
  qed simp
  have h: "line_ok h" "opens h" using Block.prems by auto
  then have "read_lines (node_lines n (Block h ns) @ ls) (st, acc) =
      read_lines (concat (map (node_lines (Suc n)) ns) @ (indentation n @ closer h) # ls) ((h, acc) # st, [])"
    by (simp add: strip_indentation read_line_open)
  also have "\<dots> = read_lines ((indentation n @ closer h) # ls) ((h, acc) # st, rev ns)"
    by (simp add: kids)
  also have "\<dots> = read_lines ls (st, Block h ns # acc)"
    by (simp add: strip_indentation read_line_close)
  finally show ?case .
qed

lemma read_nodes:
  "list_all node_ok ns \<Longrightarrow> read_lines (concat (map (node_lines n) ns)) ([], acc) = Some (rev acc @ ns)"
proof (induction ns arbitrary: acc)
  case (Cons t ns)
  then show ?case by (simp add: read_node_lines)
qed simp

lemma line_ok_closed: "line_ok s \<Longrightarrow> CHR 0x0A \<notin> set s"
  by (simp add: line_ok_def)

lemma node_lines_closed: "node_ok t \<Longrightarrow> l \<in> set (node_lines n t) \<Longrightarrow> CHR 0x0A \<notin> set l"
proof (induction t arbitrary: n)
  case (Leaf s)
  then show ?case using indentation_no_newline [of n] by (auto simp: line_ok_def)
next
  case (Block h ns)
  then show ?case
    using indentation_no_newline [of n] line_ok_closed [OF closer_ok(2) [of h]]
    by (auto simp: line_ok_def list_all_iff)
qed

theorem read_layout: "list_all node_ok ns \<Longrightarrow> read_doc (layout n ns) = Some ns"
proof -
  assume ok: "list_all node_ok ns"
  then have "\<forall>l\<in>set (concat (map (node_lines n) ns)). CHR 0x0A \<notin> set l"
    by (auto simp: list_all_iff dest: node_lines_closed)
  then have "Split (layout n ns) CHR 0x0A = concat (map (node_lines n) ns) @ [[]]"
    unfolding layout_def by (rule Split_lines)
  then show ?thesis using read_nodes [OF ok, of n "[]"] by (simp add: read_doc_def)
qed

section \<open>What the program writes is such a layout\<close>

lemma layout_Nil [simp]: "layout n [] = []"
  by (simp add: layout_def)

lemma layout_Cons: "layout n (t # ts) = layout n [t] @ layout n ts"
  by (simp add: layout_def)

lemma layout_append: "layout n (ts @ us) = layout n ts @ layout n us"
  by (simp add: layout_def)

lemma layout_Leaf: "layout n (Leaf s # ts) = indentation n @ s @ NL @ layout n ts"
  by (simp add: layout_def)

lemma layout_Block: "layout n [Block h ns] = indentation n @ h @ NL @ layout (n + 1) ns @ indentation n @ closer h @ NL"
  by (simp add: layout_def)

lemmas layout_simps = layout_Leaf layout_Block layout_append

definition opt_entry :: "string \<Rightarrow> ('a \<Rightarrow> string) \<Rightarrow> 'a option \<Rightarrow> node list" where
  "opt_entry key sh v = (case v of None \<Rightarrow> [] | Some x \<Rightarrow> [Leaf (key @ '': '' @ sh x)])"

definition text_entry :: "string \<Rightarrow> string \<Rightarrow> node list" where
  "text_entry key v = (if v = [] then [] else [Leaf (key @ '': '' @ v)])"

definition list_entry :: "(nat \<Rightarrow> bool) \<Rightarrow> string \<Rightarrow> string list \<Rightarrow> node list" where
  "list_entry ip key ss = (if ss = [] then [] else [Leaf (key @ '': ['' @ quoteStrings ip ss @ '']'')])"

definition show_int64 :: "int64 \<Rightarrow> string" where
  "show_int64 n = show_int (sint n)"

definition responses_nodes :: "(nat \<Rightarrow> bool) \<Rightarrow> response_permission_config option \<Rightarrow> node list" where
  "responses_nodes ip ar =
     (case ar of None \<Rightarrow> []
      | Some r \<Rightarrow> if \<not> rp_enabled r then []
          else if rp_max_msgs r = None \<and> rp_ttl r = None then [Leaf ''allow_responses: true'']
          else [Block ''allow_responses {''
            (opt_entry ''max'' show_int64 (rp_max_msgs r) @ opt_entry ''ttl'' (Quote ip) (rp_ttl r))])"

definition rule_nodes :: "(nat \<Rightarrow> bool) \<Rightarrow> string \<Rightarrow> permission_rule_config option \<Rightarrow> node list" where
  "rule_nodes ip name r =
     (case r of None \<Rightarrow> []
      | Some x \<Rightarrow> [Block (name @ '' {'')
          (list_entry ip ''allow'' (prc_allow x) @ list_entry ip ''deny'' (prc_deny x))])"

definition permissions_nodes :: "(nat \<Rightarrow> bool) \<Rightarrow> permissions_config option \<Rightarrow> node list" where
  "permissions_nodes ip p =
     (case p of None \<Rightarrow> []
      | Some q \<Rightarrow> [Block ''permissions {''
          (rule_nodes ip ''publish'' (pc_publish q) @ rule_nodes ip ''subscribe'' (pc_subscribe q)
           @ responses_nodes ip (pc_allow_responses q))])"

definition user_node :: "(nat \<Rightarrow> bool) \<Rightarrow> user_config \<Rightarrow> node" where
  "user_node ip u = Block ''{'' (Leaf (''nkey: '' @ uc_nkey u) # permissions_nodes ip (uc_permissions u))"

definition users_nodes :: "(nat \<Rightarrow> bool) \<Rightarrow> user_config list \<Rightarrow> node list" where
  "users_nodes ip us = (if us = [] then [] else [Block ''users = ['' (map (user_node ip) us)])"

definition jetstream_nodes :: "jetstream_config option \<Rightarrow> node list" where
  "jetstream_nodes js =
     (case js of None \<Rightarrow> []
      | Some j \<Rightarrow> [Block ''jetstream {''
          (text_entry ''max_mem'' (jc_max_memory j) @ text_entry ''max_file'' (jc_max_file j)
           @ opt_entry ''max_streams'' show_int64 (jc_max_streams j)
           @ opt_entry ''max_consumers'' show_int64 (jc_max_consumers j)
           @ opt_entry ''max_bytes_required'' show_bool (jc_max_bytes_required j)
           @ text_entry ''memory_max_stream_bytes'' (jc_memory_max_stream_bytes j)
           @ text_entry ''disk_max_stream_bytes'' (jc_disk_max_stream_bytes j)
           @ opt_entry ''max_ack_pending'' show_int64 (jc_max_ack_pending j))])"

definition limits_nodes :: "limits_config option \<Rightarrow> node list" where
  "limits_nodes l =
     (case l of None \<Rightarrow> []
      | Some x \<Rightarrow> [Block ''limits {''
          (opt_entry ''max_connections'' show_int64 (lc_max_connections x)
           @ opt_entry ''max_subscriptions'' show_int64 (lc_max_subscriptions x)
           @ text_entry ''max_payload'' (lc_max_payload x)
           @ opt_entry ''max_leafnodes'' show_int64 (lc_max_leafnodes x))])"

definition account_node :: "(nat \<Rightarrow> bool) \<Rightarrow> string \<Rightarrow> account_config \<Rightarrow> node" where
  "account_node ip name a = Block (name @ '' {'')
     (jetstream_nodes (acc_jetstream a) @ limits_nodes (acc_limits a) @ users_nodes ip (acc_users a))"

definition sentinel_nodes :: "(nat \<Rightarrow> bool) \<Rightarrow> nat \<Rightarrow> node list" where
  "sentinel_nodes ip n =
     (if n = 0
      then [Leaf ''# WARNING: no NatsUser resources defined. Emitting deny-all sentinel'',
            Leaf ''# user (implicitly in $G) to force NATS to require authentication.'',
            Leaf ''# Provision NatsUser resources to enable real client access.'',
            Block ''authorization {'' (users_nodes ip [sentinelUser])]
      else [])"

definition config_nodes :: "(nat \<Rightarrow> bool) \<Rightarrow> nats_config \<Rightarrow> node list" where
  "config_nodes ip cfg =
     [Leaf ''# Auto-generated by nats-operator - DO NOT EDIT'']
     @ text_entry ''system_account''
         (if nc_system_account cfg = [] then [] else Quote ip (nc_system_account cfg))
     @ sentinel_nodes ip (totalUsers (nc_accounts cfg))
     @ [Block ''accounts {''
          (map (\<lambda>name. account_node ip name (map_get empty_account (nc_accounts cfg) name))
            (sort (map_keys (nc_accounts cfg))))]"

lemma closer_brace [simp]: "closer (s @ '' {'') = ''}''"
  by (simp add: closer_def)

lemma closer_lits [simp]:
  "closer ''{'' = ''}''" "closer ''users = ['' = '']''" "closer ''permissions {'' = ''}''"
  "closer ''allow_responses {'' = ''}''" "closer ''jetstream {'' = ''}''" "closer ''limits {'' = ''}''"
  "closer ''accounts {'' = ''}''" "closer ''authorization {'' = ''}''"
  by (simp_all add: closer_def)

lemma layout_opt_num: "layout n (opt_entry key show_int64 v) = opt_num n key v"
  by (simp add: opt_entry_def opt_num_def layout_simps show_int64_def split: option.split)

lemma layout_opt_bool: "layout n (opt_entry key show_bool v) = opt_bool n key v"
  by (simp add: opt_entry_def opt_bool_def layout_simps split: option.split)

lemma layout_text_entry: "layout n (text_entry key v) = opt_line n key v"
  by (simp add: text_entry_def opt_line_def layout_simps)

lemma layout_rule: "layout n (rule_nodes ip name r) =
    (case r of None \<Rightarrow> [] | Some x \<Rightarrow> writePermissionRule ip name x n)"
  by (simp add: rule_nodes_def list_entry_def writePermissionRule_def layout_simps split: option.split)

lemma layout_responses: "layout n (responses_nodes ip ar) =
    (case ar of None \<Rightarrow> [] | Some r \<Rightarrow> if rp_enabled r then writeAllowResponses ip r n else [])"
  by (simp add: responses_nodes_def writeAllowResponses_def layout_simps layout_opt_num
      opt_num_def opt_entry_def show_int64_def split: option.split)

lemma layout_permissions: "layout n (permissions_nodes ip p) =
    (case p of None \<Rightarrow> [] | Some q \<Rightarrow> writePermissions ip q n)"
  by (simp add: permissions_nodes_def writePermissions_def layout_simps layout_rule
      layout_responses split: option.split)

lemma layout_user: "layout n [user_node ip u] = indentation n @ ''{'' @ NL @ writeUser ip u (n + 1) @ indentation n @ ''}'' @ NL"
  by (simp add: user_node_def writeUser_def layout_Block layout_Leaf layout_permissions)

lemma concat_map_concat: "concat (map f (concat xss)) = concat (map (\<lambda>xs. concat (map f xs)) xss)"
  by (induction xss) simp_all

lemma layout_map: "layout n (map f xs) = concat (map (\<lambda>x. layout n [f x]) xs)"
  by (simp add: layout_def comp_def concat_map_concat)

lemma layout_users: "us \<noteq> [] \<Longrightarrow> layout n (users_nodes ip us) = writeUsers ip us n"
  by (simp add: users_nodes_def writeUsers_def layout_Block layout_map layout_user)

lemma layout_jetstream: "layout n (jetstream_nodes js) =
    (case js of None \<Rightarrow> [] | Some j \<Rightarrow> writeJetStream j n)"
  by (cases js)
    (simp_all only: jetstream_nodes_def writeJetStream_def option.case layout_Nil layout_Block layout_append
      layout_opt_num layout_opt_bool layout_text_entry closer_lits append_assoc)

lemma layout_limits: "layout n (limits_nodes l) =
    (case l of None \<Rightarrow> [] | Some x \<Rightarrow> writeLimits x n)"
  by (cases l)
    (simp_all only: limits_nodes_def writeLimits_def option.case layout_Nil layout_Block layout_append
      layout_opt_num layout_text_entry closer_lits append_assoc)

lemma layout_account: "layout n [account_node ip name a] = writeAccount ip name a n"
  by (cases "acc_users a = []")
    (simp_all add: account_node_def writeAccount_def layout_simps layout_jetstream layout_limits
      layout_users users_nodes_def [of _ "[]"] split: option.split)

lemma indentation_0 [simp]: "indentation 0 = []"
  by (simp add: indentation_def Repeat_def)

lemma layout_sentinel: "layout 0 (sentinel_nodes ip n) =
    (if n = 0 then
       ''# WARNING: no NatsUser resources defined. Emitting deny-all sentinel'' @ NL
       @ ''# user (implicitly in $G) to force NATS to require authentication.'' @ NL
       @ ''# Provision NatsUser resources to enable real client access.'' @ NL
       @ writeSentinelAuthorization ip else [])"
  by (simp add: sentinel_nodes_def writeSentinelAuthorization_def layout_users layout_Block layout_Leaf)

lemma layout_system_account: "layout 0 (text_entry ''system_account'' (if s = [] then [] else Quote ip s)) =
    (if s = [] then [] else ''system_account: '' @ Quote ip s @ NL)"
  by (simp add: layout_text_entry opt_line_def Quote_def)

lemma layout_accounts: "layout 0 [Block ''accounts {'' (map f xs)] =
    ''accounts {'' @ NL @ concat (map (\<lambda>x. layout 1 [f x]) xs) @ ''}'' @ NL"
  by (simp add: layout_Block layout_map)

lemma Generate_layout: "Generate ip cfg = layout 0 (config_nodes ip cfg)"
proof -
  have "layout 0 [Leaf s] = s @ NL" for s by (simp only: layout_Leaf layout_Nil indentation_0 append_Nil append_Nil2)
  then show ?thesis
    unfolding Generate_def config_nodes_def layout_append layout_sentinel layout_system_account
      layout_accounts layout_account
    by (cases "nc_system_account cfg = []"; cases "totalUsers (nc_accounts cfg) = 0")
      (simp_all only: append_assoc append_Nil if_True if_False simp_thms(6) not_True_eq_False not_False_eq_True)
qed

section \<open>Reading the configuration back\<close>

text \<open>
  What a server makes of such a tree: the entries and blocks are found by name, lists of
  quoted strings and numbers are decoded.
\<close>

primrec entry :: "string \<Rightarrow> node list \<Rightarrow> string option" where
  "entry key [] = None"
| "entry key (t # ts) =
     (case t of
        Leaf s \<Rightarrow> if prefix (key @ '': '') s then Some (drop (length key + 2) s) else entry key ts
      | Block h ns \<Rightarrow> entry key ts)"

primrec block :: "string \<Rightarrow> node list \<Rightarrow> node list option" where
  "block h [] = None"
| "block h (t # ts) =
     (case t of Leaf s \<Rightarrow> block h ts | Block h' ns \<Rightarrow> if h' = h then Some ns else block h ts)"

definition read_int :: "string \<Rightarrow> int" where
  "read_int s = (if s \<noteq> [] \<and> hd s = CHR ''-'' then - int (read_nat (tl s)) else int (read_nat s))"

definition read_int64 :: "string \<Rightarrow> int64" where
  "read_int64 s = word_of_int (read_int s)"

definition read_text :: "string \<Rightarrow> node list \<Rightarrow> string" where
  "read_text key ns = (case entry key ns of None \<Rightarrow> [] | Some v \<Rightarrow> v)"

definition read_num :: "string \<Rightarrow> node list \<Rightarrow> int64 option" where
  "read_num key ns = map_option read_int64 (entry key ns)"

definition read_flag :: "string \<Rightarrow> node list \<Rightarrow> bool option" where
  "read_flag key ns = map_option (\<lambda>v. v = ''true'') (entry key ns)"

text \<open>One quoted string and what follows it; then a list of them up to the closing bracket.\<close>

definition quoted :: "string \<Rightarrow> (string \<times> string) option" where
  "quoted v =
     (case v of [] \<Rightarrow> None
      | c # r \<Rightarrow> if c \<noteq> DQ then None
          else Option.bind (scan_quoted r) (\<lambda>(b, rest). map_option (\<lambda>s. (s, rest)) (unquote b)))"

primrec quoted_list :: "nat \<Rightarrow> string \<Rightarrow> string list" where
  "quoted_list 0 v = []"
| "quoted_list (Suc n) v =
     (case quoted v of None \<Rightarrow> []
      | Some (s, rest) \<Rightarrow> s # (if prefix '', '' rest then quoted_list n (drop 2 rest) else []))"

definition read_list :: "string \<Rightarrow> node list \<Rightarrow> string list" where
  "read_list key ns =
     (case entry key ns of None \<Rightarrow> [] | Some v \<Rightarrow> quoted_list (length v) (tl v))"

definition read_quoted :: "string \<Rightarrow> node list \<Rightarrow> string option" where
  "read_quoted key ns = map_option fst (Option.bind (entry key ns) quoted)"

definition read_rule :: "node list \<Rightarrow> permission_rule_config" where
  "read_rule ns = \<lparr>prc_allow = read_list ''allow'' ns, prc_deny = read_list ''deny'' ns\<rparr>"

definition read_responses :: "node list \<Rightarrow> response_permission_config option" where
  "read_responses ns =
     (if entry ''allow_responses'' ns \<noteq> None
      then Some \<lparr>rp_enabled = True, rp_max_msgs = None, rp_ttl = None\<rparr>
      else map_option
        (\<lambda>b. \<lparr>rp_enabled = True, rp_max_msgs = read_num ''max'' b, rp_ttl = read_quoted ''ttl'' b\<rparr>)
        (block ''allow_responses {'' ns))"

definition read_permissions :: "node list \<Rightarrow> permissions_config" where
  "read_permissions ns =
     \<lparr>pc_publish = map_option read_rule (block ''publish {'' ns),
      pc_subscribe = map_option read_rule (block ''subscribe {'' ns),
      pc_allow_responses = read_responses ns\<rparr>"

definition kids :: "node \<Rightarrow> node list" where
  "kids t = (case t of Leaf s \<Rightarrow> [] | Block h ns \<Rightarrow> ns)"

definition heading :: "node \<Rightarrow> string" where
  "heading t = (case t of Leaf s \<Rightarrow> s | Block h ns \<Rightarrow> h)"

definition read_user :: "node \<Rightarrow> user_config" where
  "read_user t =
     \<lparr>uc_nkey = read_text ''nkey'' (kids t),
      uc_permissions = map_option read_permissions (block ''permissions {'' (kids t))\<rparr>"

definition read_users :: "node list \<Rightarrow> user_config list" where
  "read_users ns = (case block ''users = ['' ns of None \<Rightarrow> [] | Some ts \<Rightarrow> map read_user ts)"

definition read_jetstream :: "node list \<Rightarrow> jetstream_config" where
  "read_jetstream ns =
     \<lparr>jc_max_memory = read_text ''max_mem'' ns, jc_max_file = read_text ''max_file'' ns,
      jc_max_streams = read_num ''max_streams'' ns, jc_max_consumers = read_num ''max_consumers'' ns,
      jc_max_bytes_required = read_flag ''max_bytes_required'' ns,
      jc_memory_max_stream_bytes = read_text ''memory_max_stream_bytes'' ns,
      jc_disk_max_stream_bytes = read_text ''disk_max_stream_bytes'' ns,
      jc_max_ack_pending = read_num ''max_ack_pending'' ns\<rparr>"

definition read_limits :: "node list \<Rightarrow> limits_config" where
  "read_limits ns =
     \<lparr>lc_max_connections = read_num ''max_connections'' ns,
      lc_max_subscriptions = read_num ''max_subscriptions'' ns,
      lc_max_payload = read_text ''max_payload'' ns, lc_max_leafnodes = read_num ''max_leafnodes'' ns\<rparr>"

definition read_account :: "node \<Rightarrow> string \<times> account_config" where
  "read_account t =
     (butlast (butlast (heading t)),
      \<lparr>acc_jetstream = map_option read_jetstream (block ''jetstream {'' (kids t)),
       acc_limits = map_option read_limits (block ''limits {'' (kids t)),
       acc_users = read_users (kids t)\<rparr>)"

text \<open>
  The server's view: a default system account, users outside any account (with such users
  present the server lets nobody in without credentials), and the accounts.
\<close>

record server_view =
  sv_system_account :: "string option"
  sv_authorization :: "user_config list"
  sv_accounts :: "account_config gomap"

definition read_config :: "node list \<Rightarrow> server_view" where
  "read_config ns =
     \<lparr>sv_system_account = read_quoted ''system_account'' ns,
      sv_authorization = (case block ''authorization {'' ns of None \<Rightarrow> [] | Some b \<Rightarrow> read_users b),
      sv_accounts = (case block ''accounts {'' ns of None \<Rightarrow> [] | Some ts \<Rightarrow> map read_account ts)\<rparr>"

definition server_reads :: "string \<Rightarrow> server_view option" where
  "server_reads t = map_option read_config (read_doc t)"

subsection \<open>Entries\<close>

lemma prefix_key:
  "CHR '':'' \<notin> set k \<Longrightarrow> CHR '':'' \<notin> set k' \<Longrightarrow> prefix (k @ '': '') (k' @ '': '' @ v) \<longleftrightarrow> k = k'"
proof (induction k arbitrary: k')
  case Nil
  then show ?case by (cases k') auto
next
  case (Cons c k)
  then show ?case by (cases k') auto
qed

lemma entry_append:
  "entry key (ts @ us) = (case entry key ts of None \<Rightarrow> entry key us | Some v \<Rightarrow> Some v)"
  by (induction ts) (auto split: node.split)

lemma block_append:
  "block h (ts @ us) = (case block h ts of None \<Rightarrow> block h us | Some v \<Rightarrow> Some v)"
  by (induction ts) (auto split: node.split)

lemma entry_Leaf:
  assumes "CHR '':'' \<notin> set key" "CHR '':'' \<notin> set key'"
  shows "entry key (Leaf (key' @ '': '' @ v) # ts) = (if key = key' then Some v else entry key ts)"
  using prefix_key [OF assms, of v] by simp

lemma entry_opt:
  assumes "CHR '':'' \<notin> set key" "CHR '':'' \<notin> set key'"
  shows "entry key (opt_entry key' sh v) = (if key = key' then map_option sh v else None)"
  by (simp only: opt_entry_def entry_Leaf [OF assms] entry.simps(1) split: option.split) simp

lemma entry_text:
  assumes "CHR '':'' \<notin> set key" "CHR '':'' \<notin> set key'"
  shows "entry key (text_entry key' v) = (if key = key' \<and> v \<noteq> [] then Some v else None)"
  by (simp only: text_entry_def entry_Leaf [OF assms] entry.simps(1) split: if_split) simp

lemma entry_list:
  assumes "CHR '':'' \<notin> set key" "CHR '':'' \<notin> set key'"
  shows "entry key (list_entry ip key' ss) =
    (if key = key' \<and> ss \<noteq> [] then Some (''['' @ quoteStrings ip ss @ '']'') else None)"
proof -
  have "entry key [Leaf (key' @ '': ['' @ x)] = (if key = key' then Some (''['' @ x) else None)" for x
    using entry_Leaf [OF assms, of "''['' @ x" "[]"] by simp
  then show ?thesis
    by (simp only: list_entry_def entry.simps(1) split: if_split) simp
qed

lemma read_nat_digit: "c \<in> set (show_nat n) \<Longrightarrow> c \<noteq> CHR ''-''"
  by (auto dest!: show_nat_digits simp: is_digit_def)

lemma read_show_int: "read_int (show_int i) = i"
proof (cases "i < 0")
  case False
  have "hd (show_nat (nat i)) \<noteq> CHR ''-''"
    by (rule read_nat_digit [of _ "nat i"]) simp
  with False show ?thesis by (simp add: read_int_def show_int_def read_show_nat)
qed (simp add: read_int_def show_int_def read_show_nat)

lemma read_show_int64 [simp]: "read_int64 (show_int64 n) = n"
  by (simp add: read_int64_def show_int64_def read_show_int)

lemma quoted_Quote [simp]: "quoted (Quote ip s @ rest) = Some (s, rest)" "quoted (Quote ip s) = Some (s, [])"
  using scan_Quote [of ip s rest] scan_Quote [of ip s "[]"]
  by (simp_all add: quoted_def Quote_def unquote_quote_body)

lemma quoted_list_quoteStrings:
  "ss \<noteq> [] \<Longrightarrow> length ss \<le> n \<Longrightarrow> quoted_list n (quoteStrings ip ss @ '']'') = ss"
proof (induction ss arbitrary: n)
  case (Cons s ss)
  then obtain m where n: "n = Suc m" by (cases n) auto
  show ?case
  proof (cases ss)
    case Nil
    then show ?thesis by (simp add: n quoteStrings_def)
  next
    case (Cons t ts)
    have "quoteStrings ip (s # ss) @ '']'' = Quote ip s @ '', '' @ quoteStrings ip ss @ '']''"
      by (simp add: quoteStrings_def Cons)
    with Cons.IH [of m] Cons.prems n Cons show ?thesis by simp
  qed
qed simp

lemma length_quoteStrings: "length ss \<le> length (quoteStrings ip ss)"
proof (induction ss)
  case (Cons s ss)
  then show ?case by (cases ss) (simp_all add: quoteStrings_def Quote_def)
qed simp

subsection \<open>Blocks\<close>

lemma block_entries [simp]:
  "block h (opt_entry key sh v) = None" "block h (text_entry key s) = None"
  "block h (list_entry ip key ss) = None"
  by (simp_all add: opt_entry_def text_entry_def list_entry_def split: option.split)

lemma read_list_entry [simp]:
  assumes "CHR '':'' \<notin> set key"
  shows "read_list key (list_entry ip key ss @ ts) = (if ss = [] then read_list key ts else ss)"
proof (cases "ss = []")
  case False
  have "length ss \<le> length (''['' @ quoteStrings ip ss @ '']'')"
    using length_quoteStrings [of ss ip] by simp
  with False show ?thesis
    by (simp add: read_list_def entry_append entry_list [OF assms assms] quoted_list_quoteStrings
        del: quoted_list.simps)
qed (simp add: list_entry_def)

lemma read_rule_nodes: "read_rule (list_entry ip ''allow'' (prc_allow x) @ list_entry ip ''deny'' (prc_deny x)) = x"
proof -
  have "read_list ''allow'' (list_entry ip ''deny'' (prc_deny x)) = []"
    by (simp add: read_list_def entry_list)
  moreover have "read_list ''allow'' (list_entry ip ''allow'' (prc_allow x) @ list_entry ip ''deny'' (prc_deny x)) =
      (if prc_allow x = [] then read_list ''allow'' (list_entry ip ''deny'' (prc_deny x)) else prc_allow x)"
    by (rule read_list_entry) simp
  moreover have "read_list ''deny'' (list_entry ip ''allow'' (prc_allow x) @ list_entry ip ''deny'' (prc_deny x) @ []) =
      (if prc_deny x = [] then read_list ''deny'' [] else prc_deny x)"
    using read_list_entry [of "''deny''" ip "prc_deny x" "[]"]
    by (simp add: read_list_def entry_append entry_list)
  ultimately show ?thesis by (simp add: read_rule_def read_list_def)
qed

lemma block_rule [simp]: "block h (rule_nodes ip name r) =
    (if h = name @ '' {'' then map_option (\<lambda>x. list_entry ip ''allow'' (prc_allow x) @ list_entry ip ''deny'' (prc_deny x)) r
     else None)"
  by (auto simp: rule_nodes_def split: option.split)

lemma entry_rule [simp]: "entry key (rule_nodes ip name r) = None"
  by (simp add: rule_nodes_def split: option.split)

text \<open>The configuration as the server sees it: a disabled allow_responses is no allow_responses.\<close>

definition effective_responses :: "response_permission_config option \<Rightarrow> response_permission_config option" where
  "effective_responses ar = (case ar of None \<Rightarrow> None | Some r \<Rightarrow> if rp_enabled r then Some r else None)"

definition effective_user :: "user_config \<Rightarrow> user_config" where
  "effective_user u =
     u\<lparr>uc_permissions := map_option
         (\<lambda>p. p\<lparr>pc_allow_responses := effective_responses (pc_allow_responses p)\<rparr>) (uc_permissions u)\<rparr>"

definition effective_account :: "account_config \<Rightarrow> account_config" where
  "effective_account a = a\<lparr>acc_users := map effective_user (acc_users a)\<rparr>"

lemma entry_responses: "entry ''allow_responses'' (responses_nodes ip ar) =
    (case ar of None \<Rightarrow> None
     | Some r \<Rightarrow> if rp_enabled r \<and> rp_max_msgs r = None \<and> rp_ttl r = None then Some ''true'' else None)"
  using entry_Leaf [of "''allow_responses''" "''allow_responses''" "''true''" "[]"]
  by (auto simp: responses_nodes_def split: option.split)

lemma block_responses: "block h (responses_nodes ip ar) =
    (case ar of None \<Rightarrow> None
     | Some r \<Rightarrow> if h = ''allow_responses {'' \<and> rp_enabled r \<and> (rp_max_msgs r \<noteq> None \<or> rp_ttl r \<noteq> None)
         then Some (opt_entry ''max'' show_int64 (rp_max_msgs r) @ opt_entry ''ttl'' (Quote ip) (rp_ttl r))
         else None)"
  by (auto simp: responses_nodes_def split: option.split)

lemma map_option_ident [simp]: "map_option (\<lambda>x. x) v = v"
  by (cases v) simp_all

lemma read_num_opt: "read_num ''max'' (opt_entry ''max'' show_int64 v @ opt_entry ''ttl'' (Quote ip) t) = v"
  by (simp add: read_num_def entry_append entry_opt option.map_comp comp_def split: option.split)

lemma read_quoted_opt: "read_quoted ''ttl'' (opt_entry ''max'' show_int64 v @ opt_entry ''ttl'' (Quote ip) t) = t"
  by (cases t) (simp_all add: read_quoted_def entry_append entry_opt)

lemma read_responses_nodes:
  "read_responses (rule_nodes ip ''publish'' p @ rule_nodes ip ''subscribe'' s @ responses_nodes ip ar) =
    effective_responses ar"
  by (cases ar)
    (auto simp: read_responses_def entry_append block_append entry_responses block_responses
      effective_responses_def read_num_opt read_quoted_opt)

lemma read_permissions_nodes:
  "map_option read_permissions (block ''permissions {'' (permissions_nodes ip p)) =
    map_option (\<lambda>p. p\<lparr>pc_allow_responses := effective_responses (pc_allow_responses p)\<rparr>) p"
  by (cases p)
    (simp_all add: permissions_nodes_def read_permissions_def read_responses_nodes block_append
      block_responses option.map_comp comp_def read_rule_nodes split: option.split)

lemma read_user_node: "read_user (user_node ip u) = effective_user u"
proof -
  have "entry ''nkey'' (Leaf (''nkey'' @ '': '' @ uc_nkey u) # ts) = Some (uc_nkey u)" for ts
    using entry_Leaf [of "''nkey''" "''nkey''" "uc_nkey u" ts] by simp
  then show ?thesis
    by (simp add: read_user_def user_node_def kids_def read_text_def read_permissions_nodes effective_user_def
        del: entry.simps(2))
qed

lemma read_users_nodes: "read_users (users_nodes ip us) = map effective_user us"
  by (simp add: read_users_def users_nodes_def read_user_node comp_def)

lemma block_users [simp]:
  "block ''jetstream {'' (users_nodes ip us) = None" "block ''limits {'' (users_nodes ip us) = None"
  by (simp_all add: users_nodes_def)

lemma block_jetstream: "block h (jetstream_nodes js) =
    (if h = ''jetstream {'' then map_option (\<lambda>j. kids (hd (jetstream_nodes (Some j)))) js else None)"
  by (simp add: jetstream_nodes_def kids_def split: option.split)

lemma block_limits: "block h (limits_nodes l) =
    (if h = ''limits {'' then map_option (\<lambda>x. kids (hd (limits_nodes (Some x)))) l else None)"
  by (simp add: limits_nodes_def kids_def split: option.split)

lemma read_nums [simp]:
  assumes "CHR '':'' \<notin> set key" "CHR '':'' \<notin> set key'"
  shows "read_num key (opt_entry key' show_int64 v @ ts) =
      (if key = key' then (case v of None \<Rightarrow> read_num key ts | Some n \<Rightarrow> Some n) else read_num key ts)"
    and "read_num key (opt_entry key' show_bool b @ ts) =
      (if key = key' then (case b of None \<Rightarrow> read_num key ts | Some x \<Rightarrow> Some (read_int64 (show_bool x)))
       else read_num key ts)"
    and "read_num key (text_entry key' s @ ts) =
      (if key = key' \<and> s \<noteq> [] then Some (read_int64 s) else read_num key ts)"
  by (auto simp: read_num_def entry_append entry_opt [OF assms] entry_text [OF assms] split: option.split)

lemma read_texts [simp]:
  assumes "CHR '':'' \<notin> set key" "CHR '':'' \<notin> set key'"
  shows "read_text key (text_entry key' s @ ts) = (if key = key' \<and> s \<noteq> [] then s else read_text key ts)"
    and "key \<noteq> key' \<Longrightarrow> read_text key (opt_entry key' sh v @ ts) = read_text key ts"
  by (auto simp: read_text_def entry_append entry_opt [OF assms] entry_text [OF assms] split: option.split)

lemma read_flags [simp]:
  assumes "CHR '':'' \<notin> set key" "CHR '':'' \<notin> set key'"
  shows "read_flag key (opt_entry key' show_bool b @ ts) =
      (if key = key' then (case b of None \<Rightarrow> read_flag key ts | Some x \<Rightarrow> Some x) else read_flag key ts)"
    and "key \<noteq> key' \<Longrightarrow> read_flag key (opt_entry key' show_int64 v @ ts) = read_flag key ts"
    and "key \<noteq> key' \<Longrightarrow> read_flag key (text_entry key' s @ ts) = read_flag key ts"
  by (auto simp: read_flag_def entry_append entry_opt [OF assms] entry_text [OF assms] show_bool_def
      split: option.split)

lemma read_nothing [simp]: "read_num key [] = None" "read_text key [] = []" "read_flag key [] = None"
  by (simp_all add: read_num_def read_text_def read_flag_def)

lemma read_last [simp]:
  assumes "CHR '':'' \<notin> set key" "CHR '':'' \<notin> set key'"
  shows "read_num key (opt_entry key' show_int64 v) = (if key = key' then v else None)"
    and "key \<noteq> key' \<Longrightarrow> read_text key (opt_entry key' sh v') = []"
    and "key \<noteq> key' \<Longrightarrow> read_flag key (opt_entry key' show_int64 v) = None"
  using read_nums(1) [OF assms, of v "[]"] read_texts(2) [OF assms, of sh v' "[]"]
    read_flags(2) [OF assms, of v "[]"]
  by (auto split: option.splits if_splits)

lemma option_case_ident [simp]: "(case v of None \<Rightarrow> None | Some x \<Rightarrow> Some x) = v"
  by (cases v) simp_all

lemma if_Nil_ident [simp]: "(if s \<noteq> [] then s else []) = s"
  by simp

lemma read_jetstream_nodes: "read_jetstream (kids (hd (jetstream_nodes (Some j)))) = j"
  by (cases j) (simp add: read_jetstream_def jetstream_nodes_def kids_def cong: option.case_cong)

lemma read_limits_nodes: "read_limits (kids (hd (limits_nodes (Some x)))) = x"
  by (cases x) (simp add: read_limits_def limits_nodes_def kids_def cong: option.case_cong)

lemma read_account_node: "read_account (account_node ip name a) = (name, effective_account a)"
proof -
  have "block h (jetstream_nodes js @ limits_nodes l @ users_nodes ip us) =
      (if h = ''jetstream {'' then map_option (\<lambda>j. kids (hd (jetstream_nodes (Some j)))) js
       else if h = ''limits {'' then map_option (\<lambda>x. kids (hd (limits_nodes (Some x)))) l
       else block h (users_nodes ip us))" for h js l us
    by (auto simp: block_append block_jetstream block_limits split: option.split)
  moreover have "read_users (jetstream_nodes js @ limits_nodes l @ users_nodes ip us) = map effective_user us" for js l us
    unfolding read_users_nodes [of ip us, symmetric]
    by (simp add: read_users_def block_append block_jetstream block_limits)
  ultimately show ?thesis
    by (cases a) (simp add: read_account_def account_node_def heading_def kids_def butlast_append option.map_comp
        comp_def read_jetstream_nodes [unfolded kids_def] read_limits_nodes [unfolded kids_def] effective_account_def)
qed

subsection \<open>Legible configurations\<close>

text \<open>
  What must hold of the names and keys for the text to be legible: they are written without
  quotes, so they must not end a line or look like the start of a block. Kubernetes object
  names and encoded keys are such; sizes always are.
\<close>

definition value_ok :: "string \<Rightarrow> bool" where
  "value_ok v = (CHR 0x0A \<notin> set v \<and> \<not> opens v)"

definition account_ok :: "account_config \<Rightarrow> bool" where
  "account_ok a =
     ((\<forall>j. acc_jetstream a = Some j \<longrightarrow>
         value_ok (jc_max_memory j) \<and> value_ok (jc_max_file j) \<and>
         value_ok (jc_memory_max_stream_bytes j) \<and> value_ok (jc_disk_max_stream_bytes j)) \<and>
      (\<forall>l. acc_limits a = Some l \<longrightarrow> value_ok (lc_max_payload l)) \<and>
      list_all (\<lambda>u. value_ok (uc_nkey u)) (acc_users a))"

definition config_ok :: "nats_config \<Rightarrow> bool" where
  "config_ok cfg =
     (map_wf (nc_accounts cfg) \<and> list_all (\<lambda>(name, a). line_ok name \<and> account_ok a) (nc_accounts cfg))"

lemma opens_append: "opens (s @ t) = (if t = [] then opens s else opens t)"
  by (simp add: opens_def)

lemma leaf_ok:
  assumes "line_ok key" "value_ok v"
  shows "node_ok (Leaf (key @ '': '' @ v))"
proof -
  have "line_ok (key @ '': '' @ v)" using assms by (auto simp: line_ok_def value_ok_def)
  moreover have "\<not> opens (key @ '': '' @ v)"
    using assms(2) by (auto simp: opens_def value_ok_def)
  moreover have "\<not> closes (key @ '': '' @ v)"
    using assms(1) by (cases key) (auto simp: closes_def line_ok_def)
  ultimately show ?thesis by (simp only: node_ok.simps simp_thms)
qed

lemma nodes_ok_text: "line_ok key \<Longrightarrow> value_ok v \<Longrightarrow> list_all node_ok (text_entry key v)"
  using leaf_ok [of key v] by (simp add: text_entry_def del: node_ok.simps)

lemma nodes_ok_opt: "line_ok key \<Longrightarrow> (\<And>x. value_ok (sh x)) \<Longrightarrow> list_all node_ok (opt_entry key sh v)"
  using leaf_ok [of key "sh x" for x] by (simp add: opt_entry_def del: node_ok.simps split: option.split)

lemma value_ok_digits:
  assumes "\<forall>c\<in>set v. is_digit c \<or> c = CHR ''-''"
  shows "value_ok v"
proof -
  have "c \<noteq> CHR 0x0A \<and> c \<noteq> CHR ''{'' \<and> c \<noteq> CHR ''[''" if "c \<in> set v" for c
    using assms that by (auto simp: is_digit_def)
  then show ?thesis by (auto simp: value_ok_def opens_def)
qed

lemma value_ok_show_int64 [simp]: "value_ok (show_int64 n)"
  by (rule value_ok_digits) (auto simp: show_int64_def show_int_def dest: show_nat_digits)

lemma value_ok_show_bool [simp]: "value_ok (show_bool b)"
  by (simp add: value_ok_def show_bool_def opens_def)

lemma value_ok_Quote [simp]: "value_ok (Quote ip s)"
  using Quote_no_newline [of ip s] by (simp add: value_ok_def opens_def Quote_def)

lemma quoteStrings_no_newline: "CHR 0x0A \<notin> set (quoteStrings ip ss)"
  using set_Join [of "map (Quote ip) ss" "'', ''"] Quote_no_newline by (auto simp: quoteStrings_def)

lemma nodes_ok_list: "line_ok key \<Longrightarrow> list_all node_ok (list_entry ip key ss)"
  using leaf_ok [of key "''['' @ quoteStrings ip ss @ '']''"] quoteStrings_no_newline [of ip ss]
  by (simp add: list_entry_def value_ok_def opens_def del: node_ok.simps)

lemma list_all_appendI: "list_all P xs \<Longrightarrow> list_all P ys \<Longrightarrow> list_all P (xs @ ys)"
  by simp

lemma keys_line_ok:
  "line_ok ''max_mem''" "line_ok ''max_file''" "line_ok ''max_streams''" "line_ok ''max_consumers''"
  "line_ok ''max_bytes_required''" "line_ok ''memory_max_stream_bytes''"
  "line_ok ''disk_max_stream_bytes''" "line_ok ''max_ack_pending''" "line_ok ''max_connections''"
  "line_ok ''max_subscriptions''" "line_ok ''max_payload''" "line_ok ''max_leafnodes''"
  "line_ok ''allow''" "line_ok ''deny''" "line_ok ''max''" "line_ok ''ttl''" "line_ok ''nkey''"
  "line_ok ''system_account''"
  by (simp_all add: line_ok_def)

lemma block_ok: "line_ok h \<Longrightarrow> opens h \<Longrightarrow> list_all node_ok ns \<Longrightarrow> list_all node_ok [Block h ns]"
  by simp

lemma heads_ok:
  "line_ok ''permissions {''" "line_ok ''allow_responses {''" "line_ok ''jetstream {''"
  "line_ok ''limits {''" "line_ok ''users = [''" "line_ok ''{''" "line_ok ''accounts {''"
  "line_ok ''authorization {''" "opens ''permissions {''" "opens ''allow_responses {''"
  "opens ''jetstream {''" "opens ''limits {''" "opens ''users = [''" "opens ''{''"
  "opens ''accounts {''" "opens ''authorization {''"
  by (simp_all add: line_ok_def opens_def)

lemma named_head_ok: "line_ok name \<Longrightarrow> line_ok (name @ '' {'') \<and> opens (name @ '' {'')"
  by (simp add: line_ok_def opens_def)

lemmas nodes_ok = list_all_appendI nodes_ok_text nodes_ok_opt nodes_ok_list block_ok keys_line_ok heads_ok
  value_ok_Quote value_ok_show_int64 value_ok_show_bool

lemma jetstream_ok:
  assumes "account_ok a"
  shows "list_all node_ok (jetstream_nodes (acc_jetstream a))"
proof (cases "acc_jetstream a")
  case (Some j)
  then have "value_ok (jc_max_memory j)" "value_ok (jc_max_file j)"
    "value_ok (jc_memory_max_stream_bytes j)" "value_ok (jc_disk_max_stream_bytes j)"
    using assms by (auto simp: account_ok_def)
  then show ?thesis unfolding Some jetstream_nodes_def option.case by (intro nodes_ok)
qed (simp add: jetstream_nodes_def)

lemma limits_ok:
  assumes "account_ok a"
  shows "list_all node_ok (limits_nodes (acc_limits a))"
proof (cases "acc_limits a")
  case (Some l)
  then have "value_ok (lc_max_payload l)" using assms by (auto simp: account_ok_def)
  then show ?thesis unfolding Some limits_nodes_def option.case by (intro nodes_ok)
qed (simp add: limits_nodes_def)

lemma rule_ok: "line_ok name \<Longrightarrow> list_all node_ok (rule_nodes ip name r)"
  using named_head_ok [of name] unfolding rule_nodes_def
  by (cases r) (simp_all add: nodes_ok_list keys_line_ok)

lemma responses_ok: "list_all node_ok (responses_nodes ip ar)"
proof -
  have "list_all node_ok [Leaf ''allow_responses: true'']"
    by (simp add: line_ok_def opens_def closes_def)
  moreover have "list_all node_ok [Block ''allow_responses {''
      (opt_entry ''max'' show_int64 m @ opt_entry ''ttl'' (Quote ip) t)]" for m t
    by (intro nodes_ok)
  ultimately show ?thesis
    by (simp add: responses_nodes_def del: node_ok.simps split: option.split)
qed

lemma permissions_ok: "list_all node_ok (permissions_nodes ip p)"
proof -
  have "line_ok ''publish''" "line_ok ''subscribe''" by (simp_all add: line_ok_def)
  then have "list_all node_ok [Block ''permissions {'' (rule_nodes ip ''publish'' a
      @ rule_nodes ip ''subscribe'' b @ responses_nodes ip c)]" for a b c
    by (intro nodes_ok rule_ok responses_ok)
  then show ?thesis
    by (simp add: permissions_nodes_def del: node_ok.simps split: option.split)
qed

lemma user_ok:
  assumes "value_ok (uc_nkey u)"
  shows "node_ok (user_node ip u)"
proof -
  have "node_ok (Leaf (''nkey: '' @ uc_nkey u))"
    using leaf_ok [of "''nkey''" "uc_nkey u"] assms keys_line_ok by simp
  then show ?thesis
    using permissions_ok [of ip "uc_permissions u"] heads_ok by (simp add: user_node_def del: node_ok.simps(1))
qed

lemma users_ok: "list_all (\<lambda>u. value_ok (uc_nkey u)) us \<Longrightarrow> list_all node_ok (users_nodes ip us)"
  using user_ok [of _ ip] heads_ok by (auto simp: users_nodes_def list_all_iff)

lemma account_node_ok:
  assumes "line_ok name" "account_ok a"
  shows "node_ok (account_node ip name a)"
proof -
  have "list_all node_ok (jetstream_nodes (acc_jetstream a) @ limits_nodes (acc_limits a) @ users_nodes ip (acc_users a))"
    using assms(2) by (intro list_all_appendI jetstream_ok limits_ok users_ok) (simp_all add: account_ok_def)
  then show ?thesis
    using named_head_ok [OF assms(1)] by (simp add: account_node_def)
qed

lemma sentinel_users_ok: "list_all node_ok (users_nodes ip [sentinelUser])"
  by (rule users_ok) (simp add: sentinelUser_def sentinelNKey_def value_ok_def opens_def)

lemma sentinel_ok: "list_all node_ok (sentinel_nodes ip n)"
proof -
  have "line_ok ''# WARNING: no NatsUser resources defined. Emitting deny-all sentinel''"
    "line_ok ''# user (implicitly in $G) to force NATS to require authentication.''"
    "line_ok ''# Provision NatsUser resources to enable real client access.''"
    by (simp_all add: line_ok_def)
  then show ?thesis
    using sentinel_users_ok [of ip] heads_ok
    by (simp add: sentinel_nodes_def del: set_simps) (simp add: opens_def closes_def)
qed

lemma config_nodes_ok:
  assumes "config_ok cfg"
  shows "list_all node_ok (config_nodes ip cfg)"
proof -
  have "node_ok (account_node ip name (map_get empty_account (nc_accounts cfg) name))"
    if "name \<in> set (map_keys (nc_accounts cfg))" for name
  proof -
    from that obtain a where a: "(name, a) \<in> set (nc_accounts cfg)" by auto
    then have "map_get empty_account (nc_accounts cfg) name = a"
      using assms by (simp add: config_ok_def map_get_in)
    moreover have "line_ok name" "account_ok a"
      using a assms by (auto simp: config_ok_def list_all_iff)
    ultimately show ?thesis by (simp add: account_node_ok)
  qed
  then have "list_all node_ok [Block ''accounts {'' (map (\<lambda>name. account_node ip name
      (map_get empty_account (nc_accounts cfg) name)) (sort (map_keys (nc_accounts cfg))))]"
    by (intro block_ok heads_ok) (auto simp: list_all_iff)
  moreover have "list_all node_ok [Leaf ''# Auto-generated by nats-operator - DO NOT EDIT'']"
    by (simp add: line_ok_def opens_def closes_def)
  moreover have "list_all node_ok (text_entry ''system_account'' (if s = [] then [] else Quote ip s))" for s
    by (cases "s = []") (simp add: text_entry_def, simp only: if_False, intro nodes_ok)
  ultimately show ?thesis
    unfolding config_nodes_def using sentinel_ok by (intro list_all_appendI)
qed

lemma read_config_nodes:
  "read_config (config_nodes ip cfg) =
    \<lparr>sv_system_account = (if nc_system_account cfg = [] then None else Some (nc_system_account cfg)),
     sv_authorization = (if totalUsers (nc_accounts cfg) = 0 then [sentinelUser] else []),
     sv_accounts = map (\<lambda>name. (name, effective_account (map_get empty_account (nc_accounts cfg) name)))
       (sort (map_keys (nc_accounts cfg)))\<rparr>"
proof -
  have none: "entry ''system_account'' (Leaf ''# Auto-generated by nats-operator - DO NOT EDIT'' # ts) =
      entry ''system_account'' ts" for ts
    by simp
  have sent: "entry ''system_account'' (sentinel_nodes ip n @ [Block h ns]) = None" for n h ns
    by (simp add: sentinel_nodes_def)
  have "read_quoted ''system_account'' (config_nodes ip cfg) =
      (if nc_system_account cfg = [] then None else Some (nc_system_account cfg))"
    unfolding config_nodes_def read_quoted_def append_Cons append_Nil none entry_append [of _ "text_entry k v" for k v]
      sent
    by (simp add: entry_text Quote_def [of ip, symmetric] del: entry.simps(2))
      (simp add: Quote_def quoted_Quote(2) [unfolded Quote_def])
  moreover have "block ''authorization {'' (config_nodes ip cfg) =
      (if totalUsers (nc_accounts cfg) = 0 then Some (users_nodes ip [sentinelUser]) else None)"
    by (simp add: config_nodes_def block_append sentinel_nodes_def)
  moreover have "block ''accounts {'' (config_nodes ip cfg) =
      Some (map (\<lambda>name. account_node ip name (map_get empty_account (nc_accounts cfg) name))
        (sort (map_keys (nc_accounts cfg))))"
    by (simp add: config_nodes_def block_append sentinel_nodes_def)
  moreover have "effective_user sentinelUser = sentinelUser"
    by (simp add: effective_user_def sentinelUser_def effective_responses_def)
  ultimately show ?thesis
    by (simp add: read_config_def read_users_nodes read_account_node comp_def)
qed



end
