(* ===== verification/GoSha256.thy ===== *)
theory GoSha256
  imports GoQuote "HOL-Library.Word"
begin

unbundle bit_operations_syntax

text \<open>
  \<open>fmt.Sprintf("%x", sha256.Sum256(b))\<close>: Go's \<open>crypto/sha256\<close> as FIPS 180-4
  defines it, and the lower-case hexadecimal form of the digest that the operator writes in
  the header line of the configuration and in the status of the cluster.
\<close>

type_synonym u32 = "32 word"

text \<open>
  The constants, as the standard defines them: the first 32 bits of the fractional parts of the
  cube roots of the first 64 primes, and of the square roots of the first eight.
\<close>

definition first_primes :: "int list" where
  "first_primes = filter (\<lambda>p. list_all (\<lambda>d. p mod d \<noteq> 0) [2..p - 1]) [2..311]"

definition integer_root :: "nat \<Rightarrow> int \<Rightarrow> int" where
  "integer_root k n = foldl (\<lambda>r b. if (r + 2 ^ b) ^ k \<le> n then r + 2 ^ b else r) 0 (rev [0..<40])"

definition root_fraction :: "nat \<Rightarrow> int \<Rightarrow> u32" where
  "root_fraction k p = word_of_int (integer_root k (p * 2 ^ (32 * k)))"

definition sha_K :: "u32 list" where
  "sha_K = map (root_fraction 3) first_primes"

definition sha_init :: "u32 list" where
  "sha_init = map (root_fraction 2) [2, 3, 5, 7, 11, 13, 17, 19]"

definition ssig0 :: "u32 \<Rightarrow> u32" where
  "ssig0 x = word_rotr 7 x XOR word_rotr 18 x XOR drop_bit 3 x"

definition ssig1 :: "u32 \<Rightarrow> u32" where
  "ssig1 x = word_rotr 17 x XOR word_rotr 19 x XOR drop_bit 10 x"

definition bsig0 :: "u32 \<Rightarrow> u32" where
  "bsig0 x = word_rotr 2 x XOR word_rotr 13 x XOR word_rotr 22 x"

definition bsig1 :: "u32 \<Rightarrow> u32" where
  "bsig1 x = word_rotr 6 x XOR word_rotr 11 x XOR word_rotr 25 x"

definition Ch :: "u32 \<Rightarrow> u32 \<Rightarrow> u32 \<Rightarrow> u32" where
  "Ch x y z = (x AND y) XOR (NOT x AND z)"

definition Maj :: "u32 \<Rightarrow> u32 \<Rightarrow> u32 \<Rightarrow> u32" where
  "Maj x y z = (x AND y) XOR (x AND z) XOR (y AND z)"

text \<open>The message schedule: sixteen words of the block extended to sixty-four.\<close>

definition sha_schedule :: "u32 list \<Rightarrow> u32 list" where
  "sha_schedule blk =
     foldl (\<lambda>w t. w @ [ssig1 (w ! (t - 2)) + w ! (t - 7) + ssig0 (w ! (t - 15)) + w ! (t - 16)])
       blk [16..<64]"

fun sha_round :: "u32 list \<Rightarrow> u32 \<times> u32 \<Rightarrow> u32 list" where
  "sha_round [a, b, c, d, e, f, g, h] (k, w) =
     (let t1 = h + bsig1 e + Ch e f g + k + w;
          t2 = bsig0 a + Maj a b c
      in [t1 + t2, a, b, c, d + t1, e, f, g])"
| "sha_round st _ = st"

definition sha_block :: "u32 list \<Rightarrow> u32 list \<Rightarrow> u32 list" where
  "sha_block H blk = map2 (+) H (foldl sha_round H (zip sha_K (sha_schedule blk)))"

text \<open>Padding, and the cut into blocks of sixteen big-endian words.\<close>

definition be_bytes :: "nat \<Rightarrow> nat \<Rightarrow> string" where
  "be_bytes k n = map (\<lambda>i. char_of (n div 256 ^ (k - 1 - i))) [0..<k]"

definition sha_pad :: "string \<Rightarrow> string" where
  "sha_pad m = m @ [CHR 0x80] @ replicate ((119 - length m mod 64) mod 64) CHR 0x00
     @ be_bytes 8 (8 * length m)"

fun be_words :: "string \<Rightarrow> u32 list" where
  "be_words (a # b # c # d # r) =
     word_of_nat (ord a * 16777216 + ord b * 65536 + ord c * 256 + ord d) # be_words r"
| "be_words _ = []"

fun sha_blocks :: "nat \<Rightarrow> u32 list \<Rightarrow> u32 list \<Rightarrow> u32 list" where
  "sha_blocks 0 ws H = H"
| "sha_blocks (Suc n) ws H = sha_blocks n (drop 16 ws) (sha_block H (take 16 ws))"

definition sha256 :: "string \<Rightarrow> u32 list" where
  "sha256 m = (let p = sha_pad m in sha_blocks (length p div 64) (be_words p) sha_init)"

definition sha256_hex :: "string \<Rightarrow> string" where
  "sha256_hex m = concat (map (\<lambda>h. hex_digits 8 (unat h)) (sha256 m))"

section \<open>The form of a digest\<close>

lemma sha_round_length: "length st = 8 \<Longrightarrow> length (sha_round st kw) = 8"
  by (induction st kw rule: sha_round.induct) (auto simp: Let_def)

lemma foldl_sha_round_length: "length st = 8 \<Longrightarrow> length (foldl sha_round st kws) = 8"
  by (induction kws arbitrary: st) (auto simp: sha_round_length)

lemma sha_block_length: "length H = 8 \<Longrightarrow> length (sha_block H blk) = 8"
  by (simp add: sha_block_def foldl_sha_round_length)

lemma sha_blocks_length: "length H = 8 \<Longrightarrow> length (sha_blocks n ws H) = 8"
  by (induction n ws H rule: sha_blocks.induct) (auto simp: sha_block_length)

lemma sha_init_length: "length sha_init = 8"
  by (simp add: sha_init_def)

lemma sha256_length: "length (sha256 m) = 8"
  by (simp add: sha256_def Let_def sha_blocks_length sha_init_length)

lemma sha256_hex_length: "length (sha256_hex m) = 64"
proof -
  have "length (concat (map (\<lambda>h. hex_digits 8 (unat h)) hs)) = 8 * length hs" for hs :: "u32 list"
    by (induction hs) (auto simp del: hex_digits.simps)
  then show ?thesis by (simp add: sha256_hex_def sha256_length)
qed

lemma sha256_hex_visible: "c \<in> set (sha256_hex m) \<Longrightarrow> visible c"
  by (auto simp: sha256_hex_def dest!: set_hex_digits intro: visible_hexd)

lemma sha256_hex_neq_Nil [simp]: "sha256_hex m \<noteq> []"
  using sha256_hex_length [of m] by auto

end
