(* ===== verification/KubeEnv.thy ===== *)
theory KubeEnv
  imports ApiTypes
begin

text \<open>
  What surrounds the program: the Kubernetes API, commands run inside pods, random numbers,
  time, HTTP. None of it is code of the repository, so all of it is a parameter, the record
  \<open>env\<close>. Each answer may depend on everything that happened before: the state
  \<open>world\<close> holds the trace of all calls made so far, newest first, and the clock in
  nanoseconds, and every call adds its event, with its outcome, to the trace. Environments that
  fail, that change their mind, that serve stale data or that are changed by other
  parties between two calls are therefore all covered.
\<close>

section \<open>Kubernetes objects\<close>

type_synonym object_key = "string \<times> string"  \<comment> \<open>namespace and name\<close>

text \<open>
  Of each built-in object, the fields the program reads or writes. \<open>Data\<close> of a Secret
  may be nil, and writing into a nil map panics, so there it is an option. Label
  selectors are handed from the workload to the library and never looked into; they are kept as
  an uninterpreted string.
\<close>

record owner_reference =
  or_kind :: string
  or_name :: string

record secret =
  sec_name :: string
  sec_namespace :: string
  sec_data :: "string gomap option"
  sec_owners :: "owner_reference list"

record namespace_object =
  nso_name :: string
  nso_labels :: "string gomap"

record pod =
  pod_name :: string
  pod_namespace :: string
  pod_phase :: string
  pod_ip :: string
  pod_owners :: "owner_reference list"

record replica_set =
  rs_name :: string
  rs_owners :: "owner_reference list"

type_synonym label_selector = string
type_synonym selector = string

record config_map =
  cm_namespace :: string
  cm_name :: string
  cm_data :: "string gomap"

definition PodRunning :: string where
  "PodRunning = ''Running''"

datatype operation_result = OpNone | OpCreated | OpUpdated

record exec_result =
  ex_stdout :: string
  ex_stderr :: string
  ex_error :: "goerr option"

record http_response =
  hr_status :: int
  hr_body :: string

record key_pair =
  kp_public :: "goerr + string"
  kp_seed :: "goerr + string"

section \<open>Events and the world\<close>

datatype object_kind =
    KCluster | KAccount | KUser | KSecret | KNamespace | KDeployment | KStatefulSet
  | KPod | KReplicaSet | KConfigMap

datatype event =
    Got object_kind object_key
  | Listed object_kind string
  | SecretCreated secret "goerr option"
  | SecretUpdated secret "goerr option"
  | UserStatusUpdated nats_user "goerr option"
  | AccountStatusUpdated nats_account "goerr option"
  | ClusterStatusUpdated nats_cluster "goerr option"
  | ConfigMapApplied object_key "goerr + operation_result \<times> config_map"
  | Executed string string "string list" exec_result
  | Slept nat
  | KeyGenerated
  | RandomRead nat
  | HttpGot string

record world =
  w_trace :: "event list"
  w_clock :: nat

record env =
  e_latency :: "world \<Rightarrow> nat"
  e_get_cluster :: "world \<Rightarrow> object_key \<Rightarrow> goerr + nats_cluster"
  e_get_account :: "world \<Rightarrow> object_key \<Rightarrow> goerr + nats_account"
  e_get_secret :: "world \<Rightarrow> object_key \<Rightarrow> goerr + secret"
  e_get_namespace :: "world \<Rightarrow> string \<Rightarrow> goerr + namespace_object"
  e_get_deployment :: "world \<Rightarrow> object_key \<Rightarrow> goerr + label_selector"
  e_get_stateful_set :: "world \<Rightarrow> object_key \<Rightarrow> goerr + label_selector"
  e_get_pod :: "world \<Rightarrow> object_key \<Rightarrow> goerr + pod"
  e_get_replica_set :: "world \<Rightarrow> object_key \<Rightarrow> goerr + replica_set"
  e_get_config_map :: "world \<Rightarrow> object_key \<Rightarrow> goerr + config_map"
  e_list_accounts :: "world \<Rightarrow> string \<Rightarrow> goerr + nats_account list"
  e_list_users :: "world \<Rightarrow> goerr + nats_user list"
  e_list_clusters :: "world \<Rightarrow> string \<Rightarrow> goerr + nats_cluster list"
  e_list_pods :: "world \<Rightarrow> string \<Rightarrow> selector \<Rightarrow> goerr + pod list"
  e_create_secret :: "world \<Rightarrow> secret \<Rightarrow> goerr option"
  e_update_secret :: "world \<Rightarrow> secret \<Rightarrow> goerr option"
  e_update_user_status :: "world \<Rightarrow> nats_user \<Rightarrow> goerr option"
  e_update_account_status :: "world \<Rightarrow> nats_account \<Rightarrow> goerr option"
  e_update_cluster_status :: "world \<Rightarrow> nats_cluster \<Rightarrow> goerr option"
  e_create_or_update :: "world \<Rightarrow> config_map \<Rightarrow> (config_map \<Rightarrow> goerr + config_map) \<Rightarrow>
    goerr + operation_result \<times> config_map"
  e_set_owner :: "nats_user \<Rightarrow> secret \<Rightarrow> goerr + secret"
  e_set_controller :: "nats_cluster \<Rightarrow> config_map \<Rightarrow> goerr option"
  e_set_condition :: "condition list \<Rightarrow> condition \<Rightarrow> condition list"
  e_selector :: "label_selector \<Rightarrow> goerr + selector"
  e_regex :: "string \<Rightarrow> goerr + (string \<Rightarrow> bool)"
  e_clientset :: "world \<Rightarrow> goerr option"
  e_executor :: "world \<Rightarrow> object_key \<Rightarrow> goerr option"
  e_exec :: "world \<Rightarrow> string \<Rightarrow> string \<Rightarrow> string list \<Rightarrow> exec_result"
  e_cancelled :: "world \<Rightarrow> goerr option"
  e_create_user :: "world \<Rightarrow> goerr + key_pair"
  e_random :: "world \<Rightarrow> goerr + (nat \<Rightarrow> 8 word)"
  e_new_request :: "string \<Rightarrow> goerr option"
  e_http_get :: "world \<Rightarrow> string \<Rightarrow> goerr + http_response"
  e_decode_json :: "string \<Rightarrow> goerr + json"
  e_printable :: "nat \<Rightarrow> bool"

type_synonym 'a io = "(world, 'a) state"

text \<open>One call: the answer depends on the world, the event is added, the clock moves on.\<close>

definition call :: "env \<Rightarrow> (world \<Rightarrow> 'a) \<Rightarrow> ('a \<Rightarrow> event) \<Rightarrow> 'a io" where
  "call env f ev =
     State (\<lambda>w. (f w, w\<lparr>w_trace := ev (f w) # w_trace w, w_clock := w_clock w + e_latency env w\<rparr>))"

definition GetCluster :: "env \<Rightarrow> object_key \<Rightarrow> (goerr + nats_cluster) io" where
  "GetCluster env k = call env (\<lambda>w. e_get_cluster env w k) (\<lambda>_. Got KCluster k)"

definition GetAccount :: "env \<Rightarrow> object_key \<Rightarrow> (goerr + nats_account) io" where
  "GetAccount env k = call env (\<lambda>w. e_get_account env w k) (\<lambda>_. Got KAccount k)"

definition GetSecret :: "env \<Rightarrow> object_key \<Rightarrow> (goerr + secret) io" where
  "GetSecret env k = call env (\<lambda>w. e_get_secret env w k) (\<lambda>_. Got KSecret k)"

definition GetNamespaceObject :: "env \<Rightarrow> string \<Rightarrow> (goerr + namespace_object) io" where
  "GetNamespaceObject env n = call env (\<lambda>w. e_get_namespace env w n) (\<lambda>_. Got KNamespace ([], n))"

definition GetDeployment :: "env \<Rightarrow> object_key \<Rightarrow> (goerr + label_selector) io" where
  "GetDeployment env k = call env (\<lambda>w. e_get_deployment env w k) (\<lambda>_. Got KDeployment k)"

definition GetStatefulSet :: "env \<Rightarrow> object_key \<Rightarrow> (goerr + label_selector) io" where
  "GetStatefulSet env k = call env (\<lambda>w. e_get_stateful_set env w k) (\<lambda>_. Got KStatefulSet k)"

definition GetPod :: "env \<Rightarrow> object_key \<Rightarrow> (goerr + pod) io" where
  "GetPod env k = call env (\<lambda>w. e_get_pod env w k) (\<lambda>_. Got KPod k)"

definition GetReplicaSet :: "env \<Rightarrow> object_key \<Rightarrow> (goerr + replica_set) io" where
  "GetReplicaSet env k = call env (\<lambda>w. e_get_replica_set env w k) (\<lambda>_. Got KReplicaSet k)"

definition GetConfigMap :: "env \<Rightarrow> object_key \<Rightarrow> (goerr + config_map) io" where
  "GetConfigMap env k = call env (\<lambda>w. e_get_config_map env w k) (\<lambda>_. Got KConfigMap k)"

definition ListAccounts :: "env \<Rightarrow> string \<Rightarrow> (goerr + nats_account list) io" where
  "ListAccounts env ns = call env (\<lambda>w. e_list_accounts env w ns) (\<lambda>_. Listed KAccount ns)"

definition ListUsers :: "env \<Rightarrow> (goerr + nats_user list) io" where
  "ListUsers env = call env (\<lambda>w. e_list_users env w) (\<lambda>_. Listed KUser [])"

definition ListClusters :: "env \<Rightarrow> string \<Rightarrow> (goerr + nats_cluster list) io" where
  "ListClusters env ns = call env (\<lambda>w. e_list_clusters env w ns) (\<lambda>_. Listed KCluster ns)"

definition ListPods :: "env \<Rightarrow> string \<Rightarrow> selector \<Rightarrow> (goerr + pod list) io" where
  "ListPods env ns sel = call env (\<lambda>w. e_list_pods env w ns sel) (\<lambda>_. Listed KPod ns)"

definition CreateSecret :: "env \<Rightarrow> secret \<Rightarrow> goerr option io" where
  "CreateSecret env s = call env (\<lambda>w. e_create_secret env w s) (SecretCreated s)"

definition UpdateSecret :: "env \<Rightarrow> secret \<Rightarrow> goerr option io" where
  "UpdateSecret env s = call env (\<lambda>w. e_update_secret env w s) (SecretUpdated s)"

definition UpdateUserStatus :: "env \<Rightarrow> nats_user \<Rightarrow> goerr option io" where
  "UpdateUserStatus env u = call env (\<lambda>w. e_update_user_status env w u) (UserStatusUpdated u)"

definition UpdateAccountStatus :: "env \<Rightarrow> nats_account \<Rightarrow> goerr option io" where
  "UpdateAccountStatus env a = call env (\<lambda>w. e_update_account_status env w a) (AccountStatusUpdated a)"

definition UpdateClusterStatus :: "env \<Rightarrow> nats_cluster \<Rightarrow> goerr option io" where
  "UpdateClusterStatus env c = call env (\<lambda>w. e_update_cluster_status env w c) (ClusterStatusUpdated c)"

text \<open>
  \<open>controllerutil.CreateOrUpdate\<close>: given an object that names its key and a function that
  brings the object read from the cluster to its desired state, the library answers with what it did and
  with the object as it then is.
\<close>

definition CreateOrUpdate ::
  "env \<Rightarrow> config_map \<Rightarrow> (config_map \<Rightarrow> goerr + config_map) \<Rightarrow>
     (goerr + operation_result \<times> config_map) io" where
  "CreateOrUpdate env cm mutate =
     call env (\<lambda>w. e_create_or_update env w cm mutate) (ConfigMapApplied (cm_namespace cm, cm_name cm))"

definition CreateUserKey :: "env \<Rightarrow> (goerr + key_pair) io" where
  "CreateUserKey env = call env (\<lambda>w. e_create_user env w) (\<lambda>_. KeyGenerated)"

text \<open>\<open>rand.Read\<close> fills a buffer of \<open>n\<close> bytes.\<close>

definition RandRead :: "env \<Rightarrow> nat \<Rightarrow> (goerr + 8 word list) io" where
  "RandRead env n =
     call env (\<lambda>w. map_sum id (\<lambda>f. map f [0..<n]) (e_random env w)) (\<lambda>_. RandomRead n)"

definition HttpGet :: "env \<Rightarrow> string \<Rightarrow> (goerr + http_response) io" where
  "HttpGet env url = call env (\<lambda>w. e_http_get env w url) (\<lambda>_. HttpGot url)"

definition Now :: "nat io" where
  "Now = State (\<lambda>w. (w_clock w, w))"

text \<open>
  \<open>select\<close> between the context and a timer: either the context is cancelled while the
  program waits, or at least the given time passes.
\<close>

definition WaitOrCancel :: "env \<Rightarrow> nat \<Rightarrow> goerr option io" where
  "WaitOrCancel env d =
     State (\<lambda>w. case e_cancelled env w of
         Some e \<Rightarrow> (Some e, w\<lparr>w_trace := Slept d # w_trace w, w_clock := w_clock w + e_latency env w\<rparr>)
       | None \<Rightarrow> (None, w\<lparr>w_trace := Slept d # w_trace w, w_clock := w_clock w + d + e_latency env w\<rparr>))"

lemmas call_defs =
  GetCluster_def GetAccount_def GetSecret_def GetNamespaceObject_def GetDeployment_def
  GetStatefulSet_def GetPod_def GetReplicaSet_def GetConfigMap_def ListAccounts_def ListUsers_def
  ListClusters_def ListPods_def CreateSecret_def UpdateSecret_def UpdateUserStatus_def
  UpdateAccountStatus_def UpdateClusterStatus_def CreateOrUpdate_def CreateUserKey_def RandRead_def
  HttpGet_def

section \<open>What a computation may do\<close>

text \<open>
  \<open>emits P m\<close>: whatever the world, \<open>m\<close> only adds events to the trace, every one
  of them satisfies \<open>P\<close>, and the clock never runs backwards. The notion is
  compositional, so the frame of an operation follows from that of the calls it makes.
\<close>

definition emits :: "(event \<Rightarrow> bool) \<Rightarrow> 'a io \<Rightarrow> bool" where
  "emits P m = (\<forall>w. \<exists>evs. w_trace (snd (run_state m w)) = evs @ w_trace w \<and>
     list_all P evs \<and> w_clock w \<le> w_clock (snd (run_state m w)))"

lemma emits_return [intro, simp]: "emits P (State_Monad.return x)"
  by (simp add: emits_def)

lemma emits_bind [intro]:
  assumes "emits P m" "\<And>x. emits P (f x)"
  shows "emits P (State_Monad.bind m f)"
  unfolding emits_def
proof
  fix w
  obtain x w1 where m: "run_state m w = (x, w1)" by force
  obtain evs1 where 1: "w_trace w1 = evs1 @ w_trace w" "list_all P evs1" "w_clock w \<le> w_clock w1"
    using assms(1) m unfolding emits_def by (metis snd_conv)
  obtain evs2 where 2: "w_trace (snd (run_state (f x) w1)) = evs2 @ w_trace w1" "list_all P evs2"
      "w_clock w1 \<le> w_clock (snd (run_state (f x) w1))"
    using assms(2) [of x] unfolding emits_def by blast
  have "w_trace (snd (run_state (f x) w1)) = (evs2 @ evs1) @ w_trace w" using 1 2 by simp
  moreover have "list_all P (evs2 @ evs1)" using 1 2 by simp
  ultimately show "\<exists>evs. w_trace (snd (run_state (State_Monad.bind m f) w)) = evs @ w_trace w \<and>
      list_all P evs \<and> w_clock w \<le> w_clock (snd (run_state (State_Monad.bind m f) w))"
    using 1(3) 2(3) m by (intro exI [of _ "evs2 @ evs1"]) simp
qed

lemma emits_call [intro]: "(\<And>r. P (ev r)) \<Longrightarrow> emits P (call env f ev)"
  by (simp add: emits_def call_def)

lemma emits_Now [intro, simp]: "emits P Now"
  by (simp add: emits_def Now_def)

lemma emits_Wait [intro]: "P (Slept d) \<Longrightarrow> emits P (WaitOrCancel env d)"
  by (auto simp: emits_def WaitOrCancel_def split: option.split)

lemma emits_mono: "emits P m \<Longrightarrow> (\<And>e. P e \<Longrightarrow> Q e) \<Longrightarrow> emits Q m"
  unfolding emits_def by (meson list.pred_mono_strong)

lemma emits_sum [intro]:
  "(\<And>e. r = Inl e \<Longrightarrow> emits P (f e)) \<Longrightarrow> (\<And>x. r = Inr x \<Longrightarrow> emits P (g x)) \<Longrightarrow>
   emits P (case r of Inl e \<Rightarrow> f e | Inr x \<Rightarrow> g x)"
  by (cases r) simp_all

lemma emits_option [intro]:
  "(r = None \<Longrightarrow> emits P f) \<Longrightarrow> (\<And>x. r = Some x \<Longrightarrow> emits P (g x)) \<Longrightarrow>
   emits P (case r of None \<Rightarrow> f | Some x \<Rightarrow> g x)"
  by (cases r) simp_all

lemma emits_prod [intro]: "(\<And>a b. p = (a, b) \<Longrightarrow> emits P (f a b)) \<Longrightarrow> emits P (case p of (a, b) \<Rightarrow> f a b)"
  by (cases p) simp_all

lemma emits_if [intro]: "(c \<Longrightarrow> emits P m) \<Longrightarrow> (\<not> c \<Longrightarrow> emits P n) \<Longrightarrow> emits P (if c then m else n)"
  by simp

lemma emits_trace:
  assumes "emits P m" "run_state m w = (r, w')"
  obtains evs where "w_trace w' = evs @ w_trace w" "list_all P evs" "w_clock w \<le> w_clock w'"
  using assms unfolding emits_def by (metis snd_conv)

lemma wp_call [simp]:
  "wp (call env f ev) Q w =
     Q (f w) (w\<lparr>w_trace := ev (f w) # w_trace w, w_clock := w_clock w + e_latency env w\<rparr>)"
  by (simp add: call_def)

lemma wp_Now [simp]: "wp Now Q w = Q (w_clock w) w"
  by (simp add: Now_def)

lemma wp_emits: "emits P m \<Longrightarrow>
    wp m (\<lambda>r w'. \<exists>evs. w_trace w' = evs @ w_trace w \<and> list_all P evs \<and> w_clock w \<le> w_clock w') w"
  by (auto simp: wp_def emits_def split: prod.splits)
    (metis snd_conv)

text \<open>Calls that only read: the world outside is left as it was.\<close>

fun reads :: "event \<Rightarrow> bool" where
  "reads (Got _ _) = True"
| "reads (Listed _ _) = True"
| "reads _ = False"

section \<open>An empty environment\<close>

text \<open>
  A cluster without a single object, in which every write succeeds at once and pods answer
  nothing: the examples fill in what they need.
\<close>

definition not_found :: goerr where
  "not_found = GoErr NotFound ''not found''"

definition null_env :: env where
  "null_env =
     \<lparr>e_latency = (\<lambda>_. 1),
      e_get_cluster = (\<lambda>_ _. Inl not_found), e_get_account = (\<lambda>_ _. Inl not_found),
      e_get_secret = (\<lambda>_ _. Inl not_found), e_get_namespace = (\<lambda>_ _. Inl not_found),
      e_get_deployment = (\<lambda>_ _. Inl not_found), e_get_stateful_set = (\<lambda>_ _. Inl not_found),
      e_get_pod = (\<lambda>_ _. Inl not_found), e_get_replica_set = (\<lambda>_ _. Inl not_found),
      e_get_config_map = (\<lambda>_ _. Inl not_found),
      e_list_accounts = (\<lambda>_ _. Inr []), e_list_users = (\<lambda>_. Inr []),
      e_list_clusters = (\<lambda>_ _. Inr []), e_list_pods = (\<lambda>_ _ _. Inr []),
      e_create_secret = (\<lambda>_ _. None), e_update_secret = (\<lambda>_ _. None),
      e_update_user_status = (\<lambda>_ _. None), e_update_account_status = (\<lambda>_ _. None),
      e_update_cluster_status = (\<lambda>_ _. None), e_create_or_update = (\<lambda>_ cm f. map_sum id (Pair OpCreated) (f cm)),
      e_set_owner = (\<lambda>_ s. Inr s), e_set_controller = (\<lambda>_ _. None),
      e_set_condition = (\<lambda>cs c. c # filter (\<lambda>d. cond_type d \<noteq> cond_type c) cs),
      e_selector = (\<lambda>s. Inr s), e_regex = (\<lambda>_. Inr (\<lambda>_. True)),
      e_clientset = (\<lambda>_. None), e_executor = (\<lambda>_ _. None),
      e_exec = (\<lambda>_ _ _ _. \<lparr>ex_stdout = [], ex_stderr = [], ex_error = None\<rparr>),
      e_cancelled = (\<lambda>_. None),
      e_create_user = (\<lambda>_. Inr \<lparr>kp_public = Inr ''UKEY'', kp_seed = Inr ''SUKEY''\<rparr>),
      e_random = (\<lambda>_. Inr (\<lambda>_. 0)),
      e_new_request = (\<lambda>_. None),
      e_http_get = (\<lambda>_ _. Inl (GoErr Other ''connection refused'')),
      e_decode_json = (\<lambda>_. Inr JNull),
      e_printable = (\<lambda>_. True)\<rparr>"

lemma null_env_simps [simp]:
  "e_latency null_env = (\<lambda>_. 1)"
  "e_get_cluster null_env = (\<lambda>_ _. Inl not_found)"
  "e_get_account null_env = (\<lambda>_ _. Inl not_found)"
  "e_get_secret null_env = (\<lambda>_ _. Inl not_found)"
  "e_get_namespace null_env = (\<lambda>_ _. Inl not_found)"
  "e_get_deployment null_env = (\<lambda>_ _. Inl not_found)"
  "e_get_stateful_set null_env = (\<lambda>_ _. Inl not_found)"
  "e_get_pod null_env = (\<lambda>_ _. Inl not_found)"
  "e_get_replica_set null_env = (\<lambda>_ _. Inl not_found)"
  "e_get_config_map null_env = (\<lambda>_ _. Inl not_found)"
  "e_list_accounts null_env = (\<lambda>_ _. Inr [])"
  "e_list_users null_env = (\<lambda>_. Inr [])"
  "e_list_clusters null_env = (\<lambda>_ _. Inr [])"
  "e_list_pods null_env = (\<lambda>_ _ _. Inr [])"
  "e_create_secret null_env = (\<lambda>_ _. None)"
  "e_update_secret null_env = (\<lambda>_ _. None)"
  "e_update_user_status null_env = (\<lambda>_ _. None)"
  "e_update_account_status null_env = (\<lambda>_ _. None)"
  "e_update_cluster_status null_env = (\<lambda>_ _. None)"
  "e_create_or_update null_env = (\<lambda>_ cm f. map_sum id (Pair OpCreated) (f cm))"
  "e_set_owner null_env = (\<lambda>_ s. Inr s)"
  "e_set_controller null_env = (\<lambda>_ _. None)"
  "e_set_condition null_env = (\<lambda>cs c. c # filter (\<lambda>d. cond_type d \<noteq> cond_type c) cs)"
  "e_selector null_env = (\<lambda>s. Inr s)"
  "e_regex null_env = (\<lambda>_. Inr (\<lambda>_. True))"
  "e_clientset null_env = (\<lambda>_. None)"
  "e_executor null_env = (\<lambda>_ _. None)"
  "e_exec null_env = (\<lambda>_ _ _ _. \<lparr>ex_stdout = [], ex_stderr = [], ex_error = None\<rparr>)"
  "e_cancelled null_env = (\<lambda>_. None)"
  "e_create_user null_env = (\<lambda>_. Inr \<lparr>kp_public = Inr ''UKEY'', kp_seed = Inr ''SUKEY''\<rparr>)"
  "e_random null_env = (\<lambda>_. Inr (\<lambda>_. 0))"
  "e_new_request null_env = (\<lambda>_. None)"
  "e_http_get null_env = (\<lambda>_ _. Inl (GoErr Other ''connection refused''))"
  "e_decode_json null_env = (\<lambda>_. Inr JNull)"
  "e_printable null_env = (\<lambda>_. True)"
  by (simp_all add: null_env_def)

definition start_world :: world where
  "start_world = \<lparr>w_trace = [], w_clock = 0\<rparr>"

end
