(* ===== verification/UserRules.thy ===== *)
theory UserRules
  imports KubeEnv GoQuote
begin

text \<open>
  \<open>internal/controller/user_rule_evaluator.go\<close>: which namespaces may use an account. The
  rules are tried in order, the first one that matches decides, and none matching means no.
  \<open>NamespaceFetcher\<close> is an interface of the source: a function argument here, a locale
  for its contract, interpreted on the adapter over the Kubernetes client.
\<close>

section \<open>The evaluator\<close>

type_synonym namespace_fetcher = "string \<Rightarrow> (goerr + namespace_object) io"

definition GetNamespace :: "env \<Rightarrow> namespace_fetcher" where
  "GetNamespace env name =
     do {
       r \<leftarrow> GetNamespaceObject env name;
       State_Monad.return (case r of Inl err \<Rightarrow> Inl err | Inr ns \<Rightarrow> Inr ns)
     }"

definition regex_error :: "env \<Rightarrow> string \<Rightarrow> goerr \<Rightarrow> goerr" where
  "regex_error env re err = wrap (''invalid namespaceRegex '' @ Quote (e_printable env) re) err"

fun ValidateRegexRules :: "env \<Rightarrow> user_rule list \<Rightarrow> goerr option" where
  "ValidateRegexRules env [] = None"
| "ValidateRegexRules env (rule # rules) =
     (case ur_namespace_regex rule of
        None \<Rightarrow> ValidateRegexRules env rules
      | Some re \<Rightarrow>
          (case e_regex env re of
             Inl err \<Rightarrow> Some (regex_error env re err)
           | Inr _ \<Rightarrow> ValidateRegexRules env rules))"

text \<open>The loop over the labels of a rule: a label the namespace lacks reads as the empty string.\<close>

fun labelsMatch :: "string gomap \<Rightarrow> string gomap \<Rightarrow> bool" where
  "labelsMatch labels [] = True"
| "labelsMatch labels ((k, v) # kvs) = (if map_get [] labels k \<noteq> v then False else labelsMatch labels kvs)"

definition ruleMatchesUser ::
  "env \<Rightarrow> namespace_fetcher \<Rightarrow> user_rule \<Rightarrow> string \<Rightarrow> string \<Rightarrow> (goerr + bool) io" where
  "ruleMatchesUser env fetch rule userNamespace accountNamespace =
     (if ur_same_namespace rule = Some True then
        State_Monad.return (Inr (userNamespace = accountNamespace))
      else (case ur_namespace_regex rule of
        Some re \<Rightarrow>
          State_Monad.return
            (case e_regex env re of
               Inl err \<Rightarrow> Inl (regex_error env re err)
             | Inr matches \<Rightarrow> Inr (matches userNamespace))
      | None \<Rightarrow>
          (case ur_namespace_labels rule of
             Some labels \<Rightarrow>
               do {
                 r \<leftarrow> fetch userNamespace;
                 State_Monad.return
                   (case r of
                      Inl err \<Rightarrow> Inl (wrap (''fetching namespace '' @ Quote (e_printable env) userNamespace) err)
                    | Inr ns \<Rightarrow> Inr (labelsMatch (nso_labels ns) labels))
               }
           | None \<Rightarrow> State_Monad.return (Inr False))))"

fun Evaluate ::
  "env \<Rightarrow> namespace_fetcher \<Rightarrow> user_rule list \<Rightarrow> string \<Rightarrow> string \<Rightarrow> (goerr + bool) io" where
  "Evaluate env fetch [] userNamespace accountNamespace = State_Monad.return (Inr False)"
| "Evaluate env fetch (rule # rules) userNamespace accountNamespace =
     do {
       r \<leftarrow> ruleMatchesUser env fetch rule userNamespace accountNamespace;
       (case r of
          Inl err \<Rightarrow> State_Monad.return (Inl err)
        | Inr matched \<Rightarrow>
            if matched then State_Monad.return (Inr (ur_action rule = UserRuleActionGrant))
            else Evaluate env fetch rules userNamespace accountNamespace)
     }"

section \<open>The decision as a function\<close>

text \<open>
  With the answers of the fetcher given by a function \<open>view\<close>, a rule has a verdict for
  a namespace, and the decision is that of the first rule whose verdict is not no.
\<close>

definition verdict ::
  "env \<Rightarrow> (string \<Rightarrow> goerr + namespace_object) \<Rightarrow> string \<Rightarrow> string \<Rightarrow> user_rule \<Rightarrow> goerr + bool" where
  "verdict env view un an rule =
     (if ur_same_namespace rule = Some True then Inr (un = an)
      else (case ur_namespace_regex rule of
        Some re \<Rightarrow> map_sum (regex_error env re) (\<lambda>matches. matches un) (e_regex env re)
      | None \<Rightarrow>
          (case ur_namespace_labels rule of
             Some labels \<Rightarrow>
               map_sum (wrap (''fetching namespace '' @ Quote (e_printable env) un))
                 (\<lambda>ns. \<forall>(k, v)\<in>set labels. map_get [] (nso_labels ns) k = v) (view un)
           | None \<Rightarrow> Inr False)))"

definition decision ::
  "env \<Rightarrow> (string \<Rightarrow> goerr + namespace_object) \<Rightarrow> user_rule list \<Rightarrow> string \<Rightarrow> string \<Rightarrow> goerr + bool" where
  "decision env view rules un an =
     (case find (\<lambda>rule. verdict env view un an rule \<noteq> Inr False) rules of
        None \<Rightarrow> Inr False
      | Some rule \<Rightarrow> map_sum id (\<lambda>_. ur_action rule = UserRuleActionGrant) (verdict env view un an rule))"

lemma labelsMatch_iff: "labelsMatch labels kvs \<longleftrightarrow> (\<forall>(k, v)\<in>set kvs. map_get [] labels k = v)"
  by (induction kvs) (auto split: if_splits)

text \<open>
  A rule list grants exactly when some grant rule matches and no rule before it matches or
  fails: an earlier deny wins, and saying nothing is a denial.
\<close>

lemma first_split:
  "(\<exists>pre y post. x # xs = pre @ y # post \<and> Q y \<and> list_all P pre) \<longleftrightarrow>
     Q x \<or> P x \<and> (\<exists>pre y post. xs = pre @ y # post \<and> Q y \<and> list_all P pre)" (is "?L \<longleftrightarrow> ?R")
proof
  assume ?L
  then obtain pre y post where "x # xs = pre @ y # post" "Q y" "list_all P pre" by blast
  then show ?R by (cases pre) auto
next
  assume ?R
  then consider "Q x" | pre y post where "P x" "xs = pre @ y # post" "Q y" "list_all P pre" by blast
  then show ?L
  proof cases
    case 1
    then show ?thesis by (intro exI [of _ "[]"] exI [of _ x] exI [of _ xs]) simp
  next
    case 2
    then show ?thesis by (intro exI [of _ "x # pre"] exI [of _ y] exI [of _ post]) simp
  qed
qed

lemma decision_Cons:
  "decision env view (rule # rules) un an =
     (if verdict env view un an rule = Inr False then decision env view rules un an
      else map_sum id (\<lambda>_. ur_action rule = UserRuleActionGrant) (verdict env view un an rule))"
  by (simp add: decision_def)

lemma decision_granted:
  "decision env view rules un an = Inr True \<longleftrightarrow>
     (\<exists>pre rule post. rules = pre @ rule # post \<and>
        (ur_action rule = UserRuleActionGrant \<and> verdict env view un an rule = Inr True) \<and>
        list_all (\<lambda>r. verdict env view un an r = Inr False) pre)"
proof (induction rules)
  case Nil
  then show ?case by (simp add: decision_def)
next
  case (Cons rule rules)
  then show ?case
    unfolding first_split [of rule rules] decision_Cons
    by (cases "verdict env view un an rule") auto
qed

lemma ValidateRegexRules_None:
  "ValidateRegexRules env rules = None \<longleftrightarrow>
     (\<forall>rule\<in>set rules. \<forall>re. ur_namespace_regex rule = Some re \<longrightarrow> (\<exists>f. e_regex env re = Inr f))"
  by (induction rules) (auto split: option.splits sum.splits)

section \<open>The contract of the fetcher\<close>

locale namespace_source =
  fixes fetch :: namespace_fetcher
  assumes fetch_reads: "emits reads (fetch n)"
begin

lemma ruleMatchesUser_reads: "emits reads (ruleMatchesUser env fetch rule un an)"
  unfolding ruleMatchesUser_def
  by (intro emits_if emits_option emits_bind emits_return fetch_reads)

lemma Evaluate_reads: "emits reads (Evaluate env fetch rules un an)"
  by (induction rules)
    (auto intro!: emits_bind emits_sum emits_if ruleMatchesUser_reads)

end

text \<open>A fetcher whose answers do not change while it is asked.\<close>

locale stable_namespace_source = namespace_source +
  fixes view :: "string \<Rightarrow> goerr + namespace_object"
  assumes fetch_view: "fst (run_state (fetch n) w) = view n"
begin

lemma ruleMatchesUser_verdict: "fst (run_state (ruleMatchesUser env fetch rule un an) w) = verdict env view un an rule"
  using fetch_view [of un w]
  by (auto simp: ruleMatchesUser_def verdict_def labelsMatch_iff case_prod_beta
      split: option.split sum.split)

lemma Evaluate_decision: "fst (run_state (Evaluate env fetch rules un an) w) = decision env view rules un an"
proof (induction rules arbitrary: w)
  case Nil
  then show ?case by (simp add: decision_def)
next
  case (Cons rule rules)
  obtain r w1 where m: "run_state (ruleMatchesUser env fetch rule un an) w = (r, w1)" by force
  then have "verdict env view un an rule = r"
    using ruleMatchesUser_verdict [of env rule un an w] by simp
  with m Cons show ?case
    by (cases r) (auto simp: decision_def)
qed

end

interpretation client_namespaces: namespace_source "GetNamespace env" for env
  unfolding GetNamespace_def GetNamespaceObject_def
  by unfold_locales (intro emits_bind emits_call emits_return, simp)

text \<open>The cluster's namespaces stay as they are while the rules of a user are evaluated.\<close>

definition namespaces_stable :: "env \<Rightarrow> (string \<Rightarrow> goerr + namespace_object) \<Rightarrow> bool" where
  "namespaces_stable env view = (\<forall>w n. e_get_namespace env w n = view n)"

lemma stable_client: "namespaces_stable env view \<Longrightarrow> stable_namespace_source (GetNamespace env) view"
  unfolding stable_namespace_source_def stable_namespace_source_axioms_def
  using client_namespaces.namespace_source_axioms
  by (auto simp: GetNamespace_def GetNamespaceObject_def namespaces_stable_def call_def split: sum.split)

lemma Evaluate_client:
  assumes "namespaces_stable env view"
  shows "wp (Evaluate env (GetNamespace env) rules un an) (\<lambda>r _. r = decision env view rules un an) w"
proof -
  have "stable_namespace_source (GetNamespace env) view" using assms by (rule stable_client)
  then show ?thesis
    using stable_namespace_source.Evaluate_decision [of "GetNamespace env" view env rules un an w]
    by (simp add: wp_def case_prod_beta)
qed

section \<open>What the rules promise\<close>

text \<open>
  C13. First match, deny by default: with the namespaces as they are, a user of namespace
  \<open>un\<close> is granted the account exactly when some rule matches it, its action is grant, and
  every rule before it fails to match.
\<close>
theorem Evaluate_grants_iff:
  assumes "\<And>w' n. e_get_namespace env w' n = view n"
  shows "fst (run_state (Evaluate env (GetNamespace env) rules un an) w) = Inr True \<longleftrightarrow>
    (\<exists>pre rule post. rules = pre @ rule # post \<and>
       (ur_action rule = UserRuleActionGrant \<and> verdict env view un an rule = Inr True) \<and>
       list_all (\<lambda>r. verdict env view un an r = Inr False) pre)"
  using Evaluate_client [of env view rules un an w] assms
  by (simp add: namespaces_stable_def wp_def case_prod_beta decision_granted)

theorem Evaluate_grants_iff_witness:
  "fst (run_state (Evaluate null_env (GetNamespace null_env)
     [\<lparr>ur_action = ''deny'', ur_namespace_regex = None, ur_namespace_labels = None, ur_same_namespace = Some True\<rparr>,
      \<lparr>ur_action = ''grant'', ur_namespace_regex = Some ''.*'', ur_namespace_labels = None, ur_same_namespace = None\<rparr>]
     ''team-b'' ''team-a'') start_world) = Inr True"
  by (subst Evaluate_grants_iff [where view = "\<lambda>_. Inl not_found"])
    (simp, unfold first_split, simp add: verdict_def UserRuleActionGrant_def)

text \<open>
  Rules that passed validation can only fail because the user's namespace could not be
  fetched: the error is the fetcher's, and the user is then neither granted nor denied.
\<close>
lemma Evaluate_error_is_fetch_error:
  assumes "ValidateRegexRules env rules = None"
    and "\<And>w' n. e_get_namespace env w' n = view n"
    and "fst (run_state (Evaluate env (GetNamespace env) rules un an) w) = Inl err"
  shows "\<exists>e. view un = Inl e \<and> err = wrap (''fetching namespace '' @ Quote (e_printable env) un) e"
proof -
  have "decision env view rules un an = Inl err"
    using Evaluate_client [of env view rules un an w] assms(2,3)
    by (simp add: namespaces_stable_def wp_def case_prod_beta)
  then obtain rule where r: "rule \<in> set rules" "verdict env view un an rule = Inl err"
    by (auto simp: decision_def find_Some_iff map_sum_Inl_iff split: option.splits intro: nth_mem)
  then show ?thesis
    using assms(1) by (auto simp: ValidateRegexRules_None verdict_def map_sum_Inl_iff split: if_splits option.splits)
qed

end
