(* ===== verification/NKeys.thy ===== *)
theory NKeys
  imports KubeEnv
begin

text \<open>
  \<open>internal/nkeys/manager.go\<close>: a new key pair and a random inbox prefix. Base32
  (RFC 4648, without padding) is spelled out, because the isolation of inboxes rests on it:
  different random bytes give different prefixes, and a prefix is one plain token of a subject.
\<close>

section \<open>Base32\<close>

definition base32_alphabet :: string where
  "base32_alphabet = ''ABCDEFGHIJKLMNOPQRSTUVWXYZ234567''"

text \<open>
  \<open>EncodeToString\<close> without padding: the bits of the bytes, most significant first, in
  groups of five; the last group is filled up with zeros.
\<close>

definition byte_bits :: "8 word \<Rightarrow> bool list" where
  "byte_bits b = map (bit b) [7, 6, 5, 4, 3, 2, 1, 0]"

definition group_value :: "bool list \<Rightarrow> nat" where
  "group_value bs = foldl (\<lambda>n b. 2 * n + of_bool b) 0 bs"

fun groups5 :: "bool list \<Rightarrow> bool list list" where
  "groups5 (a # b # c # d # e # bs) = [a, b, c, d, e] # groups5 bs"
| "groups5 [] = []"
| "groups5 bs = [take 5 (bs @ replicate 4 False)]"

definition EncodeToString :: "8 word list \<Rightarrow> string" where
  "EncodeToString bytes =
     map (\<lambda>g. base32_alphabet ! group_value g) (groups5 (concat (map byte_bits bytes)))"

section \<open>Keys and prefixes\<close>

definition GenerateUserNKey :: "env \<Rightarrow> (goerr + string \<times> string) io" where
  "GenerateUserNKey env =
     do {
       r \<leftarrow> CreateUserKey env;
       State_Monad.return
         (case r of
            Inl err \<Rightarrow> Inl err
          | Inr kp \<Rightarrow>
              (case kp_public kp of
                 Inl err \<Rightarrow> Inl err
               | Inr publicKey \<Rightarrow>
                   (case kp_seed kp of
                      Inl err \<Rightarrow> Inl err
                    | Inr seed \<Rightarrow> Inr (publicKey, seed))))
     }"

definition GenerateInboxPrefix :: "env \<Rightarrow> (goerr + string) io" where
  "GenerateInboxPrefix env =
     do {
       r \<leftarrow> RandRead env 10;
       State_Monad.return
         (case r of Inl err \<Rightarrow> Inl err | Inr b \<Rightarrow> Inr (''_I_'' @ EncodeToString b))
     }"

section \<open>Base32 is one-to-one\<close>

lemma group_value_less: "group_value bs < 2 ^ length bs"
proof (induction bs rule: rev_induct)
  case (snoc b bs)
  then show ?case by (simp add: group_value_def)
qed (simp add: group_value_def)

lemma group_value_inject:
  "length as = length bs \<Longrightarrow> group_value as = group_value bs \<Longrightarrow> as = bs"
proof (induction as arbitrary: bs rule: rev_induct)
  case (snoc a as)
  obtain b bs' where bs: "bs = bs' @ [b]" using snoc.prems(1) by (cases bs rule: rev_cases) auto
  have "2 * group_value as + of_bool a = 2 * group_value bs' + of_bool b"
    using snoc.prems(2) by (simp add: bs group_value_def)
  then have "a = b" "group_value as = group_value bs'"
    by (cases a; cases b; simp; presburger)+
  with snoc bs show ?case by simp
qed simp

lemma groups5_length: "g \<in> set (groups5 bs) \<Longrightarrow> length g = 5"
  by (induction bs rule: groups5.induct) auto

lemma split5:
  assumes "length (bs :: bool list) = 5 * Suc n"
  obtains a b c d e cs where "bs = a # b # c # d # e # cs" "length cs = 5 * n"
  using assms by (cases bs rule: groups5.cases) auto

lemma length_groups5: "length bs = 5 * n \<Longrightarrow> length (groups5 bs) = n"
proof (induction n arbitrary: bs)
  case (Suc n)
  from Suc.prems show ?case by (rule split5) (simp add: Suc.IH)
qed simp

lemma concat_groups5: "length bs = 5 * n \<Longrightarrow> concat (groups5 bs) = bs"
proof (induction n arbitrary: bs)
  case (Suc n)
  from Suc.prems show ?case by (rule split5) (simp add: Suc.IH)
qed simp

lemma alphabet_distinct: "distinct base32_alphabet" "length base32_alphabet = 32"
  by (simp_all add: base32_alphabet_def)

lemma group_char_inject:
  "length g = 5 \<Longrightarrow> length h = 5 \<Longrightarrow>
   base32_alphabet ! group_value g = base32_alphabet ! group_value h \<Longrightarrow> g = h"
  using group_value_less [of g] group_value_less [of h] alphabet_distinct
  by (auto simp: nth_eq_iff_index_eq intro: group_value_inject)

lemma byte_bits_inject: "byte_bits a = byte_bits b \<Longrightarrow> a = b"
proof (rule bit_word_eqI)
  fix n assume "byte_bits a = byte_bits b" "n < LENGTH(8)"
  then show "bit a n = bit b n"
    by (auto simp: byte_bits_def less_Suc_eq numeral_eq_Suc)
qed

lemma concat_byte_bits_inject:
  "length as = length bs \<Longrightarrow> concat (map byte_bits as) = concat (map byte_bits bs) \<Longrightarrow> as = bs"
proof (induction as bs rule: list_induct2)
  case (Cons a as b bs)
  have "length (byte_bits a) = length (byte_bits b)" by (simp add: byte_bits_def)
  with Cons show ?case by (auto dest: byte_bits_inject)
qed simp

lemma length_concat_byte_bits: "length (concat (map byte_bits bs)) = 8 * length bs"
  by (induction bs) (simp_all add: byte_bits_def)

lemma EncodeToString_inject:
  assumes "length as = 10" "length bs = 10" "EncodeToString as = EncodeToString bs"
  shows "as = bs"
proof -
  let ?G = "\<lambda>xs. groups5 (concat (map byte_bits xs))"
  have l: "length (concat (map byte_bits xs)) = 5 * 16" if "length xs = 10" for xs
    using that by (simp add: length_concat_byte_bits)
  have "?G as = ?G bs"
  proof (rule nth_equalityI)
    show len: "length (?G as) = length (?G bs)"
      using assms(1,2) l length_groups5 by metis
    fix i assume i: "i < length (?G as)"
    have "base32_alphabet ! group_value (?G as ! i) = base32_alphabet ! group_value (?G bs ! i)"
      using assms(3) i len by (metis EncodeToString_def nth_map)
    then show "?G as ! i = ?G bs ! i"
      using i len by (intro group_char_inject groups5_length [OF nth_mem]) auto
  qed
  then have "concat (map byte_bits as) = concat (map byte_bits bs)"
    using concat_groups5 [OF l [OF assms(1)]] concat_groups5 [OF l [OF assms(2)]] by metis
  with assms(1,2) show ?thesis by (intro concat_byte_bits_inject) simp_all
qed

lemma EncodeToString_length: "length bs = 10 \<Longrightarrow> length (EncodeToString bs) = 16"
  using length_groups5 [of "concat (map byte_bits bs)" 16]
  by (simp add: EncodeToString_def length_concat_byte_bits)

lemma EncodeToString_alphabet: "set (EncodeToString bs) \<subseteq> set base32_alphabet"
proof -
  have "base32_alphabet ! group_value g \<in> set base32_alphabet"
    if "g \<in> set (groups5 (concat (map byte_bits bs)))" for g
    using group_value_less [of g] groups5_length [OF that] alphabet_distinct(2)
    by (intro nth_mem) simp
  then show ?thesis by (auto simp: EncodeToString_def)
qed

section \<open>What the generators return\<close>

lemma GenerateUserNKey_emits: "emits (\<lambda>e. e = KeyGenerated) (GenerateUserNKey env)"
  unfolding GenerateUserNKey_def CreateUserKey_def
  by (intro emits_bind emits_call emits_return) simp

lemma GenerateInboxPrefix_emits: "emits (\<lambda>e. e = RandomRead 10) (GenerateInboxPrefix env)"
  unfolding GenerateInboxPrefix_def RandRead_def
  by (intro emits_bind emits_call emits_return) simp

lemma GenerateInboxPrefix_result:
  "fst (run_state (GenerateInboxPrefix env) w) =
     map_sum id (\<lambda>f. ''_I_'' @ EncodeToString (map f [0..<10])) (e_random env w)"
  by (cases "e_random env w") (simp_all add: GenerateInboxPrefix_def RandRead_def call_def)

text \<open>
  C30. A generated inbox prefix is the text \<open>_I_\<close> and 16 characters of the base32
  alphabet, so it is a single subject token without a dot or a wildcard.
\<close>
theorem GenerateInboxPrefix_token:
  assumes "fst (run_state (GenerateInboxPrefix env) w) = Inr p"
  shows "length p = 19 \<and> take 3 p = ''_I_'' \<and> set (drop 3 p) \<subseteq> set base32_alphabet \<and>
    CHR ''.'' \<notin> set p \<and> CHR ''*'' \<notin> set p \<and> CHR ''>'' \<notin> set p"
proof -
  obtain f where p: "p = ''_I_'' @ EncodeToString (map f [0..<10])"
    using assms by (auto simp: GenerateInboxPrefix_result map_sum_Inr_iff)
  have "set (EncodeToString (map f [0..<10])) \<subseteq> set base32_alphabet" by (rule EncodeToString_alphabet)
  then show ?thesis
    using EncodeToString_length [of "map f [0..<10]"] by (auto simp: p base32_alphabet_def)
qed

theorem GenerateInboxPrefix_token_witness:
  "set (drop 3 (''_I_'' @ EncodeToString (map (\<lambda>_. 0) [0..<10]))) \<subseteq> set base32_alphabet"
  using GenerateInboxPrefix_token [of null_env start_world "''_I_'' @ EncodeToString (map (\<lambda>_. 0) [0..<10])"]
  by (simp add: GenerateInboxPrefix_result)

text \<open>
  Two generated prefixes are equal only if the same ten random bytes were drawn:
  all 80 bits of randomness survive the encoding.
\<close>
lemma GenerateInboxPrefix_injective:
  assumes "fst (run_state (GenerateInboxPrefix env) w) = Inr p"
    and "fst (run_state (GenerateInboxPrefix env') w') = Inr p"
  shows "\<exists>f g. e_random env w = Inr f \<and> e_random env' w' = Inr g \<and> (\<forall>i<10. f i = g i)"
proof -
  obtain f g where fg: "e_random env w = Inr f" "e_random env' w' = Inr g"
    "EncodeToString (map f [0..<10]) = EncodeToString (map g [0..<10])"
    using assms by (auto simp: GenerateInboxPrefix_result map_sum_Inr_iff)
  then have "map f [0..<10] = map g [0..<10]" by (intro EncodeToString_inject) simp_all
  then have "\<forall>i<10. f i = g i" by simp
  with fg show ?thesis by blast
qed

lemma GenerateInboxPrefix_injective_witness:
  "\<exists>f g. e_random null_env start_world = Inr f \<and> e_random null_env start_world = Inr g \<and> (\<forall>i<10. f i = g i)"
  by (rule GenerateInboxPrefix_injective [where p = "''_I_'' @ EncodeToString (map (\<lambda>_. 0) [0..<10])"])
    (simp_all add: GenerateInboxPrefix_result)

end
