(* ===== verification/NKeySecrets.thy ===== *)
theory NKeySecrets
  imports NKeys
begin

text \<open>
  \<open>internal/controller/nkey_secret_manager.go\<close>: the Secret with a user's seed, public
  key and inbox prefix. The user object is passed by pointer and its status is written, so
  the operation also returns the user.
\<close>

section \<open>EnsureNKeySecret\<close>

abbreviation NKEY_PUBLIC :: string where
  "NKEY_PUBLIC \<equiv> ''nkey-public''"

abbreviation NKEY_SEED :: string where
  "NKEY_SEED \<equiv> ''nkey-seed''"

abbreviation INBOX_PREFIX :: string where
  "INBOX_PREFIX \<equiv> ''inbox-prefix''"

definition secretNameOf :: "nats_user \<Rightarrow> string" where
  "secretNameOf user = user_name user @ ''-nats-nkey''"

definition resolveInboxPrefix :: "env \<Rightarrow> string option \<Rightarrow> (goerr + string) io" where
  "resolveInboxPrefix env override =
     (if override \<noteq> None \<and> the override \<noteq> [] then State_Monad.return (Inr (the override))
      else GenerateInboxPrefix env)"

definition nil_map_panic :: goerr where
  "nil_map_panic = GoErr Panic ''assignment to entry in nil map''"

definition data_get :: "secret \<Rightarrow> string \<Rightarrow> string" where
  "data_get s k = (case sec_data s of None \<Rightarrow> [] | Some m \<Rightarrow> map_get [] m k)"

text \<open>The status of the user: written to the object first, then to the API server.\<close>

definition with_key_status :: "nats_user \<Rightarrow> string \<Rightarrow> string \<Rightarrow> nats_user" where
  "with_key_status user publicKey secretName =
     user\<lparr>u_status := (u_status user)
            \<lparr>ust_nkey_public_key := publicKey, ust_secret_ref := Some secretName\<rparr>\<rparr>"

text \<open>
  The decision about the prefix of a Secret that exists: the prefix, the Secret as it should
  be, and whether it has to be written.
\<close>

definition adjustPrefix :: "env \<Rightarrow> nats_user \<Rightarrow> secret \<Rightarrow> (goerr + string \<times> secret \<times> bool) io" where
  "adjustPrefix env user sec =
     (let inboxPrefix = data_get sec INBOX_PREFIX in
      if us_insecure_shared_inbox_prefix (u_spec user) then
        State_Monad.return (Inr
          (case sec_data sec of
             None \<Rightarrow> (inboxPrefix, sec, False)
           | Some m \<Rightarrow>
               if map_of m INBOX_PREFIX \<noteq> None
               then ([], sec\<lparr>sec_data := Some (AList.delete INBOX_PREFIX m)\<rparr>, True)
               else (inboxPrefix, sec, False)))
      else if inboxPrefix = [] then
        do {
          r \<leftarrow> resolveInboxPrefix env (us_inbox_prefix (u_spec user));
          State_Monad.return
            (case r of
               Inl err \<Rightarrow> Inl err
             | Inr p \<Rightarrow>
                 (case sec_data sec of
                    None \<Rightarrow> Inl nil_map_panic
                  | Some m \<Rightarrow> Inr (p, sec\<lparr>sec_data := Some (AList.update INBOX_PREFIX p m)\<rparr>, True)))
        }
      else State_Monad.return (Inr (inboxPrefix, sec, False)))"

definition publishKeyStatus ::
  "env \<Rightarrow> nats_user \<Rightarrow> string \<Rightarrow> string \<Rightarrow> ((goerr + string \<times> string) \<times> nats_user) io" where
  "publishKeyStatus env user publicKey inboxPrefix =
     do {
       r \<leftarrow> UpdateUserStatus env (with_key_status user publicKey (secretNameOf user));
       State_Monad.return
         (case r of Some err \<Rightarrow> Inl err | None \<Rightarrow> Inr (publicKey, inboxPrefix),
          with_key_status user publicKey (secretNameOf user))
     }"

definition writeAdopted ::
  "env \<Rightarrow> nats_user \<Rightarrow> secret \<Rightarrow> string \<Rightarrow> secret \<Rightarrow> bool \<Rightarrow> ((goerr + string \<times> string) \<times> nats_user) io" where
  "writeAdopted env user sec inboxPrefix sec' needsUpdate =
     do {
       u \<leftarrow> (if needsUpdate then UpdateSecret env sec' else State_Monad.return None);
       (case u of
          Some err \<Rightarrow> State_Monad.return (Inl err, user)
        | None \<Rightarrow>
            if ust_nkey_public_key (u_status user) \<noteq> data_get sec NKEY_PUBLIC
               \<or> ust_secret_ref (u_status user) \<noteq> Some (secretNameOf user)
            then publishKeyStatus env user (data_get sec NKEY_PUBLIC) inboxPrefix
            else State_Monad.return (Inr (data_get sec NKEY_PUBLIC, inboxPrefix), user))
     }"

definition adoptSecret :: "env \<Rightarrow> nats_user \<Rightarrow> secret \<Rightarrow> ((goerr + string \<times> string) \<times> nats_user) io" where
  "adoptSecret env user sec =
     do {
       r \<leftarrow> adjustPrefix env user sec;
       (case r of
          Inl err \<Rightarrow> State_Monad.return (Inl err, user)
        | Inr (inboxPrefix, sec', needsUpdate) \<Rightarrow>
            writeAdopted env user sec inboxPrefix sec' needsUpdate)
     }"

definition newSecretData ::
  "env \<Rightarrow> nats_user \<Rightarrow> string \<Rightarrow> string \<Rightarrow> (goerr + string \<times> string gomap) io" where
  "newSecretData env user publicKey seed =
     (let secretData = [(NKEY_SEED, seed), (NKEY_PUBLIC, publicKey)] in
      if \<not> us_insecure_shared_inbox_prefix (u_spec user) then
        do {
          r \<leftarrow> resolveInboxPrefix env (us_inbox_prefix (u_spec user));
          State_Monad.return
            (case r of
               Inl err \<Rightarrow> Inl err
             | Inr p \<Rightarrow> Inr (p, AList.update INBOX_PREFIX p secretData))
        }
      else State_Monad.return (Inr ([], secretData)))"

definition createSecret :: "env \<Rightarrow> nats_user \<Rightarrow> ((goerr + string \<times> string) \<times> nats_user) io" where
  "createSecret env user =
     do {
       k \<leftarrow> GenerateUserNKey env;
       (case k of
          Inl err \<Rightarrow> State_Monad.return (Inl (wrap ''generating nkey'' err), user)
        | Inr (publicKey, seed) \<Rightarrow>
            do {
              d \<leftarrow> newSecretData env user publicKey seed;
              (case d of
                 Inl err \<Rightarrow> State_Monad.return (Inl err, user)
               | Inr (inboxPrefix, secretData) \<Rightarrow>
                   (case e_set_owner env user
                           \<lparr>sec_name = secretNameOf user, sec_namespace = user_namespace user,
                            sec_data = Some secretData, sec_owners = []\<rparr> of
                      Inl err \<Rightarrow> State_Monad.return (Inl err, user)
                    | Inr sec \<Rightarrow>
                        do {
                          c \<leftarrow> CreateSecret env sec;
                          (case c of
                             Some err \<Rightarrow> State_Monad.return (Inl err, user)
                           | None \<Rightarrow> publishKeyStatus env user publicKey inboxPrefix)
                        }))
            })
     }"

definition EnsureNKeySecret :: "env \<Rightarrow> nats_user \<Rightarrow> ((goerr + string \<times> string) \<times> nats_user) io" where
  "EnsureNKeySecret env user =
     do {
       g \<leftarrow> GetSecret env (user_namespace user, secretNameOf user);
       (case g of
          Inr sec \<Rightarrow> adoptSecret env user sec
        | Inl getErr \<Rightarrow>
            if \<not> IsNotFound getErr then State_Monad.return (Inl getErr, user)
            else createSecret env user)
     }"

section \<open>The user object and the calls made\<close>

text \<open>Only the status of the user changes, and of the status only the key and the reference.\<close>

definition same_user :: "nats_user \<Rightarrow> nats_user \<Rightarrow> bool" where
  "same_user u v \<longleftrightarrow> u_meta v = u_meta u \<and> u_spec v = u_spec u \<and>
     ust_conditions (u_status v) = ust_conditions (u_status u) \<and>
     ust_debug_command (u_status v) = ust_debug_command (u_status u) \<and>
     ust_connection_urls (u_status v) = ust_connection_urls (u_status u) \<and>
     ust_is_system_account (u_status v) = ust_is_system_account (u_status u)"

lemma same_user_refl [simp]: "same_user u u"
  by (simp add: same_user_def)

lemma same_user_with_key [simp]: "same_user u (with_key_status u k n)"
  by (simp add: same_user_def with_key_status_def)

lemma wp_publish: "wp (publishKeyStatus env user pk ip) Q w \<longleftrightarrow>
    Q (case e_update_user_status env w (with_key_status user pk (secretNameOf user)) of
         Some err \<Rightarrow> Inl err | None \<Rightarrow> Inr (pk, ip),
       with_key_status user pk (secretNameOf user))
      (w\<lparr>w_trace := UserStatusUpdated (with_key_status user pk (secretNameOf user))
            (e_update_user_status env w (with_key_status user pk (secretNameOf user))) # w_trace w,
         w_clock := w_clock w + e_latency env w\<rparr>)"
  by (simp add: publishKeyStatus_def UpdateUserStatus_def)

definition own_key :: "nats_user \<Rightarrow> object_key" where
  "own_key user = (user_namespace user, secretNameOf user)"

definition secret_key :: "secret \<Rightarrow> object_key" where
  "secret_key s = (sec_namespace s, sec_name s)"

section \<open>The prefix and isolation\<close>

lemma wp_resolve:
  "wp (resolveInboxPrefix env ov)
     (\<lambda>r w'. (\<forall>p. r = Inr p \<longrightarrow> p \<noteq> []) \<and> (w_trace w' = w_trace w \<or> w_trace w' = RandomRead 10 # w_trace w)) w"
  by (auto simp: resolveInboxPrefix_def GenerateInboxPrefix_def RandRead_def split: sum.splits)

text \<open>
  A Secret that needs no adjustment: it holds the public key, and the prefix is there exactly
  when the user is isolated.
\<close>

definition settled :: "nats_user \<Rightarrow> string \<Rightarrow> string \<Rightarrow> secret \<Rightarrow> bool" where
  "settled user pk ip s \<longleftrightarrow> data_get s NKEY_PUBLIC = pk \<and> data_get s INBOX_PREFIX = ip \<and>
     (if us_insecure_shared_inbox_prefix (u_spec user)
      then (\<forall>m. sec_data s = Some m \<longrightarrow> map_of m INBOX_PREFIX = None)
      else ip \<noteq> [])"

lemma settled_adjust: "settled user pk ip s \<Longrightarrow> adjustPrefix env user s = State_Monad.return (Inr (ip, s, False))"
  by (auto simp: settled_def adjustPrefix_def Let_def split: option.split)

lemma settled_insecure: "settled user pk ip s \<Longrightarrow> us_insecure_shared_inbox_prefix (u_spec user) \<Longrightarrow> ip = []"
  by (auto simp: settled_def data_get_def map_get_def split: option.splits)

lemma settled_adopt:
  assumes "settled user pk ip s"
  shows "adoptSecret env user s =
    (if ust_nkey_public_key (u_status user) \<noteq> pk \<or> ust_secret_ref (u_status user) \<noteq> Some (secretNameOf user)
     then publishKeyStatus env user pk ip else State_Monad.return (Inr (pk, ip), user))"
proof -
  have "data_get s NKEY_PUBLIC = pk" using assms by (simp add: settled_def)
  then show ?thesis by (simp add: adoptSecret_def writeAdopted_def settled_adjust [OF assms])
qed

text \<open>Adjusting leaves every entry but the prefix, and the Secret it gives is settled.\<close>

lemma wp_adjust:
  "wp (adjustPrefix env user s)
     (\<lambda>r w'. (w_trace w' = w_trace w \<or> w_trace w' = RandomRead 10 # w_trace w) \<and>
        (\<forall>ip s' b. r = Inr (ip, s', b) \<longrightarrow>
           settled user (data_get s NKEY_PUBLIC) ip s' \<and> secret_key s' = secret_key s \<and>
           (\<forall>k. k \<noteq> INBOX_PREFIX \<longrightarrow> data_get s' k = data_get s k) \<and> (\<not> b \<longrightarrow> s' = s))) w"
proof (cases "us_insecure_shared_inbox_prefix (u_spec user)")
  case True
  then show ?thesis
    by (cases "sec_data s")
      (simp_all add: adjustPrefix_def settled_def secret_key_def data_get_def map_get_def delete_conv
        split: option.split)
next
  case secure: False
  show ?thesis
  proof (cases "data_get s INBOX_PREFIX = []")
    case True
    then have "wp (adjustPrefix env user s) Q w \<longleftrightarrow>
        wp (resolveInboxPrefix env (us_inbox_prefix (u_spec user)))
          (\<lambda>r. Q (case r of Inl err \<Rightarrow> Inl err
             | Inr p \<Rightarrow> (case sec_data s of None \<Rightarrow> Inl nil_map_panic
                | Some m \<Rightarrow> Inr (p, s\<lparr>sec_data := Some (AList.update INBOX_PREFIX p m)\<rparr>, True)))) w" for Q
      using secure by (simp add: adjustPrefix_def)
    then show ?thesis
    proof (simp only:, intro wp_mono [OF wp_resolve])
      fix r :: "goerr + string" and w' :: world
      assume "(\<forall>p. r = Inr p \<longrightarrow> p \<noteq> []) \<and> (w_trace w' = w_trace w \<or> w_trace w' = RandomRead 10 # w_trace w)"
      then show "(w_trace w' = w_trace w \<or> w_trace w' = RandomRead 10 # w_trace w) \<and>
        (\<forall>ip s' b. (case r of Inl err \<Rightarrow> Inl err
             | Inr p \<Rightarrow> (case sec_data s of None \<Rightarrow> Inl nil_map_panic
                | Some m \<Rightarrow> Inr (p, s\<lparr>sec_data := Some (AList.update INBOX_PREFIX p m)\<rparr>, True))) = Inr (ip, s', b) \<longrightarrow>
           settled user (data_get s NKEY_PUBLIC) ip s' \<and> secret_key s' = secret_key s \<and>
           (\<forall>k. k \<noteq> INBOX_PREFIX \<longrightarrow> data_get s' k = data_get s k) \<and> (\<not> b \<longrightarrow> s' = s))"
        using secure
        by (cases r; cases "sec_data s")
          (auto simp: settled_def secret_key_def data_get_def map_get_def update_conv)
    qed
  next
    case False
    with secure show ?thesis by (simp add: adjustPrefix_def settled_def)
  qed
qed

section \<open>Adopting and creating\<close>

fun writes_secret :: "object_key \<Rightarrow> event \<Rightarrow> bool" where
  "writes_secret k (SecretCreated s None) = (secret_key s = k)"
| "writes_secret k (SecretUpdated s None) = (secret_key s = k)"
| "writes_secret k _ = False"

text \<open>
  The Secret under a key, for an API server on which only the recorded writes happen: the
  last one that succeeded, or else what was there at the start.
\<close>

fun stored :: "object_key \<Rightarrow> goerr + secret \<Rightarrow> event list \<Rightarrow> goerr + secret" where
  "stored k s0 [] = s0"
| "stored k s0 (SecretCreated s None # es) = (if secret_key s = k then Inr s else stored k s0 es)"
| "stored k s0 (SecretUpdated s None # es) = (if secret_key s = k then Inr s else stored k s0 es)"
| "stored k s0 (e # es) = stored k s0 es"

lemma stored_skip: "\<not> writes_secret k e \<Longrightarrow> stored k s0 (e # es) = stored k s0 es"
  by (cases "(k, s0, e # es)" rule: stored.cases) auto

lemma stored_append: "list_all (\<lambda>e. \<not> writes_secret k e) evs \<Longrightarrow> stored k s0 (evs @ es) = stored k s0 es"
  by (induction evs) (simp_all add: stored_skip)

lemma stored_random [simp]: "stored k s0 (RandomRead n # es) = stored k s0 es"
  by (simp add: stored_skip)

lemma wp_writeAdopted:
  "wp (writeAdopted env user s ip s' b) Q w \<longleftrightarrow>
     (let w1 = (if b then w\<lparr>w_trace := SecretUpdated s' (e_update_secret env w s') # w_trace w,
                            w_clock := w_clock w + e_latency env w\<rparr> else w) in
      case (if b then e_update_secret env w s' else None) of
        Some err \<Rightarrow> Q (Inl err, user) w1
      | None \<Rightarrow> wp (if ust_nkey_public_key (u_status user) \<noteq> data_get s NKEY_PUBLIC
                       \<or> ust_secret_ref (u_status user) \<noteq> Some (secretNameOf user)
                     then publishKeyStatus env user (data_get s NKEY_PUBLIC) ip
                     else State_Monad.return (Inr (data_get s NKEY_PUBLIC, ip), user)) Q w1)"
  by (cases b) (simp_all add: writeAdopted_def UpdateSecret_def split: option.split)

lemma writeAdopted_settles:
  assumes "settled user (data_get s NKEY_PUBLIC) ip s'" "secret_key s' = k"
    and "if b then True else stored k s0 (w_trace w) = Inr s'"
  shows "wp (writeAdopted env user s ip s' b)
    (\<lambda>(r, u) w'. \<forall>pk ip. r = Inr (pk, ip) \<longrightarrow>
       (\<exists>s'. stored k s0 (w_trace w') = Inr s' \<and> settled user pk ip s')) w"
  using assms by (cases b; cases "e_update_secret env w s'")
    (auto simp: wp_writeAdopted wp_publish stored_skip split: option.splits)

lemma adopt_settles:
  assumes "secret_key s = k" "stored k s0 (w_trace w) = Inr s"
  shows "wp (adoptSecret env user s)
    (\<lambda>(r, u) w'. \<forall>pk ip. r = Inr (pk, ip) \<longrightarrow>
       (\<exists>s'. stored k s0 (w_trace w') = Inr s' \<and> settled user pk ip s')) w"
proof -
  have "wp (adjustPrefix env user s)
      (\<lambda>r w'. stored k s0 (w_trace w') = Inr s \<and>
        (\<forall>ip s' b. r = Inr (ip, s', b) \<longrightarrow> settled user (data_get s NKEY_PUBLIC) ip s' \<and> secret_key s' = k \<and>
           (\<not> b \<longrightarrow> s' = s))) w"
    by (rule wp_mono [OF wp_adjust]) (use assms in auto)
  then show ?thesis
    unfolding adoptSecret_def wp_bind
    by (rule wp_mono) (intro wp_sum wp_triple writeAdopted_settles; auto)
qed

lemma wp_newSecretData:
  "wp (newSecretData env user pk seed)
     (\<lambda>r w'. (w_trace w' = w_trace w \<or> w_trace w' = RandomRead 10 # w_trace w) \<and>
        (\<forall>ip d n ns os. r = Inr (ip, d) \<longrightarrow>
           settled user pk ip \<lparr>sec_name = n, sec_namespace = ns, sec_data = Some d, sec_owners = os\<rparr>)) w"
proof (cases "us_insecure_shared_inbox_prefix (u_spec user)")
  case True
  then show ?thesis by (simp add: newSecretData_def settled_def data_get_def map_get_def)
next
  case False
  then show ?thesis
    by (auto intro!: wp_mono [OF wp_resolve] simp: newSecretData_def settled_def data_get_def map_get_def
        update_conv split: sum.splits)
qed

lemma settled_cong: "sec_data s = sec_data s' \<Longrightarrow> settled user pk ip s = settled user pk ip s'"
  by (simp add: settled_def data_get_def)

text \<open>What the library's \<open>SetOwnerReference\<close> promises: it only writes owner references.\<close>

definition set_owner_only :: "env \<Rightarrow> bool" where
  "set_owner_only env = (\<forall>u s s'. e_set_owner env u s = Inr s' \<longrightarrow> secret_key s' = secret_key s \<and> sec_data s' = sec_data s)"

lemma create_settles:
  assumes "set_owner_only env"
  shows "wp (createSecret env user)
    (\<lambda>(r, u) w'. \<forall>pk ip. r = Inr (pk, ip) \<longrightarrow>
       (\<exists>s'. stored (own_key user) s0 (w_trace w') = Inr s' \<and> settled user pk ip s')) w"
proof -
  have owner: "\<And>n ns d s. e_set_owner env user \<lparr>sec_name = n, sec_namespace = ns, sec_data = Some d, sec_owners = []\<rparr> = Inr s \<Longrightarrow>
      secret_key s = (ns, n) \<and> sec_data s = Some d"
    using assms by (auto simp: set_owner_only_def secret_key_def)
  have create: "wp (newSecretData env user pk seed)
      (\<lambda>r w'. \<forall>ip d n ns os. r = Inr (ip, d) \<longrightarrow>
           settled user pk ip \<lparr>sec_name = n, sec_namespace = ns, sec_data = Some d, sec_owners = os\<rparr>) w" for pk seed w
    by (rule wp_mono [OF wp_newSecretData]) simp
  let ?Q = "\<lambda>(r, u) w'. \<forall>pk ip. r = Inr (pk, ip) \<longrightarrow>
       (\<exists>s'. stored (own_key user) s0 (w_trace w') = Inr s' \<and> settled user pk ip s')"
  have final: "wp (CreateSecret env sec \<bind> (\<lambda>c. case c of Some err \<Rightarrow> State_Monad.return (Inl err, user)
        | None \<Rightarrow> publishKeyStatus env user pk ip)) ?Q w"
    if "secret_key sec = own_key user" "settled user pk ip sec" for sec pk ip and w :: world
    using that by (auto simp: CreateSecret_def wp_publish split: option.splits)
  have stored: "wp (case e_set_owner env user
        \<lparr>sec_name = secretNameOf user, sec_namespace = user_namespace user, sec_data = Some d, sec_owners = []\<rparr> of
          Inl err \<Rightarrow> State_Monad.return (Inl err, user)
        | Inr sec \<Rightarrow> CreateSecret env sec \<bind> (\<lambda>c. case c of Some err \<Rightarrow> State_Monad.return (Inl err, user)
            | None \<Rightarrow> publishKeyStatus env user pk ip)) ?Q w"
    if "\<And>n ns os. settled user pk ip \<lparr>sec_name = n, sec_namespace = ns, sec_data = Some d, sec_owners = os\<rparr>"
    for pk ip d and w :: world
  proof (rule wp_sum)
    fix sec assume "e_set_owner env user
        \<lparr>sec_name = secretNameOf user, sec_namespace = user_namespace user, sec_data = Some d, sec_owners = []\<rparr> = Inr sec"
    note o = owner [OF this]
    show "wp (CreateSecret env sec \<bind> (\<lambda>c. case c of Some err \<Rightarrow> State_Monad.return (Inl err, user)
            | None \<Rightarrow> publishKeyStatus env user pk ip)) ?Q w"
    proof (rule final)
      show "secret_key sec = own_key user" using o by (simp add: own_key_def)
      show "settled user pk ip sec"
        using that [of "[]" "[]" "[]"] o
          settled_cong [of sec "\<lparr>sec_name = [], sec_namespace = [], sec_data = Some d, sec_owners = []\<rparr>"]
        by simp
    qed
  qed simp
  have "wp (GenerateUserNKey env) (\<lambda>_ _. True) w" by (simp add: wp_def case_prod_beta)
  then show ?thesis
    unfolding createSecret_def wp_bind
    apply (rule wp_mono)
    apply (intro wp_sum wp_pair)
     apply simp
    apply (simp only: prod.case wp_bind)
    apply (rule wp_mono [OF create])
    apply (rule wp_sum)
     apply simp
    apply (rule wp_pair)
    apply (rule stored)
    apply simp
    done
qed

lemma own_key_same: "u_meta user2 = u_meta user \<Longrightarrow> own_key user2 = own_key user"
  by (simp add: own_key_def secretNameOf_def)

lemma EnsureNKeySecret_settles:
  assumes store: "\<And>w. e_get_secret env w (own_key user) = stored (own_key user) s0 (w_trace w)"
    and own: "\<And>w s. e_get_secret env w (own_key user) = Inr s \<Longrightarrow> secret_key s = own_key user"
    and owner: "set_owner_only env"
  shows "wp (EnsureNKeySecret env user)
    (\<lambda>(r, u) w'. \<forall>pk ip. r = Inr (pk, ip) \<longrightarrow>
       (\<exists>s'. stored (own_key user) s0 (w_trace w') = Inr s' \<and> settled user pk ip s')) w"
proof -
  let ?w1 = "w\<lparr>w_trace := Got KSecret (own_key user) # w_trace w, w_clock := w_clock w + e_latency env w\<rparr>"
  let ?Q = "\<lambda>(r, u) w'. \<forall>pk ip. r = Inr (pk, ip) \<longrightarrow>
       (\<exists>s'. stored (own_key user) s0 (w_trace w') = Inr s' \<and> settled user pk ip s')"
  have "wp (adoptSecret env user s) ?Q ?w1" if "e_get_secret env w (own_key user) = Inr s" for s
  proof (rule adopt_settles)
    show "secret_key s = own_key user" using that by (rule own)
    show "stored (own_key user) s0 (w_trace ?w1) = Inr s" using that unfolding store by (simp add: stored_skip)
  qed
  moreover have "wp (createSecret env user) ?Q ?w1"
    by (rule create_settles [OF owner])
  ultimately show ?thesis
    unfolding EnsureNKeySecret_def GetSecret_def own_key_def [symmetric] wp_bind wp_call
    by (cases "e_get_secret env w (own_key user)") simp_all
qed


lemma Ensure_isolation:
  "wp (EnsureNKeySecret env user)
     (\<lambda>(r, u) w'. \<forall>pk ip. r = Inr (pk, ip) \<longrightarrow>
        (ip = [] \<longleftrightarrow> us_insecure_shared_inbox_prefix (u_spec user))) w"
proof -
  let ?Q = "\<lambda>(r, u) w'. \<forall>pk ip. r = Inr (pk, ip) \<longrightarrow>
      (ip = [] \<longleftrightarrow> us_insecure_shared_inbox_prefix (u_spec user))"
  have settled_iff: "ip = [] \<longleftrightarrow> us_insecure_shared_inbox_prefix (u_spec user)" if "settled user pk ip s" for pk ip s
    using that settled_insecure [OF that] by (auto simp: settled_def split: if_splits)
  have written: "wp (writeAdopted env user s ip s' b) ?Q w"
    if "settled user pk ip s'" for s pk ip s' b w
    using settled_iff [OF that]
    by (cases b; cases "e_update_secret env w s'")
      (auto simp: wp_writeAdopted wp_publish split: option.splits)
  have adopt: "wp (adoptSecret env user s) ?Q w" for s w
    unfolding adoptSecret_def wp_bind
    by (rule wp_mono [OF wp_adjust], rule wp_sum, simp, intro wp_triple written) auto
  have tail: "wp (case o' of Inl err \<Rightarrow> State_Monad.return (Inl err, user)
      | Inr sec \<Rightarrow> CreateSecret env sec \<bind> (\<lambda>c. case c of Some err \<Rightarrow> State_Monad.return (Inl err, user)
            | None \<Rightarrow> publishKeyStatus env user pk ip)) ?Q w"
    if "ip = [] \<longleftrightarrow> us_insecure_shared_inbox_prefix (u_spec user)" for o' pk ip and w :: world
    using that by (cases o') (auto simp: CreateSecret_def wp_publish split: option.splits)
  have create: "wp (createSecret env user) ?Q w" for w
  proof -
    have "wp (GenerateUserNKey env) (\<lambda>_ _. True) w" by (simp add: wp_def case_prod_beta)
    then show ?thesis
      unfolding createSecret_def wp_bind
      apply (rule wp_mono)
      apply (intro wp_sum wp_pair)
       apply simp
      apply (simp only: prod.case wp_bind)
      apply (rule wp_mono [OF wp_newSecretData])
      apply (rule wp_sum)
       apply simp
      apply (rule wp_pair)
      apply (rule tail)
      apply (blast dest: settled_iff)
      done
  qed
  have "wp (EnsureNKeySecret env user) ?Q w"
    unfolding EnsureNKeySecret_def GetSecret_def wp_bind wp_call
    using adopt create by (cases "e_get_secret env w (user_namespace user, secretNameOf user)") simp_all
  then show ?thesis .
qed

text \<open>
  C18. Isolation is the default: whenever the manager hands out credentials, the inbox prefix is
  empty exactly when the user asked for shared inboxes.
\<close>
theorem EnsureNKeySecret_isolation:
  assumes "fst (fst (run_state (EnsureNKeySecret env user) w)) = Inr (pk, ip)"
  shows "ip = [] \<longleftrightarrow> us_insecure_shared_inbox_prefix (u_spec user)"
  using Ensure_isolation [of env user w] assms by (auto simp: wp_def case_prod_beta)

lemma Ensure_same_user: "wp (EnsureNKeySecret env user) (\<lambda>(r, u) w'. same_user user u) w"
proof -
  let ?Q = "\<lambda>(r, u) w'. same_user user u"
  have publish: "wp (publishKeyStatus env user pk ip) ?Q w" for pk ip w
    by (simp add: wp_publish)
  have written: "wp (writeAdopted env user s ip s' b) ?Q w" for s ip s' b w
    unfolding writeAdopted_def wp_bind by (rule wp_any) (intro wp_cases publish; simp)
  have "wp (adoptSecret env user s) ?Q w" for s w
    unfolding adoptSecret_def wp_bind by (rule wp_any) (intro wp_cases written; simp)
  moreover have "wp (createSecret env user) ?Q w" for w
    unfolding createSecret_def wp_bind
    apply (rule wp_any)
    apply (intro wp_sum wp_pair)
     apply simp
    apply (simp only: prod.case wp_bind)
    apply (rule wp_any)
    apply (intro wp_cases)
      apply (simp_all add: CreateSecret_def publish split: option.split)
    done
  ultimately show ?thesis
    unfolding EnsureNKeySecret_def GetSecret_def wp_bind wp_call by (intro wp_cases) simp_all
qed

text \<open>The key pair is never rewritten, and a Secret is only created where none was found.\<close>

fun keeps_keys :: "goerr + secret \<Rightarrow> event \<Rightarrow> bool" where
  "keeps_keys found (SecretUpdated s _) =
     (case found of Inl _ \<Rightarrow> False
      | Inr s0 \<Rightarrow> secret_key s = secret_key s0 \<and> data_get s NKEY_PUBLIC = data_get s0 NKEY_PUBLIC \<and>
          data_get s NKEY_SEED = data_get s0 NKEY_SEED)"
| "keeps_keys found (SecretCreated _ _) = (case found of Inl err \<Rightarrow> IsNotFound err | Inr _ \<Rightarrow> False)"
| "keeps_keys found KeyGenerated = (case found of Inl err \<Rightarrow> IsNotFound err | Inr _ \<Rightarrow> False)"
| "keeps_keys found _ = True"

definition extends :: "(event \<Rightarrow> bool) \<Rightarrow> world \<Rightarrow> world \<Rightarrow> bool" where
  "extends P w w' = (\<exists>evs. w_trace w' = evs @ w_trace w \<and> list_all P evs)"

lemma extends_refl: "w_trace w' = w_trace w \<Longrightarrow> extends P w w'"
  by (simp add: extends_def)

lemma extends_step: "extends P w w1 \<Longrightarrow> P e \<Longrightarrow> w_trace w' = e # w_trace w1 \<Longrightarrow> extends P w w'"
  unfolding extends_def by (metis append_Cons list.pred_inject(2))

lemma extends_call [simp]:
  "extends P w w1 \<Longrightarrow> P e \<Longrightarrow> extends P w (w1\<lparr>w_trace := e # w_trace w1, w_clock := c\<rparr>)"
  by (rule extends_step) simp_all

lemma extends_call2 [simp]:
  "extends P w w1 \<Longrightarrow> P e \<Longrightarrow> P e' \<Longrightarrow> extends P w (w1\<lparr>w_trace := e # e' # w_trace w1, w_clock := c\<rparr>)"
  using extends_call [OF extends_call [of P w w1 e'], of e c c] by simp

lemma extends_trans: "extends P w w1 \<Longrightarrow> extends P w1 w2 \<Longrightarrow> extends P w w2"
  unfolding extends_def by (metis append.assoc list_all_append)

lemma emits_extends: "emits P m \<Longrightarrow> wp m (\<lambda>_ w'. extends P w w') w"
  unfolding emits_def extends_def wp_def by (metis (mono_tags, lifting) case_prod_beta)

lemma adopt_keeps_keys: "wp (adoptSecret env user s) (\<lambda>_ w'. extends (keeps_keys (Inr s)) w w') w"
proof -
  let ?P = "keeps_keys (Inr s)"
  have written: "wp (writeAdopted env user s ip s' b) (\<lambda>_ w'. extends ?P w w') w1"
    if "extends ?P w w1" "secret_key s' = secret_key s" "\<forall>k. k \<noteq> INBOX_PREFIX \<longrightarrow> data_get s' k = data_get s k"
    for ip s' b and w1 :: world
  proof -
    have P: "?P (SecretUpdated s' x)" for x using that(2,3) by simp
    show ?thesis
      using that(1) P
      by (cases b; cases "e_update_secret env w1 s'")
        (simp_all add: wp_writeAdopted wp_publish del: keeps_keys.simps(1))
  qed
  show ?thesis
    unfolding adoptSecret_def wp_bind
  proof (rule wp_mono [OF wp_adjust])
    fix r :: "goerr + string \<times> secret \<times> bool" and w1 :: world
    assume post: "(w_trace w1 = w_trace w \<or> w_trace w1 = RandomRead 10 # w_trace w) \<and>
        (\<forall>ip s' b. r = Inr (ip, s', b) \<longrightarrow>
           settled user (data_get s NKEY_PUBLIC) ip s' \<and> secret_key s' = secret_key s \<and>
           (\<forall>k. k \<noteq> INBOX_PREFIX \<longrightarrow> data_get s' k = data_get s k) \<and> (\<not> b \<longrightarrow> s' = s))"
    then have "extends ?P w w1"
      using extends_refl [of w1 w ?P] extends_step [OF extends_refl [OF refl], of ?P "RandomRead 10" w1 w] by auto
    with post show "wp (case r of Inl err \<Rightarrow> State_Monad.return (Inl err, user)
        | Inr (ip, s', b) \<Rightarrow> writeAdopted env user s ip s' b) (\<lambda>_ w'. extends ?P w w') w1"
      by (intro wp_sum wp_triple written) auto
  qed
qed

lemma create_keeps_keys: "IsNotFound err \<Longrightarrow> emits (keeps_keys (Inl err)) (createSecret env user)"
  unfolding createSecret_def newSecretData_def resolveInboxPrefix_def publishKeyStatus_def Let_def
    UpdateUserStatus_def CreateSecret_def
  by (intro emits_bind emits_sum emits_prod emits_option emits_if emits_return emits_call
      emits_mono [OF GenerateUserNKey_emits] emits_mono [OF GenerateInboxPrefix_emits]) simp_all

text \<open>
  C17. A pass over a user never loses a key: it writes an existing Secret only with the seed
  and public key it had, and it makes a key and creates a Secret only when reading found none;
  when reading failed for another reason it writes nothing.
\<close>
theorem EnsureNKeySecret_keeps_keys:
  "\<exists>evs. w_trace (snd (run_state (EnsureNKeySecret env user) w)) = evs @ w_trace w \<and>
     list_all (keeps_keys (e_get_secret env w (user_namespace user, user_name user @ ''-nats-nkey''))) evs"
proof -
  let ?k = "(user_namespace user, secretNameOf user)"
  let ?P = "keeps_keys (e_get_secret env w ?k)"
  let ?w1 = "w\<lparr>w_trace := Got KSecret ?k # w_trace w, w_clock := w_clock w + e_latency env w\<rparr>"
  have 1: "extends ?P w ?w1"
    by (rule extends_step [OF extends_refl [OF refl]]) simp_all
  have "wp (EnsureNKeySecret env user) (\<lambda>_ w'. extends ?P w w') w"
  proof (cases "e_get_secret env w ?k")
    case (Inr s)
    have "wp (adoptSecret env user s) (\<lambda>_ w'. extends ?P w w') ?w1"
      by (rule wp_mono [OF adopt_keeps_keys]) (use 1 Inr in \<open>auto intro: extends_trans\<close>)
    with Inr show ?thesis by (simp add: EnsureNKeySecret_def GetSecret_def)
  next
    case (Inl err)
    have "wp (createSecret env user) (\<lambda>_ w'. extends ?P w w') ?w1" if "IsNotFound err"
      by (rule wp_mono [OF emits_extends [OF create_keeps_keys [OF that]]])
        (use 1 Inl in \<open>auto intro: extends_trans\<close>)
    with Inl 1 show ?thesis by (simp add: EnsureNKeySecret_def GetSecret_def)
  qed
  then show ?thesis
    by (simp add: wp_def case_prod_beta extends_def secretNameOf_def)
qed

section \<open>Examples\<close>

text \<open>An API server on which only the operator writes Secrets, empty at first, and a user.\<close>

definition secrets_env :: env where
  "secrets_env = null_env\<lparr>e_get_secret := \<lambda>w k. stored k (Inl not_found) (w_trace w)\<rparr>"

definition example_user :: "string \<Rightarrow> string \<Rightarrow> nats_user" where
  "example_user ns n =
     \<lparr>u_meta = \<lparr>meta_name = n, meta_namespace = ns, meta_generation = 1\<rparr>,
      u_spec = \<lparr>us_account_ref = \<lparr>nor_name = ''acc'', nor_namespace = []\<rparr>, us_inbox_prefix = None,
                us_insecure_shared_inbox_prefix = False, us_permissions = None\<rparr>,
      u_status = \<lparr>ust_conditions = [], ust_nkey_public_key = [], ust_secret_ref = None,
                  ust_debug_command = [], ust_connection_urls = [], ust_is_system_account = False\<rparr>\<rparr>"

lemma stored_key: "stored k (Inl e) es = Inr s \<Longrightarrow> secret_key s = k"
  by (induction k "Inl e :: goerr + secret" es rule: stored.induct) (auto split: if_splits)

lemma example_first_pass:
  "fst (fst (run_state (EnsureNKeySecret secrets_env (example_user ''ns'' ''u'')) start_world)) =
     Inr (''UKEY'', ''_I_AAAAAAAAAAAAAAAA'')"
  by code_simp

theorem EnsureNKeySecret_isolation_witness:
  "''_I_AAAAAAAAAAAAAAAA'' = ([] :: string) \<longleftrightarrow>
     us_insecure_shared_inbox_prefix (u_spec (example_user ''ns'' ''u''))"
  by (rule EnsureNKeySecret_isolation [OF example_first_pass])


end
