(* ===== verification/ReconcileUsers.thy ===== *)
theory ReconcileUsers
  imports NatsConvert UserRules NKeySecrets
begin

text \<open>
  The account and user half of \<open>internal/controller/natscluster_controller.go\<close>:
  \<open>reconcileAccountsAndUsers\<close> and the helpers it calls. It decides which users an account
  gets, gives each of them a key, and writes the status of every account and user it saw. The source
  mutates the elements of the two slices it was given; here the operations return them.
\<close>

section \<open>Conditions and debug commands\<close>

text \<open>What the operator found out about itself at start-up.\<close>

record operator_identity =
  oi_namespace :: string
  oi_deployment :: string

definition buildDebugCommand :: "operator_identity \<Rightarrow> string \<Rightarrow> string" where
  "buildDebugCommand r bareCmd =
     (if oi_deployment r \<noteq> [] \<and> oi_namespace r \<noteq> []
      then ''kubectl exec -it deploy/'' @ oi_deployment r @ '' -n '' @ oi_namespace r @ '' -- ''
           @ [BS] @ NL @ ''  '' @ bareCmd
      else bareCmd)"

definition readyCondition :: "string \<Rightarrow> string \<Rightarrow> string \<Rightarrow> int \<Rightarrow> condition" where
  "readyCondition status reason message generation =
     \<lparr>cond_type = ConditionReady, cond_status = status, cond_reason = reason,
      cond_message = message, cond_observed = generation\<rparr>"

definition setClusterCondition ::
  "env \<Rightarrow> nats_cluster \<Rightarrow> string \<Rightarrow> string \<Rightarrow> string \<Rightarrow> (goerr option \<times> nats_cluster) io" where
  "setClusterCondition env cluster status reason message =
     (let cluster' = cluster\<lparr>cl_status := (cl_status cluster)
            \<lparr>cst_conditions := e_set_condition env (cst_conditions (cl_status cluster))
               (readyCondition status reason message (meta_generation (cl_meta cluster)))\<rparr>\<rparr>
      in do {
        err \<leftarrow> UpdateClusterStatus env cluster';
        State_Monad.return (err, cluster')
      })"

definition setAccountCondition ::
  "env \<Rightarrow> nats_account \<Rightarrow> string \<Rightarrow> string \<Rightarrow> string \<Rightarrow> (goerr option \<times> nats_account) io" where
  "setAccountCondition env account status reason message =
     (let account' = account\<lparr>ac_status := (ac_status account)
            \<lparr>ast_conditions := e_set_condition env (ast_conditions (ac_status account))
               (readyCondition status reason message (meta_generation (ac_meta account)))\<rparr>\<rparr>
      in do {
        err \<leftarrow> UpdateAccountStatus env account';
        State_Monad.return (err, account')
      })"

definition setUserCondition ::
  "env \<Rightarrow> nats_user \<Rightarrow> string \<Rightarrow> string \<Rightarrow> string \<Rightarrow> (goerr option \<times> nats_user) io" where
  "setUserCondition env user status reason message =
     (let user' = user\<lparr>u_status := (u_status user)
            \<lparr>ust_conditions := e_set_condition env (ust_conditions (u_status user))
               (readyCondition status reason message (meta_generation (u_meta user)))\<rparr>\<rparr>
      in do {
        err \<leftarrow> UpdateUserStatus env user';
        State_Monad.return (err, user')
      })"

section \<open>One user of an account\<close>

definition effectiveAccountNamespace :: "nats_user \<Rightarrow> string" where
  "effectiveAccountNamespace user =
     (let accountNs = nor_namespace (us_account_ref (u_spec user)) in
      if accountNs = [] then user_namespace user else accountNs)"

definition userReferencesAccount :: "nats_user \<Rightarrow> nats_account \<Rightarrow> bool" where
  "userReferencesAccount user acct =
     (nor_name (us_account_ref (u_spec user)) = account_name acct \<and>
      effectiveAccountNamespace user = account_namespace acct)"

definition userDebugCommand :: "nats_cluster \<Rightarrow> string \<Rightarrow> string" where
  "userDebugCommand cluster publicKey =
     ''/nats-debug user-connections '' @ [BS] @ NL @ ''  --cluster '' @ cluster_name cluster
     @ '' --namespace '' @ cluster_namespace cluster @ '' --nkey '' @ publicKey"

definition accountDebugCommand :: "nats_cluster \<Rightarrow> string \<Rightarrow> string" where
  "accountDebugCommand cluster name =
     ''/nats-debug account-connections '' @ [BS] @ NL @ ''  --cluster '' @ cluster_name cluster
     @ '' --namespace '' @ cluster_namespace cluster @ '' --account '' @ name"

text \<open>The three status fields of a user that has been let in, set before its condition.\<close>

definition stampUser ::
  "operator_identity \<Rightarrow> nats_cluster \<Rightarrow> string \<Rightarrow> nats_account \<Rightarrow> string \<Rightarrow> nats_user \<Rightarrow> nats_user" where
  "stampUser oid cluster systemAccountName acct publicKey user =
     user\<lparr>u_status := (u_status user)
       \<lparr>ust_debug_command :=
          (if cs_server_ref (cl_spec cluster) \<noteq> None
           then buildDebugCommand oid (userDebugCommand cluster publicKey)
           else ust_debug_command (u_status user)),
        ust_connection_urls := cs_external_urls (cl_spec cluster),
        ust_is_system_account := (systemAccountName \<noteq> [] \<and> account_name acct = systemAccountName)\<rparr>\<rparr>"

text \<open>
  The body of the inner loop: what it appends to \<open>usersWithKeys\<close>, whether a status update
  failed, and the user. An error of the key manager ends the whole pass.
\<close>

definition reconcileUser ::
  "env \<Rightarrow> operator_identity \<Rightarrow> nats_cluster \<Rightarrow> string \<Rightarrow> nats_account \<Rightarrow> nats_user \<Rightarrow>
     ((goerr + user_with_public_key list) \<times> bool \<times> nats_user) io" where
  "reconcileUser env oid cluster systemAccountName acct user =
     (if \<not> userReferencesAccount user acct then State_Monad.return (Inr [], False, user)
      else do {
        allowed \<leftarrow> Evaluate env (GetNamespace env) (as_user_rules (ac_spec acct))
                    (user_namespace user) (account_namespace acct);
        (case allowed of
           Inl ruleErr \<Rightarrow>
             do {
               (condErr, user') \<leftarrow> setUserCondition env user ConditionFalse ReasonNamespaceFetchError
                 (''error evaluating user rules for namespace '' @ Quote (e_printable env) (user_namespace user)
                  @ '': '' @ emsg ruleErr);
               State_Monad.return (Inr [], condErr \<noteq> None, user')
             }
         | Inr False \<Rightarrow>
             do {
               (condErr, user') \<leftarrow> setUserCondition env user ConditionFalse ReasonNamespaceNotAllowed
                 (''namespace '' @ Quote (e_printable env) (user_namespace user) @ '' not allowed by account ''
                  @ Quote (e_printable env) (account_name acct) @ '' userRules'');
               State_Monad.return (Inr [], condErr \<noteq> None, user')
             }
         | Inr True \<Rightarrow>
             do {
               (keys, user1) \<leftarrow> EnsureNKeySecret env user;
               (case keys of
                  Inl nkeyErr \<Rightarrow> State_Monad.return (Inl nkeyErr, False, user1)
                | Inr (publicKey, inboxPrefix) \<Rightarrow>
                    do {
                      (condErr, user2) \<leftarrow>
                        setUserCondition env (stampUser oid cluster systemAccountName acct publicKey user1)
                          ConditionTrue ReasonReconciled ''User reconciled successfully'';
                      State_Monad.return
                        (Inr [\<lparr>uwk_user = user2, uwk_public_key = publicKey, uwk_inbox_prefix = inboxPrefix\<rparr>],
                         condErr \<noteq> None, user2)
                    })
             })
      })"

fun reconcileUsers ::
  "env \<Rightarrow> operator_identity \<Rightarrow> nats_cluster \<Rightarrow> string \<Rightarrow> nats_account \<Rightarrow> nats_user list \<Rightarrow>
     ((goerr + user_with_public_key list) \<times> bool \<times> nats_user list) io" where
  "reconcileUsers env oid cluster sys acct [] = State_Monad.return (Inr [], False, [])"
| "reconcileUsers env oid cluster sys acct (user # users) =
     do {
       (r, failed, user') \<leftarrow> reconcileUser env oid cluster sys acct user;
       (case r of
          Inl err \<Rightarrow> State_Monad.return (Inl err, failed, user' # users)
        | Inr added \<Rightarrow>
            do {
              (r', failed', users') \<leftarrow> reconcileUsers env oid cluster sys acct users;
              State_Monad.return (map_sum id ((@) added) r', failed \<or> failed', user' # users')
            })
     }"

section \<open>All accounts\<close>

definition systemAccountNameOf :: "nats_account list \<Rightarrow> string" where
  "systemAccountNameOf accounts =
     (let systemFlagged = map account_name (filter (\<lambda>a. as_system_account (ac_spec a)) accounts) in
      if length systemFlagged = 1 then systemFlagged ! 0 else [])"

definition finishAccount ::
  "operator_identity \<Rightarrow> nats_cluster \<Rightarrow> nats_account \<Rightarrow> nat \<Rightarrow> nats_account" where
  "finishAccount oid cluster acct n =
     acct\<lparr>ac_status := (ac_status acct)
       \<lparr>ast_user_count := n,
        ast_debug_command :=
          (if cs_server_ref (cl_spec cluster) \<noteq> None
           then buildDebugCommand oid (accountDebugCommand cluster (account_name acct))
           else ast_debug_command (ac_status acct))\<rparr>\<rparr>"

definition reconcileAccount ::
  "env \<Rightarrow> operator_identity \<Rightarrow> nats_cluster \<Rightarrow> string \<Rightarrow> nats_account \<Rightarrow> nats_user list \<Rightarrow>
     ((goerr + account_with_users list) \<times> bool \<times> nats_account \<times> nats_user list) io" where
  "reconcileAccount env oid cluster sys acct allUsers =
     (case ValidateRegexRules env (as_user_rules (ac_spec acct)) of
        Some err \<Rightarrow>
          do {
            (condErr, acct') \<leftarrow> setAccountCondition env acct ConditionFalse ReasonInvalidRegex (emsg err);
            State_Monad.return (Inr [], condErr \<noteq> None, acct', allUsers)
          }
      | None \<Rightarrow>
          do {
            (r, failed, allUsers') \<leftarrow> reconcileUsers env oid cluster sys acct allUsers;
            (case r of
               Inl err \<Rightarrow> State_Monad.return (Inl err, failed, acct, allUsers')
             | Inr unsorted \<Rightarrow>
                 do {
                   let usersWithKeys = sort_key (\<lambda>u. user_name (uwk_user u)) unsorted;
                   (condErr, acct') \<leftarrow>
                     setAccountCondition env (finishAccount oid cluster acct (length usersWithKeys))
                       ConditionTrue ReasonReconciled ''Account reconciled successfully'';
                   State_Monad.return
                     (Inr [\<lparr>awu_account = acct', awu_users = usersWithKeys\<rparr>],
                      failed \<or> condErr \<noteq> None, acct', allUsers')
                 })
          })"

fun reconcileAccounts ::
  "env \<Rightarrow> operator_identity \<Rightarrow> nats_cluster \<Rightarrow> string \<Rightarrow> nats_account list \<Rightarrow> nats_user list \<Rightarrow>
     ((goerr + account_with_users list) \<times> bool \<times> nats_account list) io" where
  "reconcileAccounts env oid cluster sys [] allUsers = State_Monad.return (Inr [], False, [])"
| "reconcileAccounts env oid cluster sys (acct # accts) allUsers =
     do {
       (r, failed, acct', allUsers') \<leftarrow> reconcileAccount env oid cluster sys acct allUsers;
       (case r of
          Inl err \<Rightarrow> State_Monad.return (Inl err, failed, acct' # accts)
        | Inr added \<Rightarrow>
            do {
              (r', failed', accts') \<leftarrow> reconcileAccounts env oid cluster sys accts allUsers';
              State_Monad.return (map_sum id ((@) added) r', failed \<or> failed', acct' # accts')
            })
     }"

text \<open>The number of users is the sum over the accounts that made it.\<close>

definition reconcileAccountsAndUsers ::
  "env \<Rightarrow> operator_identity \<Rightarrow> nats_cluster \<Rightarrow> nats_account list \<Rightarrow> nats_user list \<Rightarrow>
     ((goerr + account_with_users list \<times> nat) \<times> bool \<times> nats_account list) io" where
  "reconcileAccountsAndUsers env oid cluster accounts allUsers =
     do {
       (r, failed, accounts') \<leftarrow>
         reconcileAccounts env oid cluster (systemAccountNameOf accounts) accounts allUsers;
       State_Monad.return
         (map_sum id (\<lambda>awus. (awus, foldl (\<lambda>n awu. n + length (awu_users awu)) 0 awus)) r, failed, accounts')
     }"

section \<open>Who is let in\<close>

text \<open>
  A pass changes statuses only. Two lists of users with the same metadata and specs are the same
  for every decision, so the specification compares the resources without their status.
\<close>

definition bare_user :: "nats_user \<Rightarrow> nats_user" where
  "bare_user u = u\<lparr>u_status := \<lparr>ust_conditions = [], ust_nkey_public_key = [], ust_secret_ref = None,
     ust_debug_command = [], ust_connection_urls = [], ust_is_system_account = False\<rparr>\<rparr>"

definition bare_account :: "nats_account \<Rightarrow> nats_account" where
  "bare_account a = a\<lparr>ac_status := \<lparr>ast_conditions = [], ast_user_count = 0, ast_debug_command = []\<rparr>\<rparr>"

lemma bare_user_same:
  "bare_user u = bare_user v \<longleftrightarrow> u_meta u = u_meta v \<and> u_spec u = u_spec v"
  by (cases u; cases v) (auto simp: bare_user_def)

lemma bare_account_same:
  "bare_account a = bare_account b \<longleftrightarrow> ac_meta a = ac_meta b \<and> ac_spec a = ac_spec b"
  by (cases a; cases b) (auto simp: bare_account_def)

lemma bare_sel [simp]:
  "u_meta (bare_user u) = u_meta u" "u_spec (bare_user u) = u_spec u"
  "ac_meta (bare_account a) = ac_meta a" "ac_spec (bare_account a) = ac_spec a"
  by (simp_all add: bare_user_def bare_account_def)

text \<open>The users an account gets: they name it, and its rules grant it to their namespace.\<close>

definition granted ::
  "env \<Rightarrow> (string \<Rightarrow> goerr + namespace_object) \<Rightarrow> nats_account \<Rightarrow> nats_user \<Rightarrow> bool" where
  "granted env view acct user \<longleftrightarrow> userReferencesAccount user acct \<and>
     decision env view (as_user_rules (ac_spec acct)) (user_namespace user) (account_namespace acct) = Inr True"

definition members ::
  "env \<Rightarrow> (string \<Rightarrow> goerr + namespace_object) \<Rightarrow> nats_user list \<Rightarrow> nats_account \<Rightarrow> nats_user list" where
  "members env view users acct = sort_key user_name (filter (granted env view acct) users)"

lemma granted_bare [simp]: "granted env view acct (bare_user u) = granted env view acct u"
  by (simp add: granted_def userReferencesAccount_def effectiveAccountNamespace_def Let_def)

lemma insort_key_map: "insort_key f (g x) (map g xs) = map g (insort_key (\<lambda>y. f (g y)) x xs)"
  by (induction xs) auto

lemma sort_key_map: "sort_key f (map g xs) = map g (sort_key (\<lambda>y. f (g y)) xs)"
  by (induction xs) (simp_all add: insort_key_map)

lemma map_bare_filter:
  assumes "map bare_user us = map bare_user vs"
  shows "map bare_user (filter (granted env view acct) us) = map bare_user (filter (granted env view acct) vs)"
proof -
  have "map bare_user (filter (granted env view acct) us) = filter (granted env view acct) (map bare_user us)" for us
    by (simp add: filter_map comp_def)
  then show ?thesis using assms by metis
qed

lemma map_bare_sort:
  assumes "map bare_user us = map bare_user vs"
  shows "map bare_user (sort_key user_name us) = map bare_user (sort_key user_name vs)"
proof -
  have "map bare_user (sort_key user_name us) = sort_key user_name (map bare_user us)" for us
    by (simp add: sort_key_map comp_def)
  then show ?thesis using assms by metis
qed

lemma map_bare_members:
  assumes "map bare_user us = map bare_user vs"
  shows "map bare_user (members env view us acct) = map bare_user (members env view vs acct)"
  unfolding members_def by (intro map_bare_sort map_bare_filter assms)

text \<open>A user entry is sound when its prefix is isolated unless its spec says otherwise.\<close>

definition isolated_entry :: "user_with_public_key \<Rightarrow> bool" where
  "isolated_entry x \<longleftrightarrow>
     (uwk_inbox_prefix x = [] \<longleftrightarrow> us_insecure_shared_inbox_prefix (u_spec (uwk_user x)))"

lemma wp_setUser:
  "wp (setUserCondition env user st rs ms) Q w \<longleftrightarrow>
     (let user' = user\<lparr>u_status := (u_status user)
            \<lparr>ust_conditions := e_set_condition env (ust_conditions (u_status user))
               (readyCondition st rs ms (meta_generation (u_meta user)))\<rparr>\<rparr>;
          err = e_update_user_status env w user' in
      Q (err, user') (w\<lparr>w_trace := UserStatusUpdated user' err # w_trace w,
                        w_clock := w_clock w + e_latency env w\<rparr>))"
  by (simp add: setUserCondition_def Let_def UpdateUserStatus_def)

lemma wp_setAccount:
  "wp (setAccountCondition env a st rs ms) Q w \<longleftrightarrow>
     (let a' = a\<lparr>ac_status := (ac_status a)
            \<lparr>ast_conditions := e_set_condition env (ast_conditions (ac_status a))
               (readyCondition st rs ms (meta_generation (ac_meta a)))\<rparr>\<rparr>;
          err = e_update_account_status env w a' in
      Q (err, a') (w\<lparr>w_trace := AccountStatusUpdated a' err # w_trace w,
                     w_clock := w_clock w + e_latency env w\<rparr>))"
  by (simp add: setAccountCondition_def Let_def UpdateAccountStatus_def)

lemma same_user_bare: "same_user user u \<Longrightarrow> u_meta u = u_meta user \<and> u_spec u = u_spec user"
  by (simp add: same_user_def)

lemma stampUser_sel [simp]:
  "u_meta (stampUser oid cluster sys acct pk user) = u_meta user"
  "u_spec (stampUser oid cluster sys acct pk user) = u_spec user"
  by (simp_all add: stampUser_def)

definition user_post ::
  "env \<Rightarrow> (string \<Rightarrow> goerr + namespace_object) \<Rightarrow> nats_account \<Rightarrow> nats_user list \<Rightarrow>
     (goerr + user_with_public_key list) \<Rightarrow> nats_user list \<Rightarrow> bool" where
  "user_post env view acct users r users' \<longleftrightarrow>
     map bare_user users' = map bare_user users \<and>
     (\<forall>added. r = Inr added \<longrightarrow>
        list_all isolated_entry added \<and>
        (namespaces_stable env view \<longrightarrow>
           map (bare_user \<circ> uwk_user) added = map bare_user (filter (granted env view acct) users)))"

lemma Evaluate_stable:
  "wp (Evaluate env (GetNamespace env) rules un an)
     (\<lambda>r _. namespaces_stable env view \<longrightarrow> r = decision env view rules un an) w"
  by (cases "namespaces_stable env view") (auto intro: wp_mono [OF Evaluate_client])

lemma reconcileUser_post:
  "wp (reconcileUser env oid cluster sys acct user)
    (\<lambda>(r, failed, user') _. user_post env view acct [user] r [user']) w"
proof -
  let ?Q = "\<lambda>(r, failed, user') _. user_post env view acct [user] r [user']"
  have key: "wp (EnsureNKeySecret env user) (\<lambda>(r, u) w'. same_user user u \<and>
      (\<forall>pk ip. r = Inr (pk, ip) \<longrightarrow> (ip = [] \<longleftrightarrow> us_insecure_shared_inbox_prefix (u_spec user)))) w1" for w1
    using wp_conj [OF Ensure_same_user Ensure_isolation, of env user w1]
    by (rule wp_mono) auto
  have rejected: "wp (setUserCondition env user st rs ms \<bind>
      (\<lambda>(c, u). State_Monad.return (Inr [], c \<noteq> None, u))) ?Q w1"
    if "namespaces_stable env view \<longrightarrow> \<not> granted env view acct user" for st rs ms w1
    using that by (simp add: wp_setUser Let_def user_post_def bare_user_same)
  have admitted: "wp (setUserCondition env (stampUser oid cluster sys acct pk u1) st rs ms \<bind>
      (\<lambda>(c, u). State_Monad.return
        (Inr [\<lparr>uwk_user = u, uwk_public_key = pk, uwk_inbox_prefix = ip\<rparr>], c \<noteq> None, u))) ?Q w1"
    if "same_user user u1" "ip = [] \<longleftrightarrow> us_insecure_shared_inbox_prefix (u_spec user)"
      "namespaces_stable env view \<longrightarrow> granted env view acct user" for u1 pk ip st rs ms w1
    using same_user_bare [OF that(1)] that(2,3)
    by (simp add: wp_setUser Let_def user_post_def bare_user_same isolated_entry_def)
  show ?thesis
  proof (cases "userReferencesAccount user acct")
    case False
    then show ?thesis
      by (simp add: reconcileUser_def user_post_def granted_def)
  next
    case True
    have granted: "granted env view acct user \<longleftrightarrow>
        decision env view (as_user_rules (ac_spec acct)) (user_namespace user) (account_namespace acct) = Inr True"
      using True by (simp add: granted_def)
    show ?thesis
      unfolding reconcileUser_def
      apply (simp only: True not_True_eq_False if_False wp_bind)
      apply (rule wp_mono [OF Evaluate_stable [where view = view]])
      apply (rule wp_sum)
      subgoal for r s e
        using granted by (intro rejected) (metis sum.distinct(1))
      subgoal for r s b
      proof (cases b)
        case True
        assume "namespaces_stable env view \<longrightarrow>
            r = decision env view (as_user_rules (ac_spec acct)) (user_namespace user) (account_namespace acct)" "r = Inr b"
        then show ?thesis
          apply (simp only: True bool.case wp_bind)
          apply (rule wp_mono [OF key])
          apply (rule wp_pair)
          apply (simp only: prod.case wp_bind)
          apply (rule wp_sum)
          subgoal
            by (auto simp: user_post_def bare_user_same dest: same_user_bare)
          subgoal
            apply (rule wp_pair)
            apply (simp only: prod.case)
            apply (rule admitted)
              apply simp
             apply simp
            using granted apply simp
            done
          done
      next
        case False
        assume "namespaces_stable env view \<longrightarrow>
            r = decision env view (as_user_rules (ac_spec acct)) (user_namespace user) (account_namespace acct)" "r = Inr b"
        with False granted show ?thesis
          apply (simp only: False bool.case)
          by (intro rejected) (metis sum.inject(2))
      qed
      done
  qed
qed

lemma user_post_Cons:
  assumes "user_post env view acct [u] (Inr added) [u']" "user_post env view acct us r us'"
  shows "user_post env view acct (u # us) (map_sum id ((@) added) r) (u' # us')"
  using assms by (cases r) (auto simp: user_post_def)

lemma reconcileUsers_post:
  "wp (reconcileUsers env oid cluster sys acct users)
    (\<lambda>(r, failed, users') _. user_post env view acct users r users') w"
proof (induction users arbitrary: w)
  case Nil
  then show ?case by (simp add: user_post_def)
next
  case (Cons u us)
  show ?case
    unfolding reconcileUsers.simps wp_bind
    apply (rule wp_mono [OF reconcileUser_post [where view = view]])
    apply (rule wp_triple)
    apply (rule wp_sum)
    subgoal by (auto simp: user_post_def)
    subgoal
      unfolding wp_bind
      apply (rule wp_mono [OF Cons.IH])
      apply (rule wp_triple)
      apply (auto intro: user_post_Cons)
      done
    done
qed

text \<open>What one account contributes, and what all of them do, up to statuses.\<close>

definition roster ::
  "env \<Rightarrow> (string \<Rightarrow> goerr + namespace_object) \<Rightarrow> nats_user list \<Rightarrow> nats_account list \<Rightarrow>
     (nats_account \<times> nats_user list) list" where
  "roster env view users accts =
     map (\<lambda>a. (a, members env view users a))
       (filter (\<lambda>a. ValidateRegexRules env (as_user_rules (ac_spec a)) = None) accts)"

definition bare_awu :: "account_with_users \<Rightarrow> nats_account \<times> nats_user list" where
  "bare_awu x = (bare_account (awu_account x), map (bare_user \<circ> uwk_user) (awu_users x))"

definition bare_entry :: "nats_account \<times> nats_user list \<Rightarrow> nats_account \<times> nats_user list" where
  "bare_entry = map_prod bare_account (map bare_user)"

definition account_post ::
  "env \<Rightarrow> (string \<Rightarrow> goerr + namespace_object) \<Rightarrow> nats_account list \<Rightarrow> nats_user list \<Rightarrow>
     (goerr + account_with_users list) \<Rightarrow> nats_account list \<Rightarrow> bool" where
  "account_post env view accts users r accts' \<longleftrightarrow>
     map bare_account accts' = map bare_account accts \<and>
     (\<forall>added. r = Inr added \<longrightarrow>
        list_all (\<lambda>x. list_all isolated_entry (awu_users x)) added \<and>
        (namespaces_stable env view \<longrightarrow> map bare_awu added = map bare_entry (roster env view users accts)))"

lemma members_entries:
  assumes "user_post env view acct users (Inr unsorted) users'"
  shows "namespaces_stable env view \<Longrightarrow>
      map (bare_user \<circ> uwk_user) (sort_key (\<lambda>u. user_name (uwk_user u)) unsorted) =
      map bare_user (members env view users acct)"
    and "list_all isolated_entry (sort_key (\<lambda>u. user_name (uwk_user u)) unsorted)"
proof -
  have "map uwk_user (sort_key (\<lambda>u. user_name (uwk_user u)) unsorted) = sort_key user_name (map uwk_user unsorted)"
    by (simp add: sort_key_map)
  moreover have "map bare_user (sort_key user_name (map uwk_user unsorted)) = map bare_user (members env view users acct)"
    if "namespaces_stable env view"
    unfolding members_def using assms that by (intro map_bare_sort) (simp add: user_post_def)
  ultimately show "namespaces_stable env view \<Longrightarrow> map (bare_user \<circ> uwk_user) (sort_key (\<lambda>u. user_name (uwk_user u)) unsorted) =
      map bare_user (members env view users acct)"
    by (metis map_map)
  show "list_all isolated_entry (sort_key (\<lambda>u. user_name (uwk_user u)) unsorted)"
    using assms by (simp add: user_post_def list_all_iff)
qed

lemma finishAccount_sel [simp]:
  "ac_meta (finishAccount oid cluster a n) = ac_meta a" "ac_spec (finishAccount oid cluster a n) = ac_spec a"
  by (simp_all add: finishAccount_def)

lemma reconcileAccount_post:
  "wp (reconcileAccount env oid cluster sys acct users)
    (\<lambda>(r, failed, acct', users') _. account_post env view [acct] users r [acct'] \<and>
       map bare_user users' = map bare_user users) w"
proof (cases "ValidateRegexRules env (as_user_rules (ac_spec acct))")
  case (Some err)
  then show ?thesis
    by (simp add: reconcileAccount_def wp_setAccount Let_def account_post_def bare_account_same roster_def)
next
  case None
  have done_post: "account_post env view [acct] users
      (Inr [\<lparr>awu_account = acct', awu_users = sort_key (\<lambda>u. user_name (uwk_user u)) unsorted\<rparr>]) [acct']"
    if "user_post env view acct users (Inr unsorted) us" "ac_meta acct' = ac_meta acct" "ac_spec acct' = ac_spec acct"
    for unsorted us acct'
    using members_entries [OF that(1)] that(2,3) None
    by (simp add: account_post_def roster_def bare_awu_def bare_entry_def bare_account_same)
  show ?thesis
    unfolding reconcileAccount_def None option.case wp_bind
    apply (rule wp_mono [OF reconcileUsers_post [where view = view]])
    apply (rule wp_triple)
    apply (rule wp_sum)
    subgoal by (auto simp: user_post_def account_post_def)
    subgoal for r s a b c e
      apply (simp add: wp_setAccount Let_def)
      apply (rule conjI)
       apply (rule done_post)
      apply (auto simp: user_post_def)
      done
    done
qed

lemma account_post_Cons:
  assumes "account_post env view [a] users (Inr added) [a']"
    and "account_post env view as users r as'"
  shows "account_post env view (a # as) users (map_sum id ((@) added) r) (a' # as')"
  using assms by (cases r) (auto simp: account_post_def roster_def)

lemma account_post_users:
  assumes "account_post env view as users' r as'" "map bare_user users' = map bare_user users"
  shows "account_post env view as users r as'"
proof -
  have "map bare_entry (roster env view users' as) = map bare_entry (roster env view users as)"
    using map_bare_members [OF assms(2)] by (simp add: roster_def bare_entry_def)
  then show ?thesis using assms(1) by (simp add: account_post_def)
qed

lemma reconcileAccounts_post:
  "wp (reconcileAccounts env oid cluster sys accts users)
    (\<lambda>(r, failed, accts') _. account_post env view accts users r accts') w"
proof (induction accts arbitrary: users w)
  case Nil
  then show ?case by (simp add: account_post_def roster_def)
next
  case (Cons a as)
  show ?case
    unfolding reconcileAccounts.simps wp_bind
    apply (rule wp_mono [OF reconcileAccount_post [where view = view]])
    apply (rule wp_pair, rule wp_triple)
    apply (rule wp_sum)
    subgoal by (auto simp: account_post_def)
    subgoal
      unfolding wp_bind
      apply (rule wp_mono [OF Cons.IH])
      apply (rule wp_triple)
      apply (auto intro: account_post_Cons account_post_users)
      done
    done
qed

lemma foldl_total: "foldl (\<lambda>n x. n + f x) k xs = k + sum_list (map f xs)" for k :: nat
  by (induction xs arbitrary: k) simp_all

lemma reconcileAccountsAndUsers_post:
  "wp (reconcileAccountsAndUsers env oid cluster accts users)
    (\<lambda>(r, failed, accts') _.
       map bare_account accts' = map bare_account accts \<and>
       (\<forall>awus total. r = Inr (awus, total) \<longrightarrow>
          list_all (\<lambda>x. list_all isolated_entry (awu_users x)) awus \<and>
          (namespaces_stable env view \<longrightarrow> map bare_awu awus = map bare_entry (roster env view users accts)) \<and>
          total = sum_list (map (length \<circ> awu_users) awus))) w"
  unfolding reconcileAccountsAndUsers_def wp_bind
  by (rule wp_mono [OF reconcileAccounts_post [where view = view]], rule wp_triple)
    (auto simp: account_post_def map_sum_Inr_iff foldl_total comp_def)

section \<open>Failed status updates are reported\<close>

fun status_failure :: "event \<Rightarrow> bool" where
  "status_failure (UserStatusUpdated _ e) = (e \<noteq> None)"
| "status_failure (AccountStatusUpdated _ e) = (e \<noteq> None)"
| "status_failure _ = False"

definition reported :: "bool \<Rightarrow> world \<Rightarrow> world \<Rightarrow> bool" where
  "reported failed w w' =
     (\<exists>evs. w_trace w' = evs @ w_trace w \<and> (failed \<longleftrightarrow> list_ex status_failure evs))"

lemma reported_refl: "w_trace w' = w_trace w \<Longrightarrow> reported False w w'"
  by (simp add: reported_def)

lemma reported_trans:
  assumes "reported b w w1" "reported b' w1 w2"
  shows "reported (b \<or> b') w w2"
proof -
  obtain e1 e2 where "w_trace w1 = e1 @ w_trace w" "b \<longleftrightarrow> list_ex status_failure e1"
    "w_trace w2 = e2 @ w_trace w1" "b' \<longleftrightarrow> list_ex status_failure e2"
    using assms by (auto simp: reported_def)
  then show ?thesis unfolding reported_def by (intro exI [of _ "e2 @ e1"]) auto
qed

lemma reported_step:
  assumes "reported b w w1" "w_trace w2 = e # w_trace w1" "b' \<longleftrightarrow> b \<or> status_failure e"
  shows "reported b' w w2"
  using reported_trans [OF assms(1), of "status_failure e" w2] assms(2,3) by (simp add: reported_def)

lemma emits_reported: "emits P m \<Longrightarrow> (\<And>e. P e \<Longrightarrow> \<not> status_failure e) \<Longrightarrow> wp m (\<lambda>_ w'. reported False w w') w"
  unfolding reported_def
  by (rule wp_mono [OF wp_emits], assumption) (auto simp: list_all_iff list_ex_iff)

lemma reads_no_status: "reads e \<Longrightarrow> \<not> status_failure e"
  by (cases e) auto

lemma reported_call [simp]:
  "reported b w w1 \<Longrightarrow> \<not> status_failure e \<Longrightarrow> reported b w (w1\<lparr>w_trace := e # w_trace w1, w_clock := c\<rparr>)"
  by (rule reported_step) auto

lemma reported_call2 [simp]:
  "reported b w w1 \<Longrightarrow> \<not> status_failure e \<Longrightarrow> \<not> status_failure e' \<Longrightarrow>
   reported b w (w1\<lparr>w_trace := e # e' # w_trace w1, w_clock := c\<rparr>)"
  using reported_call [OF reported_call [of b w w1 e'], of e c c] by simp

lemma reported_random:
  "reported b w w1 \<Longrightarrow> w_trace w2 = w_trace w1 \<or> w_trace w2 = RandomRead n # w_trace w1 \<Longrightarrow> reported b w w2"
  using reported_step [of b w w1 w2 "RandomRead n" b] by (auto simp: reported_def)

lemma Ensure_reported:
  "wp (EnsureNKeySecret env user) (\<lambda>(r, u) w'. \<forall>x. r = Inr x \<longrightarrow> reported False w w') w"
proof -
  let ?Q = "\<lambda>(r :: goerr + string \<times> string, u :: nats_user) w'. \<forall>x. r = Inr x \<longrightarrow> reported False w w'"
  have publish: "wp (publishKeyStatus env user pk ip) ?Q w1" if "reported False w w1" for pk ip w1
    using that by (auto simp: wp_publish split: option.splits)
  have written: "wp (writeAdopted env user s ip s' b) ?Q w1" if "reported False w w1" for s ip s' b w1
    using that by (auto simp: wp_writeAdopted wp_publish Let_def split: option.splits)
  have adopt: "wp (adoptSecret env user s) ?Q w1" if "reported False w w1" for s w1
    unfolding adoptSecret_def wp_bind
    apply (rule wp_mono [OF wp_adjust])
    apply (rule wp_sum)
     apply simp
    apply (rule wp_triple)
    apply (rule written)
    apply (rule reported_random [OF that])
    apply blast
    done
  have stored: "wp (CreateSecret env sec \<bind> (\<lambda>c. case c of Some err \<Rightarrow> State_Monad.return (Inl err, user)
          | None \<Rightarrow> publishKeyStatus env user pk ip)) ?Q w1" if "reported False w w1" for sec pk ip w1
    using that by (auto simp: CreateSecret_def wp_publish split: option.splits)
  have create: "wp (createSecret env user) ?Q w1" if w1: "reported False w w1" for w1
    unfolding createSecret_def wp_bind
    apply (rule wp_mono [OF emits_reported [OF GenerateUserNKey_emits]])
     apply auto[1]
    apply (intro wp_sum wp_pair)
     apply simp
    apply (simp only: prod.case wp_bind)
    apply (rule wp_mono [OF wp_newSecretData])
    apply (intro wp_sum wp_pair)
      apply simp
     apply simp
    apply (rule stored)
    apply (rule reported_random)
     apply (drule reported_trans [OF w1])
     apply simp
    apply blast
    done
  have "reported False w (w\<lparr>w_trace := Got KSecret k # w_trace w, w_clock := c\<rparr>)" for k c
    using reported_call [OF reported_refl [OF refl]] by simp
  then show ?thesis
    unfolding EnsureNKeySecret_def GetSecret_def wp_bind wp_call
    by (intro wp_sum wp_if adopt create) simp_all
qed

text \<open>
  \<open>tells m\<close>: unless the computation fails, the flag it returns says whether one of the
  status updates it made was refused.
\<close>

definition tells :: "((goerr + 'a) \<times> bool \<times> 'b) io \<Rightarrow> bool" where
  "tells m = (\<forall>w. wp m (\<lambda>(r, failed, _) w'. \<forall>x. r = Inr x \<longrightarrow> reported failed w w') w)"

lemma tells_wp: "tells m \<Longrightarrow> wp m (\<lambda>(r, failed, _) w'. \<forall>x. r = Inr x \<longrightarrow> reported failed w w') w"
  by (simp add: tells_def)

lemma reconcileUser_tells: "tells (reconcileUser env oid cluster sys acct user)"
  unfolding tells_def
proof
  fix w
  let ?Q = "\<lambda>(r :: goerr + user_with_public_key list, failed, _ :: nats_user) w'. \<forall>x. r = Inr x \<longrightarrow> reported failed w w'"
  have told: "wp (setUserCondition env u st rs ms \<bind>
      (\<lambda>(c, u). State_Monad.return (f c u, c \<noteq> None, u))) ?Q w1" if "reported False w w1" for u st rs ms f w1
    using that by (auto simp: wp_setUser Let_def intro: reported_step)
  show "wp (reconcileUser env oid cluster sys acct user) ?Q w"
    unfolding reconcileUser_def
    apply (rule wp_if)
     apply (simp add: reported_refl)
    unfolding wp_bind
    apply (rule wp_mono [OF emits_reported [OF client_namespaces.Evaluate_reads reads_no_status]])
     apply assumption
    apply (rule wp_sum)
     apply (rule told, assumption)
    subgoal for r w1 b
    proof (cases b)
      case False
      assume "reported False w w1"
      with False show ?thesis using told by simp
    next
      case True
      assume r: "reported False w w1"
      from True show ?thesis
        apply (simp only: bool.case wp_bind)
        apply (rule wp_mono [OF Ensure_reported])
        apply (rule wp_pair)
        apply (simp only: prod.case)
        apply (rule wp_sum)
         apply simp
        apply (rule wp_pair)
        apply (rule told)
        using reported_trans [OF r] by auto
    qed
    done
qed

lemma reconcileUsers_tells: "tells (reconcileUsers env oid cluster sys acct users)"
proof (induction users)
  case Nil
  then show ?case by (simp add: tells_def reported_refl)
next
  case (Cons u us)
  show ?case
    unfolding tells_def reconcileUsers.simps wp_bind
    apply (rule allI)
    apply (rule wp_mono [OF tells_wp [OF reconcileUser_tells]])
    apply (rule wp_triple)
    apply (rule wp_sum)
     apply simp
    unfolding wp_bind
    apply (rule wp_mono [OF tells_wp [OF Cons.IH]])
    apply (rule wp_triple)
    apply (auto simp: map_sum_Inr_iff intro: reported_trans)
    done
qed

lemma reconcileAccount_tells: "tells (reconcileAccount env oid cluster sys acct users)"
proof (cases "ValidateRegexRules env (as_user_rules (ac_spec acct))")
  case (Some err)
  show ?thesis
    unfolding tells_def reconcileAccount_def Some option.case
    by (auto simp: wp_setAccount Let_def reported_def intro: exI [of _ "[_]"])
next
  case None
  show ?thesis
    unfolding tells_def reconcileAccount_def None option.case wp_bind
    apply (rule allI)
    apply (rule wp_mono [OF tells_wp [OF reconcileUsers_tells]])
    apply (rule wp_triple)
    apply (rule wp_sum)
     apply simp
    apply (auto simp: wp_setAccount Let_def intro: reported_step)
    done
qed

lemma reconcileAccounts_tells: "tells (reconcileAccounts env oid cluster sys accts users)"
proof (induction accts arbitrary: users)
  case Nil
  then show ?case by (simp add: tells_def reported_refl)
next
  case (Cons a as)
  show ?case
    unfolding tells_def reconcileAccounts.simps wp_bind
    apply (rule allI)
    apply (rule wp_mono [OF tells_wp [OF reconcileAccount_tells]])
    apply (rule wp_pair, rule wp_triple)
    apply (rule wp_sum)
     apply simp
    unfolding wp_bind
    apply (rule wp_mono [OF tells_wp [OF Cons.IH]])
    apply (rule wp_triple)
    apply (auto simp: map_sum_Inr_iff intro: reported_trans)
    done
qed

lemma reconcileAccountsAndUsers_tells: "tells (reconcileAccountsAndUsers env oid cluster accts users)"
  unfolding tells_def reconcileAccountsAndUsers_def wp_bind
  apply (rule allI)
  apply (rule wp_mono [OF tells_wp [OF reconcileAccounts_tells]])
  apply (rule wp_triple)
  apply (auto simp: map_sum_Inr_iff)
  done

section \<open>What a pass over the accounts promises\<close>

text \<open>
  C7. Exactly the right users: a pass that succeeds, with namespaces that do not change under it,
  returns one entry per account whose regular expressions compile, in the order of the accounts; the users of
  an entry are those that name the account and are granted it by its rules, sorted by name; the
  total counts them all, whatever keys, statuses or earlier Secrets there are.
\<close>
theorem reconcile_exact_users:
  assumes "\<And>w' n. e_get_namespace env w' n = view n"
    and "fst (fst (run_state (reconcileAccountsAndUsers env oid cluster accts users) w)) = Inr (awus, n)"
  shows "map bare_awu awus =
      map (\<lambda>a. (bare_account a, map bare_user (sort_key user_name (filter (granted env view a) users))))
        (filter (\<lambda>a. ValidateRegexRules env (as_user_rules (ac_spec a)) = None) accts)
    \<and> n = sum_list (map (length \<circ> awu_users) awus)"
proof -
  have "namespaces_stable env view" using assms(1) by (simp add: namespaces_stable_def)
  with reconcileAccountsAndUsers_post [of env oid cluster accts users view w] assms(2)
  show ?thesis
    by (auto simp: wp_def case_prod_beta roster_def bare_entry_def members_def comp_def)
qed

text \<open>
  C15. No refused status update goes unnoticed: a pass that returns accounts reports
  \<open>statusUpdateFailed\<close> exactly when some status update of a user or an account made during it was refused.
\<close>
theorem reconcile_reports_failures:
  assumes "run_state (reconcileAccountsAndUsers env oid cluster accts users) w = ((Inr x, failed, accts'), w')"
  shows "\<exists>evs. w_trace w' = evs @ w_trace w \<and> (failed \<longleftrightarrow> list_ex status_failure evs)"
  using tells_wp [OF reconcileAccountsAndUsers_tells, of env oid cluster accts users w] assms
  by (simp add: wp_def reported_def)

section \<open>A healthy cluster\<close>

text \<open>
  The API server answers and accepts every write, Secrets that exist have a data map, keys and random
  bytes can be had.
\<close>

definition healthy :: "env \<Rightarrow> bool" where
  "healthy env \<longleftrightarrow>
     (\<forall>w k. (\<exists>s m. e_get_secret env w k = Inr s \<and> sec_data s = Some m) \<or>
        (\<exists>e. e_get_secret env w k = Inl e \<and> IsNotFound e)) \<and>
     (\<forall>w s. e_create_secret env w s = None \<and> e_update_secret env w s = None) \<and>
     (\<forall>w u. e_update_user_status env w u = None) \<and> (\<forall>w a. e_update_account_status env w a = None) \<and>
     (\<forall>u s. \<exists>s'. e_set_owner env u s = Inr s') \<and>
     (\<forall>w. \<exists>kp p s. e_create_user env w = Inr kp \<and> kp_public kp = Inr p \<and> kp_seed kp = Inr s) \<and>
     (\<forall>w. \<exists>f. e_random env w = Inr f)"

lemma healthyD:
  assumes "healthy env"
  shows "e_create_secret env w s = None" "e_update_secret env w s = None"
    "e_update_user_status env w u = None" "e_update_account_status env w a = None"
    "\<exists>s'. e_set_owner env u s = Inr s'"
    "\<exists>kp p s. e_create_user env w = Inr kp \<and> kp_public kp = Inr p \<and> kp_seed kp = Inr s"
    "\<exists>f. e_random env w = Inr f"
    "(\<exists>s m. e_get_secret env w k = Inr s \<and> sec_data s = Some m) \<or>
        (\<exists>e. e_get_secret env w k = Inl e \<and> IsNotFound e)"
  using assms unfolding healthy_def by blast+

lemma healthy_resolve:
  assumes "healthy env"
  shows "wp (resolveInboxPrefix env ov) (\<lambda>r _. \<exists>p. r = Inr p) w"
  using healthyD(7) [OF assms, of w]
  by (auto simp: resolveInboxPrefix_def GenerateInboxPrefix_def RandRead_def)

lemma healthy_publish: "healthy env \<Longrightarrow> wp (publishKeyStatus env user pk ip) (\<lambda>(r, _) _. \<exists>x. r = Inr x) w"
  by (simp add: wp_publish healthyD)

lemma healthy_adopt:
  assumes h: "healthy env" and "sec_data s = Some m"
  shows "wp (adoptSecret env user s) (\<lambda>(r, _) _. \<exists>x. r = Inr x) w"
proof -
  have written: "wp (writeAdopted env user s ip s' b) (\<lambda>(r, _) _. \<exists>x. r = Inr x) w1" for ip s' b w1
    by (simp add: wp_writeAdopted Let_def healthyD [OF h] wp_publish)
  have "wp (adjustPrefix env user s) (\<lambda>r _. \<exists>x. r = Inr x) w"
    unfolding adjustPrefix_def Let_def
    using assms(2)
    apply (intro wp_if)
      apply (auto split: option.split)[1]
     apply (simp only: wp_bind wp_return)
     apply (rule wp_mono [OF healthy_resolve [OF h]])
     apply auto
    done
  then show ?thesis
    unfolding adoptSecret_def wp_bind
    by (rule wp_mono) (intro wp_sum wp_triple written; auto)
qed

lemma healthy_create:
  assumes h: "healthy env"
  shows "wp (createSecret env user) (\<lambda>(r, _) _. \<exists>x. r = Inr x) w"
proof -
  have 1: "wp (GenerateUserNKey env) (\<lambda>r _. \<exists>x. r = Inr x) w"
    using healthyD(6) [OF h, of w] by (auto simp: GenerateUserNKey_def CreateUserKey_def)
  have 2: "wp (newSecretData env user pk seed) (\<lambda>r _. \<exists>x. r = Inr x) w1" for pk seed w1
    unfolding newSecretData_def Let_def
    by (rule wp_if) (auto intro: wp_mono [OF healthy_resolve [OF h]])
  have 3: "wp (CreateSecret env sec \<bind> (\<lambda>c. case c of Some err \<Rightarrow> State_Monad.return (Inl err, user)
          | None \<Rightarrow> publishKeyStatus env user pk ip)) (\<lambda>(r, _) _. \<exists>x. r = Inr x) w1" for sec pk ip w1
    by (simp add: CreateSecret_def healthyD [OF h] wp_publish)
  show ?thesis
    unfolding createSecret_def wp_bind
    apply (rule wp_mono [OF 1])
    apply (rule wp_sum)
     apply simp
    apply (rule wp_pair)
    apply (simp only: prod.case wp_bind)
    apply (rule wp_mono [OF 2])
    apply (rule wp_sum)
     apply simp
    apply (rule wp_pair)
    apply (simp only: prod.case)
    apply (rule wp_sum)
    subgoal for r w1 x pk seed d w2 y ip data e
      using healthyD(5) [OF h, of user "\<lparr>sec_name = secretNameOf user, sec_namespace = user_namespace user,
                            sec_data = Some data, sec_owners = []\<rparr>"] by simp
    apply (rule 3)
    done
qed

lemma healthy_Ensure:
  assumes "healthy env"
  shows "wp (EnsureNKeySecret env user) (\<lambda>(r, _) _. \<exists>x. r = Inr x) w"
  using healthyD(8) [OF assms, of w "(user_namespace user, secretNameOf user)"]
    healthy_create [OF assms] healthy_adopt [OF assms]
  by (auto simp: EnsureNKeySecret_def GetSecret_def)

abbreviation smooth :: "(goerr + 'a) \<times> bool \<times> 'b \<Rightarrow> world \<Rightarrow> bool" where
  "smooth \<equiv> \<lambda>(r, failed, _) _. (\<exists>x. r = Inr x) \<and> \<not> failed"

lemma healthy_user:
  assumes h: "healthy env"
  shows "wp (reconcileUser env oid cluster sys acct user) smooth w"
proof -
  have cond: "wp (setUserCondition env u st rs ms \<bind>
      (\<lambda>(c, u). State_Monad.return (Inr (f u), c \<noteq> None, u))) smooth w1" for u st rs ms w1
    and f :: "nats_user \<Rightarrow> user_with_public_key list"
    by (simp add: wp_setUser Let_def healthyD [OF h])
  show ?thesis
    unfolding reconcileUser_def
    apply (rule wp_if)
     apply simp
    unfolding wp_bind
    apply (rule wp_any)
    apply (rule wp_sum)
     apply (rule cond)
    subgoal for r w1 b
      apply (cases b)
       apply (simp only: bool.case wp_bind)
       apply (rule wp_mono [OF healthy_Ensure [OF h]])
       apply (intro wp_pair wp_sum)
        apply simp
       apply (simp only: prod.case)
       apply (rule cond)
      apply (simp only: bool.case)
      apply (rule cond)
      done
    done
qed

lemma healthy_users:
  assumes h: "healthy env"
  shows "wp (reconcileUsers env oid cluster sys acct users) smooth w"
proof (induction users arbitrary: w)
  case (Cons u us)
  show ?case
    unfolding reconcileUsers.simps wp_bind
    apply (rule wp_mono [OF healthy_user [OF h]])
    apply (intro wp_triple wp_sum)
     apply simp
    unfolding wp_bind
    apply (rule wp_mono [OF Cons.IH])
    apply auto
    done
qed simp

lemma healthy_account:
  assumes h: "healthy env"
  shows "wp (reconcileAccount env oid cluster sys acct users) smooth w"
proof (cases "ValidateRegexRules env (as_user_rules (ac_spec acct))")
  case (Some err)
  then show ?thesis
    by (simp add: reconcileAccount_def wp_setAccount Let_def healthyD [OF h])
next
  case None
  show ?thesis
    unfolding reconcileAccount_def None option.case wp_bind
    apply (rule wp_mono [OF healthy_users [OF h]])
    apply (intro wp_triple wp_sum)
     apply simp
    apply (simp add: wp_setAccount Let_def healthyD [OF h])
    done
qed

lemma healthy_accounts:
  assumes h: "healthy env"
  shows "wp (reconcileAccounts env oid cluster sys accts users) smooth w"
proof (induction accts arbitrary: users w)
  case (Cons a as)
  show ?case
    unfolding reconcileAccounts.simps wp_bind
    apply (rule wp_mono [OF healthy_account [OF h]])
    apply (rule wp_pair)
    apply (intro wp_triple wp_sum)
     apply simp
    unfolding wp_bind
    apply (rule wp_mono [OF Cons.IH])
    apply auto
    done
qed simp

lemma healthy_pass:
  assumes "healthy env"
  shows "wp (reconcileAccountsAndUsers env oid cluster accts users) smooth w"
  unfolding reconcileAccountsAndUsers_def wp_bind
  by (rule wp_mono [OF healthy_accounts [OF assms]]) auto

text \<open>
  C16. A healthy cluster makes progress: with an API server that accepts every write, keys that can be
  generated and Secrets that are not corrupt, a pass over any accounts and users succeeds, and
  reports no failed update, even when rules are invalid or namespaces cannot be read.
\<close>
theorem reconcile_healthy_succeeds:
  assumes "healthy env"
  shows "case fst (run_state (reconcileAccountsAndUsers env oid cluster accts users) w) of
     (r, failed, _) \<Rightarrow> (\<exists>awus n. r = Inr (awus, n)) \<and> \<not> failed"
  using healthy_pass [OF assms, of oid cluster accts users w] by (auto simp: wp_def case_prod_beta)

section \<open>An example\<close>

lemma healthy_null [simp]: "healthy null_env"
  by (simp add: healthy_def not_found_def IsNotFound_def)

definition pass_account :: "string \<Rightarrow> bool \<Rightarrow> nats_account" where
  "pass_account n s =
     \<lparr>ac_meta = \<lparr>meta_name = n, meta_namespace = ''prod'', meta_generation = 1\<rparr>,
      ac_spec = \<lparr>as_cluster_ref = ''nats'',
        as_user_rules = [\<lparr>ur_action = ''grant'', ur_namespace_regex = None, ur_namespace_labels = None,
          ur_same_namespace = Some True\<rparr>],
        as_jetstream = None, as_limits = None, as_system_account = s\<rparr>,
      ac_status = \<lparr>ast_conditions = [], ast_user_count = 0, ast_debug_command = []\<rparr>\<rparr>"

definition pass_user :: "string \<Rightarrow> string \<Rightarrow> nats_user" where
  "pass_user n ns =
     \<lparr>u_meta = \<lparr>meta_name = n, meta_namespace = ns, meta_generation = 1\<rparr>,
      u_spec = \<lparr>us_account_ref = \<lparr>nor_name = ''a'', nor_namespace = ''prod''\<rparr>,
        us_inbox_prefix = Some ''inbox.mine'', us_insecure_shared_inbox_prefix = False, us_permissions = None\<rparr>,
      u_status = \<lparr>ust_conditions = [], ust_nkey_public_key = [], ust_secret_ref = None,
        ust_debug_command = [], ust_connection_urls = [], ust_is_system_account = False\<rparr>\<rparr>"

definition pass_users :: "nats_user list" where
  "pass_users = [pass_user ''y'' ''prod'', pass_user ''x'' ''prod'', pass_user ''z'' ''dev'']"

definition pass_cluster :: nats_cluster where
  "pass_cluster =
     \<lparr>cl_meta = \<lparr>meta_name = ''nats'', meta_namespace = ''prod'', meta_generation = 1\<rparr>,
      cl_spec = \<lparr>cs_server_ref = None, cs_monitoring_port = None, cs_external_urls = []\<rparr>,
      cl_status = \<lparr>cst_conditions = [], cst_account_count = 0, cst_user_count = 0,
        cst_last_config_hash = []\<rparr>\<rparr>"

definition example_pass ::
  "(((goerr + account_with_users list \<times> nat) \<times> bool \<times> nats_account list) \<times> world)" where
  "example_pass =
     run_state (reconcileAccountsAndUsers null_env \<lparr>oi_namespace = [], oi_deployment = []\<rparr> pass_cluster
       [pass_account ''a'' False] pass_users) start_world"

lemma example_smooth:
  obtains awus n accts w' where "example_pass = ((Inr (awus, n), False, accts), w')"
proof -
  obtain r failed accts w' where e: "example_pass = ((r, failed, accts), w')" by (metis prod_cases3 surj_pair)
  have "smooth (r, failed, accts) w'"
    by (rule wp_run [OF healthy_pass [OF healthy_null]]) (rule e [unfolded example_pass_def])
  then show ?thesis using e that by auto
qed

theorem reconcile_healthy_succeeds_witness:
  "case fst example_pass of (r, failed, _) \<Rightarrow> (\<exists>awus n. r = Inr (awus, n)) \<and> \<not> failed"
  unfolding example_pass_def by (rule reconcile_healthy_succeeds) simp

lemma example_roster:
  "map (\<lambda>a. (bare_account a, map bare_user (sort_key user_name
      (filter (granted null_env (\<lambda>_. Inl not_found) a) pass_users))))
        (filter (\<lambda>a. ValidateRegexRules null_env (as_user_rules (ac_spec a)) = None) [pass_account ''a'' False]) =
   [(bare_account (pass_account ''a'' False), map bare_user [pass_user ''x'' ''prod'', pass_user ''y'' ''prod''])]"
  by code_simp

theorem reconcile_exact_users_witness:
  "case fst example_pass of (r, failed, _) \<Rightarrow>
     \<exists>awus. r = Inr (awus, 2) \<and> map (map (user_name \<circ> uwk_user) \<circ> awu_users) awus = [[''x'', ''y'']]"
proof -
  obtain awus n where r: "fst (fst example_pass) = Inr (awus, n)"
    by (rule example_smooth) (metis fst_conv)
  from reconcile_exact_users [OF _ this [unfolded example_pass_def], of "\<lambda>_. Inl not_found"]
  have m: "map bare_awu awus = [(bare_account (pass_account ''a'' False),
        map bare_user [pass_user ''x'' ''prod'', pass_user ''y'' ''prod''])]"
    and n: "n = sum_list (map (length \<circ> awu_users) awus)"
    unfolding example_roster by simp_all
  then obtain x where x: "awus = [x]"
    "map (bare_user \<circ> uwk_user) (awu_users x) = map bare_user [pass_user ''x'' ''prod'', pass_user ''y'' ''prod'']"
    by (auto simp: bare_awu_def)
  have names: "map (user_name \<circ> uwk_user) (awu_users x) = [''x'', ''y'']"
    using arg_cong [OF x(2), of "map user_name"] by (simp add: pass_user_def comp_def)
  have "length (map (user_name \<circ> uwk_user) (awu_users x)) = 2" unfolding names by simp
  then have "length (awu_users x) = 2" by simp
  with r x n names show ?thesis by (auto split: prod.splits)
qed

theorem reconcile_reports_failures_witness:
  "\<not> list_ex status_failure (w_trace (snd example_pass))"
proof -
  obtain x accts w' where r: "example_pass = ((Inr x, False, accts), w')"
    by (rule example_smooth)
  from reconcile_reports_failures [OF this [unfolded example_pass_def]] show ?thesis
    by (simp add: start_world_def r)
qed

end
