(* ===== verification/PodReload.thy ===== *)
theory PodReload
  imports KubeEnv GoSha256
begin

text \<open>
  \<open>internal/controller/pod_reloader.go\<close>: the hash header of the configuration file, the
  two commands run inside a NATS pod (showing the mounted file, and the signal that makes the
  server load it), and the interface \<open>PodReloader\<close> behind which they stand.
\<close>

section \<open>The hash header\<close>

definition AuthConfPath :: string where
  "AuthConfPath = ''/etc/nats-config/auth/auth.conf''"

definition stdoutPreview :: "string \<Rightarrow> string" where
  "stdoutPreview s =
     (let s' = (if length s > 120 then take 120 s else s) in
      concat (map (\<lambda>c. if c = CHR 0x0A then [CHR 0x5C, CHR ''n''] else [c]) s'))"

definition headerLine :: "string \<Rightarrow> string" where
  "headerLine line =
     (if \<not> HasPrefix line ''#'' then []
      else (let body = TrimSpace (TrimPrefix line ''#'') in
        if \<not> HasPrefix body ''hash:'' then [] else TrimSpace (TrimPrefix body ''hash:'')))"

fun parseLines :: "string list \<Rightarrow> string" where
  "parseLines [] = []"
| "parseLines (l # ls) =
     (let line = TrimSpace (TrimRight l CHR 0x0D) in
      if line = [] then parseLines ls else headerLine line)"

definition parseHashHeader :: "string \<Rightarrow> string" where
  "parseHashHeader s = parseLines (SplitN s CHR 0x0A 8)"

definition FormatHashHeader :: "string \<Rightarrow> string" where
  "FormatHashHeader hash = ''# hash: '' @ hash @ NL"

section \<open>The interface\<close>

text \<open>
  An implementation of an interface is a method: given the world, it answers, adds events to the
  trace and lets time pass. It can neither take events back nor turn back the clock.
\<close>

type_synonym 'a meth = "world \<Rightarrow> 'a \<times> event list \<times> nat"

definition perform :: "'a meth \<Rightarrow> 'a io" where
  "perform m = State (\<lambda>w. case m w of (r, evs, d) \<Rightarrow>
     (r, w\<lparr>w_trace := evs @ w_trace w, w_clock := w_clock w + d\<rparr>))"

lemma emits_perform: "(\<And>w r evs d. m w = (r, evs, d) \<Longrightarrow> list_all P evs) \<Longrightarrow> emits P (perform m)"
  by (auto simp: emits_def perform_def split: prod.split)

record pod_reloader =
  pl_reload :: "string \<Rightarrow> string \<Rightarrow> goerr option meth"
  pl_is_current :: "string \<Rightarrow> string \<Rightarrow> string \<Rightarrow> (goerr + bool) meth"

section \<open>SpdyPodReloader\<close>

definition hup_command :: "string list" where
  "hup_command = [''kill'', ''-HUP'', ''1'']"

definition cat_command :: "string list" where
  "cat_command = [''cat'', AuthConfPath]"

text \<open>A client for the API, an executor for the pod, then the command; its result is the event.\<close>

definition SpdyReloadPod :: "env \<Rightarrow> string \<Rightarrow> string \<Rightarrow> goerr option meth" where
  "SpdyReloadPod env namespace podName w =
     (case e_clientset env w of
        Some err \<Rightarrow> (Some err, [], 0)
      | None \<Rightarrow>
          (case e_executor env w (namespace, podName) of
             Some err \<Rightarrow> (Some err, [], 0)
           | None \<Rightarrow>
               (let res = e_exec env w namespace podName hup_command in
                (ex_error res, [Executed namespace podName hup_command res], e_latency env w))))"

definition SpdyIsConfigCurrent :: "env \<Rightarrow> string \<Rightarrow> string \<Rightarrow> string \<Rightarrow> (goerr + bool) meth" where
  "SpdyIsConfigCurrent env namespace podName expectedHash w =
     (case e_clientset env w of
        Some err \<Rightarrow> (Inl err, [], 0)
      | None \<Rightarrow>
          (case e_executor env w (namespace, podName) of
             Some err \<Rightarrow> (Inl err, [], 0)
           | None \<Rightarrow>
               (let res = e_exec env w namespace podName cat_command;
                    parsed = parseHashHeader (ex_stdout res)
                in (Inr (if parsed = [] then False else parsed = expectedHash),
                    [Executed namespace podName cat_command res], e_latency env w))))"

definition SpdyPodReloader :: "env \<Rightarrow> pod_reloader" where
  "SpdyPodReloader env =
     \<lparr>pl_reload = SpdyReloadPod env, pl_is_current = SpdyIsConfigCurrent env\<rparr>"

section \<open>The contract\<close>

definition is_hup :: "string \<Rightarrow> string \<Rightarrow> event \<Rightarrow> bool" where
  "is_hup ns p e = (case e of Executed ns' p' cmd res \<Rightarrow> ns' = ns \<and> p' = p \<and> cmd = hup_command | _ \<Rightarrow> False)"

text \<open>The event that shows that a pod has the file with the given hash mounted.\<close>

definition evidence :: "string \<Rightarrow> string \<Rightarrow> string \<Rightarrow> event \<Rightarrow> bool" where
  "evidence hash ns p e =
     (case e of Executed ns' p' cmd res \<Rightarrow>
        ns' = ns \<and> p' = p \<and> cmd = cat_command \<and> parseHashHeader (ex_stdout res) = hash
      | _ \<Rightarrow> False)"

text \<open>What a check may put on the trace: commands that are no signals.\<close>

definition harmless :: "event \<Rightarrow> bool" where
  "harmless e = (case e of Executed ns p cmd res \<Rightarrow> cmd \<noteq> hup_command | _ \<Rightarrow> False)"

locale reloader =
  fixes R :: pod_reloader
  assumes check_harmless: "pl_is_current R ns p h w = (r, evs, d) \<Longrightarrow> list_all harmless evs"
    and check_evidence: "pl_is_current R ns p h w = (Inr True, evs, d) \<Longrightarrow> \<exists>e es. evs = e # es \<and> evidence h ns p e"
    and reload_once: "pl_reload R ns p w = (x, evs, d) \<Longrightarrow> evs = [] \<and> x \<noteq> None \<or> (\<exists>e. evs = [e] \<and> is_hup ns p e)"

lemma cat_is_not_hup [simp]: "cat_command \<noteq> hup_command" "hup_command \<noteq> cat_command"
  by (simp_all add: cat_command_def hup_command_def)

interpretation spdy: reloader "SpdyPodReloader env" for env
  by unfold_locales
    (auto simp: SpdyPodReloader_def SpdyIsConfigCurrent_def SpdyReloadPod_def harmless_def evidence_def
      is_hup_def Let_def split: option.splits if_splits, (metis option.distinct(1) not_None_eq)+)

section \<open>Reading the header back\<close>

lemma visible_lits [simp]: "visible CHR ''#''" "visible CHR ''h''"
  by (simp_all add: visible_def)

lemma parse_format_visible:
  assumes h: "h \<noteq> []" "\<forall>c\<in>set h. visible c"
  shows "parseHashHeader (FormatHashHeader h @ body) = h"
proof -
  let ?l = "''# hash: '' @ h"
  have v: "visible (hd h)" "visible (last h)" using h by auto
  have nl: "CHR 0x0A \<notin> set h" "last h \<noteq> CHR 0x0D" using h last_in_set [OF h(1)] by (force simp: visible_def)+
  have "SplitN (?l @ CHR 0x0A # body) CHR 0x0A 8 = ?l # SplitN body CHR 0x0A 7"
    using SplitN_line [of "CHR 0x0A" ?l body 6] nl(1) by (simp add: eval_nat_numeral del: SplitN.simps)
  then have "parseHashHeader (FormatHashHeader h @ body) = parseLines (?l # SplitN body CHR 0x0A 7)"
    by (simp only: parseHashHeader_def FormatHashHeader_def append_assoc append.simps)
  moreover have "TrimRight ?l CHR 0x0D = ?l"
    using h(1) nl(2) by (intro TrimRight_last) simp
  moreover have "TrimSpace ?l = ?l"
    using h(1) v(2) by (intro TrimSpace_visible) simp_all
  moreover have "TrimSpace (TrimPrefix ?l ''#'') = ''hash: '' @ h"
    using TrimSpace_blank [of "''hash: '' @ h"] h(1) v(2) by (simp add: TrimPrefix_def)
  moreover have "TrimSpace (TrimPrefix (''hash: '' @ h) ''hash:'') = h"
    using TrimSpace_blank [OF h(1) v] by (simp add: TrimPrefix_def)
  ultimately show ?thesis
    by (simp add: headerLine_def HasPrefix_def Let_def del: SplitN.simps)
qed

text \<open>
  C25. The header can be read back: what \<open>FormatHashHeader\<close> puts in front of a file,
  \<open>parseHashHeader\<close> finds again, for the SHA-256 of any text and whatever file follows.
\<close>
theorem parseHashHeader_FormatHashHeader:
  "parseHashHeader (FormatHashHeader (sha256_hex text) @ body) = sha256_hex text"
  using sha256_hex_visible sha256_hex_neq_Nil by (intro parse_format_visible) auto

text \<open>
  Up to six blank lines before the header are skipped. After seven of them the eighth and last
  piece of the split is the whole rest of the file, and the reader takes all of it as the hash.
\<close>

theorem parseHashHeader_seven_blank_lines:
  "parseHashHeader (concat (replicate 7 NL) @ ''# hash: ab'' @ NL @ ''accounts {}'') = ''ab'' @ NL @ ''accounts {}''"
  by code_simp

lemma stdoutPreview_one_line: "CHR 0x0A \<notin> set (stdoutPreview s)"
  by (auto simp: stdoutPreview_def Let_def split: if_splits)

end
