(* ===== verification/ReloadPods.thy ===== *)
theory ReloadPods
  imports PodReload
begin

text \<open>
  The reload pass of \<open>internal/controller/natscluster_controller.go\<close>:
  \<open>waitForCurrentConfig\<close>, which polls a pod until it shows the new file, and
  \<open>reloadNatsPods\<close>, which signals the pods that do. Both work with any
  \<open>PodReloader\<close>; what they promise is proved in the locale of its contract.
\<close>

section \<open>Waiting for a pod\<close>

text \<open>Durations are in nanoseconds.\<close>

definition configSyncTimeout :: nat where
  "configSyncTimeout = 5 * 10 ^ 9"

definition configSyncPoll :: nat where
  "configSyncPoll = 500 * 10 ^ 6"

lemma perform_clock: "run_state (perform m) w = (r, w1) \<Longrightarrow> w_clock w \<le> w_clock w1"
  by (auto simp: perform_def split: prod.splits)

lemma wait_clock:
  "run_state (WaitOrCancel env d) w = (None, w1) \<Longrightarrow> w_clock w + d \<le> w_clock w1"
  by (auto simp: WaitOrCancel_def split: option.splits)

lemma wait_loop_progress:
  assumes "run_state (perform m) w = (r, w1)" "w_clock w1 \<le> deadline"
    "run_state (WaitOrCancel env configSyncPoll) w1 = (None, w2)"
  shows "deadline + 1 - w_clock w2 < deadline + 1 - w_clock w"
  using perform_clock [OF assms(1)] wait_clock [OF assms(3)] assms(2) by (simp add: configSyncPoll_def)

text \<open>
  The loop, as a function of the world: it ends because a method does not turn back the clock
  and every round waits at least the polling interval.
\<close>

function wait_loop ::
  "env \<Rightarrow> pod_reloader \<Rightarrow> nat \<Rightarrow> string \<Rightarrow> string \<Rightarrow> string \<Rightarrow> world \<Rightarrow> (goerr + bool) \<times> world" where
  "wait_loop env R deadline namespace podName expectedHash w =
     (case run_state (perform (pl_is_current R namespace podName expectedHash)) w of
        (Inl err, w1) \<Rightarrow> (Inl err, w1)
      | (Inr current, w1) \<Rightarrow>
          if current then (Inr True, w1)
          else if w_clock w1 > deadline then (Inr False, w1)
          else
            (case run_state (WaitOrCancel env configSyncPoll) w1 of
               (Some err, w2) \<Rightarrow> (Inl err, w2)
             | (None, w2) \<Rightarrow> wait_loop env R deadline namespace podName expectedHash w2))"
  by pat_completeness auto

termination
  apply (relation "measure (\<lambda>(env, R, deadline, ns, p, h, w). deadline + 1 - w_clock w)")
   apply simp
  apply (simp only: in_measure prod.case)
  apply (rule wait_loop_progress)
    apply (auto simp: eq_commute)
  done

declare wait_loop.simps [simp del]

definition waitForCurrentConfig ::
  "env \<Rightarrow> pod_reloader \<Rightarrow> string \<Rightarrow> string \<Rightarrow> string \<Rightarrow> (goerr + bool) io" where
  "waitForCurrentConfig env R namespace podName expectedHash =
     do {
       now \<leftarrow> Now;
       State (wait_loop env R (now + configSyncTimeout) namespace podName expectedHash)
     }"

section \<open>The reload pass\<close>

definition workload_error :: "string \<Rightarrow> object_key \<Rightarrow> goerr \<Rightarrow> goerr" where
  "workload_error kind key err =
     wrap (''getting '' @ kind @ '' '' @ fst key @ ''/'' @ snd key) err"

text \<open>The switch on the kind of the workload, the source's way to the pod selector.\<close>

definition podSelectorOf :: "env \<Rightarrow> workload_reference \<Rightarrow> string \<Rightarrow> (goerr + label_selector) io" where
  "podSelectorOf env ref namespace =
     (let key = (namespace, wr_name ref) in
      if wr_kind ref = ''Deployment'' then
        do { r \<leftarrow> GetDeployment env key; State_Monad.return (map_sum (workload_error ''deployment'' key) id r) }
      else if wr_kind ref = ''StatefulSet'' then
        do { r \<leftarrow> GetStatefulSet env key; State_Monad.return (map_sum (workload_error ''statefulset'' key) id r) }
      else State_Monad.return (Inl (GoErr Other (''unsupported workload kind: '' @ wr_kind ref))))"

text \<open>The loop over the pods; the flag is \<open>allInSync\<close>.\<close>

fun reload_loop ::
  "env \<Rightarrow> pod_reloader \<Rightarrow> string \<Rightarrow> string \<Rightarrow> pod list \<Rightarrow> bool \<Rightarrow> (goerr + bool) io" where
  "reload_loop env R namespace expectedHash [] allInSync = State_Monad.return (Inr allInSync)"
| "reload_loop env R namespace expectedHash (p # ps) allInSync =
     (if pod_phase p \<noteq> PodRunning then reload_loop env R namespace expectedHash ps False
      else do {
        r \<leftarrow> waitForCurrentConfig env R namespace (pod_name p) expectedHash;
        (case r of
           Inl err \<Rightarrow> State_Monad.return (Inl (wrap (''checking config hash on pod '' @ pod_name p) err))
         | Inr current \<Rightarrow>
             if \<not> current then reload_loop env R namespace expectedHash ps False
             else do {
               e \<leftarrow> perform (pl_reload R namespace (pod_name p));
               (case e of
                  Some err \<Rightarrow> State_Monad.return (Inl (wrap (''reloading pod '' @ pod_name p) err))
                | None \<Rightarrow> reload_loop env R namespace expectedHash ps allInSync)
             })
      })"

text \<open>\<open>ref\<close> is the cluster's \<open>serverRef\<close>, which the caller has checked not to be nil.\<close>

definition reloadNatsPods ::
  "env \<Rightarrow> pod_reloader \<Rightarrow> workload_reference \<Rightarrow> string \<Rightarrow> string \<Rightarrow> (goerr + bool) io" where
  "reloadNatsPods env R ref namespace expectedHash =
     do {
       s \<leftarrow> podSelectorOf env ref namespace;
       (case s of
          Inl err \<Rightarrow> State_Monad.return (Inl err)
        | Inr podSelector \<Rightarrow>
            (case e_selector env podSelector of
               Inl err \<Rightarrow> State_Monad.return (Inl (wrap ''parsing label selector'' err))
             | Inr selector \<Rightarrow>
                 do {
                   l \<leftarrow> ListPods env namespace selector;
                   (case l of
                      Inl err \<Rightarrow> State_Monad.return (Inl (wrap ''listing pods'' err))
                    | Inr pods \<Rightarrow> reload_loop env R namespace expectedHash pods True)
                 }))
     }"

section \<open>Reading a trace of a reload pass\<close>

definition is_wait :: "event \<Rightarrow> bool" where
  "is_wait e = (case e of Slept d \<Rightarrow> True | _ \<Rightarrow> False)"

definition quiet :: "event \<Rightarrow> bool" where
  "quiet e = (harmless e \<or> is_wait e)"

text \<open>
  In a trace, newest event first, every signal comes right after the look at the same pod that
  showed the file with the given hash.
\<close>

fun confirmed :: "string \<Rightarrow> event list \<Rightarrow> bool" where
  "confirmed hash [] = True"
| "confirmed hash (e # es) =
     (confirmed hash es \<and>
      (case e of
         Executed ns p cmd res \<Rightarrow> cmd = hup_command \<longrightarrow> es \<noteq> [] \<and> evidence hash ns p (hd es)
       | _ \<Rightarrow> True))"

lemma confirmed_append: "confirmed hash as \<Longrightarrow> confirmed hash bs \<Longrightarrow> confirmed hash (as @ bs)"
proof (induction as)
  case (Cons e as)
  then show ?case by (cases as) (auto split: event.splits)
qed simp

lemma confirmed_quiet: "list_all quiet es \<Longrightarrow> confirmed hash es"
  by (induction es) (auto simp: quiet_def harmless_def is_wait_def split: event.splits)

lemma confirmed_hup: "is_hup ns p e \<Longrightarrow> evidence hash ns p f \<Longrightarrow> confirmed hash es \<Longrightarrow> es = f # es' \<Longrightarrow> confirmed hash (e # es)"
  by (auto simp: is_hup_def split: event.splits)

lemma quiet_no_hup: "quiet e \<Longrightarrow> \<not> is_hup ns p e"
  by (auto simp: quiet_def harmless_def is_wait_def is_hup_def split: event.splits)

lemma harmless_no_wait: "harmless e \<Longrightarrow> \<not> is_wait e"
  by (auto simp: harmless_def is_wait_def split: event.splits)

definition waits :: "event list \<Rightarrow> nat" where
  "waits evs = length (filter is_wait evs)"

lemma waits_simps [simp]: "waits [] = 0" "waits (as @ bs) = waits as + waits bs"
    "waits (e # es) = (if is_wait e then 1 else 0) + waits es"
  by (simp_all add: waits_def)

lemma waits_harmless: "list_all harmless es \<Longrightarrow> waits es = 0"
  by (induction es) (auto dest: harmless_no_wait)

section \<open>What any reloader gives\<close>

context reloader
begin

text \<open>One run of the loop: the events are quiet, and yes is said only with the evidence at hand.\<close>

lemma wait_loop_trace:
  "\<exists>evs. w_trace (snd (wait_loop env R dl ns p h w)) = evs @ w_trace w \<and> list_all quiet evs \<and>
     waits evs \<le> (if w_clock w \<le> dl then (dl - w_clock w) div configSyncPoll + 1 else 0) \<and>
     (fst (wait_loop env R dl ns p h w) = Inr True \<longrightarrow> (\<exists>e es. evs = e # es \<and> evidence h ns p e))"
proof (induction "dl + 1 - w_clock w" arbitrary: w rule: less_induct)
  case less
  obtain r evs d where m: "pl_is_current R ns p h w = (r, evs, d)" by (cases "pl_is_current R ns p h w")
  let ?w1 = "w\<lparr>w_trace := evs @ w_trace w, w_clock := w_clock w + d\<rparr>"
  have run: "run_state (perform (pl_is_current R ns p h)) w = (r, ?w1)"
    by (simp add: perform_def m)
  have harm: "list_all harmless evs" using m by (rule check_harmless)
  then have q: "list_all quiet evs" and w0: "waits evs = 0"
    by (auto simp: quiet_def list_all_iff waits_harmless)
  note unfold = wait_loop.simps [of env R dl ns p h w] run
  show ?case
  proof (cases r)
    case (Inl err)
    with q w0 show ?thesis by (simp add: unfold)
  next
    case (Inr current)
    show ?thesis
    proof (cases "current \<or> dl < w_clock ?w1")
      case True
      show ?thesis
      proof (cases current)
        case True
        with m Inr have "pl_is_current R ns p h w = (Inr True, evs, d)" by simp
        from check_evidence [OF this] show ?thesis
          using q w0 Inr True by (auto simp: unfold)
      next
        case False
        with \<open>current \<or> dl < w_clock ?w1\<close> q w0 Inr show ?thesis by (simp add: unfold)
      qed
    next
      case goon: False
      let ?sl = "Slept configSyncPoll"
      show ?thesis
      proof (cases "e_cancelled env ?w1")
        case (Some err)
        have "list_all quiet (?sl # evs)" "waits (?sl # evs) = 1"
          using q w0 by (simp_all add: quiet_def is_wait_def)
        with goon Inr Some show ?thesis by (simp add: unfold WaitOrCancel_def)
      next
        case None
        define w2 where "w2 = ?w1\<lparr>w_trace := ?sl # w_trace ?w1,
          w_clock := w_clock ?w1 + configSyncPoll + e_latency env ?w1\<rparr>"
        have loop: "wait_loop env R dl ns p h w = wait_loop env R dl ns p h w2"
          using goon Inr None by (simp add: unfold WaitOrCancel_def w2_def)
        have clock: "w_clock w \<le> dl" "w_clock w + configSyncPoll \<le> w_clock w2"
          using goon by (simp_all add: w2_def)
        have "dl + 1 - w_clock w2 < dl + 1 - w_clock w"
          using clock by (simp add: configSyncPoll_def)
        from less [OF this] obtain evs2 where e2:
          "w_trace (snd (wait_loop env R dl ns p h w2)) = evs2 @ w_trace w2" "list_all quiet evs2"
          "waits evs2 \<le> (if w_clock w2 \<le> dl then (dl - w_clock w2) div configSyncPoll + 1 else 0)"
          "fst (wait_loop env R dl ns p h w2) = Inr True \<longrightarrow> (\<exists>e es. evs2 = e # es \<and> evidence h ns p e)"
          by blast
        have "waits (evs2 @ ?sl # evs) \<le> (dl - w_clock w) div configSyncPoll + 1"
        proof (cases "w_clock w2 \<le> dl")
          case True
          have "(dl - w_clock w2) div configSyncPoll + 1 \<le> (dl - w_clock w) div configSyncPoll"
          proof -
            have "(dl - w_clock w2) + configSyncPoll \<le> dl - w_clock w" using clock True by linarith
            then have "((dl - w_clock w2) + configSyncPoll) div configSyncPoll \<le> (dl - w_clock w) div configSyncPoll"
              by (rule div_le_mono)
            then show ?thesis by (simp add: configSyncPoll_def)
          qed
          with e2(3) True w0 show ?thesis by (simp add: is_wait_def)
        qed (use e2(3) w0 in \<open>simp add: is_wait_def\<close>)
        moreover have "w_trace w2 = ?sl # evs @ w_trace w" by (simp add: w2_def)
        moreover have "list_all quiet (evs2 @ ?sl # evs)" using e2(2) q by (simp add: quiet_def is_wait_def)
        ultimately show ?thesis
          unfolding loop using e2(1,4) clock(1) by (intro exI [of _ "evs2 @ ?sl # evs"]) auto
      qed
    qed
  qed
qed

lemma waitForCurrentConfig_trace:
  "wp (waitForCurrentConfig env R ns p h)
     (\<lambda>r w'. \<exists>evs. w_trace w' = evs @ w_trace w \<and> list_all quiet evs \<and> waits evs \<le> 11 \<and>
        (r = Inr True \<longrightarrow> (\<exists>e es. evs = e # es \<and> evidence h ns p e))) w"
proof -
  have "(w_clock w + configSyncTimeout - w_clock w) div configSyncPoll + 1 = 11"
    by (simp add: configSyncTimeout_def configSyncPoll_def)
  then show ?thesis
    using wait_loop_trace [of env "w_clock w + configSyncTimeout" ns p h w]
    by (auto simp: waitForCurrentConfig_def split: prod.split)
qed

end

section \<open>The pass over the pods\<close>

text \<open>
  What a pass reports: signals only where confirmed and only to running pods of the list, and
  with the answer yes every pod of the list is running and has been signalled.
\<close>

definition running_names :: "pod list \<Rightarrow> string set" where
  "running_names pods = pod_name ` {p \<in> set pods. pod_phase p = PodRunning}"

definition pass_ok ::
  "string \<Rightarrow> string \<Rightarrow> pod list \<Rightarrow> bool \<Rightarrow> goerr + bool \<Rightarrow> event list \<Rightarrow> bool" where
  "pass_ok hash ns pods sync r evs \<longleftrightarrow>
     confirmed hash evs \<and>
     (\<forall>e\<in>set evs. \<forall>n q. is_hup n q e \<longrightarrow> n = ns \<and> q \<in> running_names pods) \<and>
     (r = Inr True \<longrightarrow> sync \<and>
        list_all (\<lambda>p. pod_phase p = PodRunning \<and> list_ex (is_hup ns (pod_name p)) evs) pods)"

lemma pass_ok_Nil: "pass_ok hash ns [] sync (Inr sync) []"
  by (simp add: pass_ok_def)

lemma pass_ok_stop: "list_all quiet evs \<Longrightarrow> r \<noteq> Inr True \<Longrightarrow> pass_ok hash ns pods sync r evs"
  by (auto simp: pass_ok_def confirmed_quiet list_all_iff dest: quiet_no_hup)

lemma running_names_Cons:
  "running_names (p # ps) =
     (if pod_phase p = PodRunning then insert (pod_name p) (running_names ps) else running_names ps)"
  by (auto simp: running_names_def)

text \<open>Every signal of the list goes to a running pod of the namespace.\<close>

definition hups_within :: "string \<Rightarrow> string set \<Rightarrow> event list \<Rightarrow> bool" where
  "hups_within ns names evs = (\<forall>e\<in>set evs. \<forall>n q. is_hup n q e \<longrightarrow> n = ns \<and> q \<in> names)"

lemma hups_within_append [simp]: "hups_within ns A (as @ bs) \<longleftrightarrow> hups_within ns A as \<and> hups_within ns A bs"
  by (auto simp: hups_within_def)

lemma hups_within_mono: "hups_within ns A es \<Longrightarrow> A \<subseteq> B \<Longrightarrow> hups_within ns B es"
  by (auto simp: hups_within_def)

lemma hups_within_quiet: "list_all quiet es \<Longrightarrow> hups_within ns A es"
  by (auto simp: hups_within_def list_all_iff dest: quiet_no_hup)

lemma hups_within_hup:
  assumes "is_hup ns p e" "p \<in> A" "hups_within ns A es"
  shows "hups_within ns A (e # es)"
  unfolding hups_within_def
  proof (intro ballI allI impI)
    fix f n q assume f: "f \<in> set (e # es)" "is_hup n q f"
    show "n = ns \<and> q \<in> A"
    proof (cases "f = e")
      case True
      with f(2) assms(1,2) show ?thesis by (auto simp: is_hup_def split: event.splits)
    next
      case False
      with f assms(3) show ?thesis by (auto simp: hups_within_def)
    qed
  qed

lemma pass_ok_iff: "pass_ok hash ns pods sync r evs \<longleftrightarrow>
    confirmed hash evs \<and> hups_within ns (running_names pods) evs \<and>
    (r = Inr True \<longrightarrow> sync \<and>
        list_all (\<lambda>p. pod_phase p = PodRunning \<and> list_ex (is_hup ns (pod_name p)) evs) pods)"
  by (simp add: pass_ok_def hups_within_def)

lemma running_names_mono: "running_names ps \<subseteq> running_names (p # ps)"
  by (auto simp: running_names_Cons)

lemma pass_ok_skip:
  assumes "pass_ok hash ns ps False r evs" "list_all quiet evs0"
  shows "pass_ok hash ns (p # ps) sync r (evs @ evs0)"
proof -
  have "confirmed hash (evs @ evs0)"
    using assms(1) by (intro confirmed_append [OF _ confirmed_quiet [OF assms(2)]]) (simp add: pass_ok_iff)
  moreover have "hups_within ns (running_names (p # ps)) evs"
    using assms(1) by (intro hups_within_mono [OF _ running_names_mono]) (simp add: pass_ok_iff)
  moreover have "r \<noteq> Inr True" using assms(1) by (auto simp: pass_ok_iff)
  ultimately show ?thesis
    using hups_within_quiet [OF assms(2)] by (simp add: pass_ok_iff)
qed

lemma all_hups_append:
  "list_all (\<lambda>p. pod_phase p = PodRunning \<and> list_ex (is_hup ns (pod_name p)) evs) ps \<Longrightarrow>
   list_all (\<lambda>p. pod_phase p = PodRunning \<and> list_ex (is_hup ns (pod_name p)) (evs @ es)) ps"
  by (auto simp: list_all_iff)

lemma pass_ok_hup:
  assumes "pass_ok hash ns ps sync r evs" "list_all quiet evs0" "evs0 = f # es"
    "evidence hash ns (pod_name p) f" "is_hup ns (pod_name p) e" "pod_phase p = PodRunning"
  shows "pass_ok hash ns (p # ps) sync r (evs @ e # evs0)"
  unfolding pass_ok_iff
proof (intro conjI impI)
  have "confirmed hash (e # evs0)"
    using assms(2-5) by (intro confirmed_hup [OF assms(5,4) confirmed_quiet]) auto
  then show "confirmed hash (evs @ e # evs0)"
    using assms(1) by (intro confirmed_append) (auto simp: pass_ok_iff)
  have "hups_within ns (running_names (p # ps)) (e # evs0)"
    by (rule hups_within_hup [OF assms(5) _ hups_within_quiet [OF assms(2)]])
      (simp add: running_names_Cons assms(6))
  moreover have "hups_within ns (running_names (p # ps)) evs"
    using assms(1) by (intro hups_within_mono [OF _ running_names_mono]) (simp add: pass_ok_iff)
  ultimately show "hups_within ns (running_names (p # ps)) (evs @ e # evs0)" by simp
next
  assume "r = Inr True"
  with assms(1) show sync by (simp add: pass_ok_iff)
  from \<open>r = Inr True\<close> assms(1)
  have "list_all (\<lambda>p. pod_phase p = PodRunning \<and> list_ex (is_hup ns (pod_name p)) (evs @ e # evs0)) ps"
    by (intro all_hups_append) (simp add: pass_ok_iff)
  then show "list_all (\<lambda>p. pod_phase p = PodRunning \<and> list_ex (is_hup ns (pod_name p)) (evs @ e # evs0)) (p # ps)"
    using assms(5,6) by simp
qed

lemma pass_ok_failed_hup:
  assumes "list_all quiet evs0" "evs0 = f # es" "evidence hash ns (pod_name p) f"
    "is_hup ns (pod_name p) e" "pod_phase p = PodRunning"
  shows "pass_ok hash ns (p # ps) sync (Inl err) (e # evs0)"
  using confirmed_hup [OF assms(4,3) confirmed_quiet [OF assms(1)] assms(2)]
    hups_within_hup [OF assms(4) _ hups_within_quiet [OF assms(1)]] assms(5)
  by (simp add: pass_ok_iff running_names_Cons)

context reloader
begin

lemma reload_loop_trace:
  "wp (reload_loop env R ns h pods sync)
     (\<lambda>r w'. \<exists>evs. w_trace w' = evs @ w_trace w \<and> pass_ok h ns pods sync r evs) w"
proof (induction pods arbitrary: sync w)
  case Nil
  then show ?case by (simp add: pass_ok_Nil)
next
  case (Cons p ps)
  show ?case
  proof (cases "pod_phase p = PodRunning")
    case False
    have "wp (reload_loop env R ns h ps False)
        (\<lambda>r w'. \<exists>evs. w_trace w' = evs @ w_trace w \<and> pass_ok h ns (p # ps) sync r evs) w"
      by (rule wp_mono [OF Cons [of False w]]) (use pass_ok_skip [where ?evs0.0 = "[]"] in force)
    with False show ?thesis by simp
  next
    case run: True
    show ?thesis
      unfolding reload_loop.simps wp_bind run simp_thms if_False
    proof (rule wp_mono [OF waitForCurrentConfig_trace])
      fix r :: "goerr + bool" and w1 :: world
      assume "\<exists>evs. w_trace w1 = evs @ w_trace w \<and> list_all quiet evs \<and> waits evs \<le> 11 \<and>
          (r = Inr True \<longrightarrow> (\<exists>e es. evs = e # es \<and> evidence h ns (pod_name p) e))"
      then obtain evs0 where e0: "w_trace w1 = evs0 @ w_trace w" "list_all quiet evs0"
        "r = Inr True \<longrightarrow> (\<exists>e es. evs0 = e # es \<and> evidence h ns (pod_name p) e)" by blast
      let ?Q = "\<lambda>r w'. \<exists>evs. w_trace w' = evs @ w_trace w \<and> pass_ok h ns (p # ps) sync r evs"
      have stale: "wp (reload_loop env R ns h ps False) ?Q w1"
        by (rule wp_mono [OF Cons [of False w1]]) (use pass_ok_skip [OF _ e0(2)] e0(1) in force)
      have hup: "wp (perform (pl_reload R ns (pod_name p))) (\<lambda>e. wp (case e of
            Some err \<Rightarrow> State_Monad.return (Inl (wrap (''reloading pod '' @ pod_name p) err))
          | None \<Rightarrow> reload_loop env R ns h ps sync) ?Q) w1" if True: "r = Inr True"
      proof -
        obtain x es d where m: "pl_reload R ns (pod_name p) w1 = (x, es, d)"
          by (cases "pl_reload R ns (pod_name p) w1")
        obtain f fs where f: "evs0 = f # fs" "evidence h ns (pod_name p) f" using e0(3) True by blast
        let ?w2 = "w1\<lparr>w_trace := es @ w_trace w1, w_clock := w_clock w1 + d\<rparr>"
        consider (none) "es = []" "x \<noteq> None" | (one) e where "es = [e]" "is_hup ns (pod_name p) e"
          using reload_once [OF m] by blast
        then show ?thesis
        proof cases
          case none
          then show ?thesis
            using e0 pass_ok_stop [OF e0(2)] by (auto simp: perform_def m)
        next
          case one
          show ?thesis
          proof (cases x)
            case None
            have "wp (reload_loop env R ns h ps sync) ?Q ?w2"
              by (rule wp_mono [OF Cons [of sync ?w2]])
                (use pass_ok_hup [OF _ e0(2) f one(2) run] e0(1) one(1) in force)
            then show ?thesis using None by (simp add: perform_def m)
          next
            case (Some err)
            have "pass_ok h ns (p # ps) sync (Inl err') (e # evs0)" for err'
              by (rule pass_ok_failed_hup [OF e0(2) f one(2) run])
            then show ?thesis using Some one(1) e0(1) by (auto simp: perform_def m)
          qed
        qed
      qed
      show "wp (case r of Inl err \<Rightarrow> State_Monad.return (Inl (wrap (''checking config hash on pod '' @ pod_name p) err))
          | Inr current \<Rightarrow> if \<not> current then reload_loop env R ns h ps False
              else perform (pl_reload R ns (pod_name p)) \<bind> (\<lambda>e. case e of
                  Some err \<Rightarrow> State_Monad.return (Inl (wrap (''reloading pod '' @ pod_name p) err))
                | None \<Rightarrow> reload_loop env R ns h ps sync)) ?Q w1"
      proof (cases r)
        case (Inl err)
        then show ?thesis using e0 pass_ok_stop [OF e0(2)] by auto
      next
        case (Inr c)
        with stale hup show ?thesis
          by (cases c) (simp_all only: sum.case if_True if_False not_True_eq_False not_False_eq_True wp_bind)
      qed
    qed
  qed
qed

end

section \<open>The pass with the SPDY reloader\<close>

lemma podSelectorOf_reads: "emits reads (podSelectorOf env ref ns)"
  unfolding podSelectorOf_def Let_def GetDeployment_def GetStatefulSet_def
  by (intro emits_if emits_bind emits_call emits_return) simp_all

lemma reads_quiet_trace: "list_all reads evs \<Longrightarrow> confirmed h evs \<and> (\<forall>n q. \<not> list_ex (is_hup n q) evs)"
proof (induction evs)
  case (Cons e evs)
  then show ?case by (cases e) (auto simp: is_hup_def)
qed simp

text \<open>
  The pods a pass that starts in \<open>w\<close> is about: the selector of the workload, as the API server
  gives it first, and the pods that are listed for it next.
\<close>

definition workload_selector :: "env \<Rightarrow> world \<Rightarrow> workload_reference \<Rightarrow> string \<Rightarrow> (goerr + label_selector) option" where
  "workload_selector env w ref ns =
     (if wr_kind ref = ''Deployment'' then Some (e_get_deployment env w (ns, wr_name ref))
      else if wr_kind ref = ''StatefulSet'' then Some (e_get_stateful_set env w (ns, wr_name ref))
      else None)"

definition after_workload :: "env \<Rightarrow> world \<Rightarrow> workload_reference \<Rightarrow> string \<Rightarrow> world" where
  "after_workload env w ref ns =
     w\<lparr>w_trace := Got (if wr_kind ref = ''Deployment'' then KDeployment else KStatefulSet) (ns, wr_name ref) # w_trace w,
       w_clock := w_clock w + e_latency env w\<rparr>"

definition workload_pods :: "env \<Rightarrow> world \<Rightarrow> workload_reference \<Rightarrow> string \<Rightarrow> pod list \<Rightarrow> bool" where
  "workload_pods env w ref ns pods \<longleftrightarrow>
     (\<exists>s sel. workload_selector env w ref ns = Some (Inr s) \<and> e_selector env s = Inr sel \<and>
        e_list_pods env (after_workload env w ref ns) ns sel = Inr pods)"

definition signalled :: "string \<Rightarrow> event list \<Rightarrow> pod list \<Rightarrow> bool" where
  "signalled ns evs pods = list_all (\<lambda>p. pod_phase p = PodRunning \<and> list_ex (is_hup ns (pod_name p)) evs) pods"

lemma wp_podSelectorOf:
  "wp (podSelectorOf env ref ns) Q w \<longleftrightarrow>
     (case workload_selector env w ref ns of
        None \<Rightarrow> Q (Inl (GoErr Other (''unsupported workload kind: '' @ wr_kind ref))) w
      | Some r \<Rightarrow> Q (map_sum (workload_error (if wr_kind ref = ''Deployment'' then ''deployment'' else ''statefulset'')
            (ns, wr_name ref)) id r) (after_workload env w ref ns))"
  by (simp add: podSelectorOf_def workload_selector_def after_workload_def GetDeployment_def GetStatefulSet_def Let_def)

lemma reloadNatsPods_trace:
  "wp (reloadNatsPods env (SpdyPodReloader env) ref ns h)
     (\<lambda>r w'. \<exists>evs. w_trace w' = evs @ w_trace w \<and> confirmed h evs \<and>
        (r = Inr True \<longrightarrow> (\<exists>pods. workload_pods env w ref ns pods \<and> signalled ns evs pods))) w"
proof -
  let ?Q = "\<lambda>r w'. \<exists>evs. w_trace w' = evs @ w_trace w \<and> confirmed h evs \<and>
        (r = Inr True \<longrightarrow> (\<exists>pods. workload_pods env w ref ns pods \<and> signalled ns evs pods))"
  let ?w1 = "after_workload env w ref ns"
  obtain g where e1: "w_trace ?w1 = [g] @ w_trace w" "confirmed h [g]"
    by (simp add: after_workload_def)
  have stop: "?Q (Inl e) ?w1" for e
    using e1 by (intro exI [of _ "[g]"]) simp
  have list: "wp (ListPods env ns sel) (\<lambda>l. wp (case l of
        Inl err \<Rightarrow> State_Monad.return (Inl (wrap ''listing pods'' err))
      | Inr pods \<Rightarrow> reload_loop env (SpdyPodReloader env) ns h pods True) ?Q) ?w1"
    if s: "workload_selector env w ref ns = Some (Inr s)" "e_selector env s = Inr sel" for s sel
  proof -
    let ?w2 = "?w1\<lparr>w_trace := Listed KPod ns # w_trace ?w1, w_clock := w_clock ?w1 + e_latency env ?w1\<rparr>"
    have c2: "confirmed h [Listed KPod ns, g]" using e1 by simp
    show ?thesis
    proof (cases "e_list_pods env ?w1 ns sel")
      case (Inl err)
      then show ?thesis
        using e1 c2 by (auto simp: ListPods_def simp del: append_Cons intro!: exI [of _ "[Listed KPod ns, g]"])
    next
      case (Inr pods)
      have "wp (reload_loop env (SpdyPodReloader env) ns h pods True) ?Q ?w2"
      proof (rule wp_mono [OF spdy.reload_loop_trace])
        fix r and w3 :: world
        assume "\<exists>evs. w_trace w3 = evs @ w_trace ?w2 \<and> pass_ok h ns pods True r evs"
        then obtain evs where "w_trace w3 = evs @ w_trace ?w2" "pass_ok h ns pods True r evs" by blast
        then have "w_trace w3 = (evs @ [Listed KPod ns, g]) @ w_trace w"
          and "confirmed h (evs @ [Listed KPod ns, g])"
          and "r = Inr True \<longrightarrow> signalled ns (evs @ [Listed KPod ns, g]) pods"
          using e1 confirmed_append [OF _ c2] by (auto simp: pass_ok_iff signalled_def list_all_iff)
        with Inr s show "?Q r w3" unfolding workload_pods_def by blast
      qed
      with Inr show ?thesis by (simp add: ListPods_def)
    qed
  qed
  have sel: "wp (case s of Inl err \<Rightarrow> State_Monad.return (Inl err)
      | Inr podSelector \<Rightarrow> (case e_selector env podSelector of
          Inl err \<Rightarrow> State_Monad.return (Inl (wrap ''parsing label selector'' err))
        | Inr selector \<Rightarrow> ListPods env ns selector \<bind> (\<lambda>l. case l of
            Inl err \<Rightarrow> State_Monad.return (Inl (wrap ''listing pods'' err))
          | Inr pods \<Rightarrow> reload_loop env (SpdyPodReloader env) ns h pods True))) ?Q ?w1"
    if "\<And>x. s = Inr x \<Longrightarrow> workload_selector env w ref ns = Some (Inr x)" for s
    by (intro wp_sum) (use stop that list in \<open>simp_all only: wp_return wp_bind\<close>)
  show ?thesis
    unfolding reloadNatsPods_def wp_bind [of "podSelectorOf env ref ns"] wp_podSelectorOf
    apply (cases "workload_selector env w ref ns")
     apply simp
    apply (simp only: option.case)
    apply (rule sel)
    apply (auto simp: map_sum_Inr_iff)
    done
qed

text \<open>
  C2. No pod is signalled blindly: in every reload pass, whatever fails, each SIGHUP comes
  right after a look at the very same pod that showed the file with the hash of the current
  configuration.
\<close>
theorem reload_signals_only_synced_pods:
  "\<exists>evs. w_trace (snd (run_state (reloadNatsPods env (SpdyPodReloader env) ref ns hash) w)) = evs @ w_trace w \<and>
     confirmed hash evs"
  using reloadNatsPods_trace [of env ref ns hash w] by (auto simp: wp_def case_prod_beta)

text \<open>
  C14. All in sync means all: when a reload pass answers true, every pod listed for the selector of the
  workload was running and has been signalled in this very pass.
\<close>
theorem reload_in_sync_complete:
  assumes "run_state (reloadNatsPods env (SpdyPodReloader env) ref ns hash) w = (Inr True, w')"
  shows "\<exists>evs pods. w_trace w' = evs @ w_trace w \<and> workload_pods env w ref ns pods \<and>
    list_all (\<lambda>p. pod_phase p = PodRunning \<and> list_ex (is_hup ns (pod_name p)) evs) pods"
  unfolding signalled_def [symmetric]
  using wp_run [OF reloadNatsPods_trace assms] by blast

text \<open>
  C22. Waiting is bounded: a wait for a pod ends, after at most eleven pauses of half a second,
  whatever the pod answers, how long the commands take and whether the context is cancelled.
\<close>
theorem waitForCurrentConfig_bounded:
  "\<exists>evs. w_trace (snd (run_state (waitForCurrentConfig env (SpdyPodReloader env) ns podName hash) w)) = evs @ w_trace w \<and>
     waits evs \<le> 11"
  using spdy.waitForCurrentConfig_trace [of env env ns podName hash w]
  by (auto simp: wp_def case_prod_beta)

section \<open>When a pass succeeds\<close>

text \<open>A workload whose pods all answer and all show the file with the given hash.\<close>

definition pods_synced :: "env \<Rightarrow> string \<Rightarrow> string \<Rightarrow> bool" where
  "pods_synced env ns hash \<longleftrightarrow> hash \<noteq> [] \<and>
     (\<forall>w. e_clientset env w = None) \<and> (\<forall>w k. e_executor env w k = None) \<and>
     (\<forall>w p. parseHashHeader (ex_stdout (e_exec env w ns p cat_command)) = hash) \<and>
     (\<forall>w p. ex_error (e_exec env w ns p hup_command) = None)"

lemma wait_synced:
  assumes "pods_synced env ns hash"
  shows "fst (run_state (waitForCurrentConfig env (SpdyPodReloader env) ns p hash) w) = Inr True"
  using assms
  by (auto simp: waitForCurrentConfig_def Now_def wait_loop.simps perform_def SpdyPodReloader_def
      SpdyIsConfigCurrent_def pods_synced_def Let_def)

lemma reload_loop_synced:
  assumes "pods_synced env ns hash" "\<forall>p\<in>set pods. pod_phase p = PodRunning"
  shows "fst (run_state (reload_loop env (SpdyPodReloader env) ns hash pods sync) w) = Inr sync"
  using assms(2)
proof (induction pods arbitrary: w)
  case (Cons p ps)
  obtain w1 where 1: "run_state (waitForCurrentConfig env (SpdyPodReloader env) ns (pod_name p) hash) w = (Inr True, w1)"
    using wait_synced [OF assms(1)] by (metis prod.collapse)
  have "fst (run_state (perform (pl_reload (SpdyPodReloader env) ns (pod_name p))) w1) = None"
    using assms(1) by (simp add: perform_def SpdyPodReloader_def SpdyReloadPod_def pods_synced_def Let_def)
  then obtain w2 where 2: "run_state (perform (pl_reload (SpdyPodReloader env) ns (pod_name p))) w1 = (None, w2)"
    by (metis prod.collapse)
  show ?case using Cons by (simp add: 1 2)
qed simp

lemma pass_succeeds:
  assumes "wr_kind ref = ''Deployment''"
    and "\<And>w'. e_get_deployment env w' (ns, wr_name ref) = Inr s"
    and "e_selector env s = Inr sel"
    and "\<And>w'. e_list_pods env w' ns sel = Inr pods"
    and "\<forall>p\<in>set pods. pod_phase p = PodRunning"
    and "hash \<noteq> []" "\<And>w'. e_clientset env w' = None" "\<And>w' k. e_executor env w' k = None"
    and "\<And>w' p. parseHashHeader (ex_stdout (e_exec env w' ns p cat_command)) = hash"
    and "\<And>w' p. ex_error (e_exec env w' ns p hup_command) = None"
  shows "fst (run_state (reloadNatsPods env (SpdyPodReloader env) ref ns hash) w) = Inr True"
proof -
  have "pods_synced env ns hash" using assms(6-10) by (simp add: pods_synced_def)
  note loop = reload_loop_synced [OF this assms(5)]
  show ?thesis
    using assms(1-4) by (simp add: reloadNatsPods_def podSelectorOf_def GetDeployment_def ListPods_def call_def
        Let_def loop)
qed


subsection \<open>Examples\<close>

definition example_pod :: "string \<Rightarrow> pod" where
  "example_pod n = \<lparr>pod_name = n, pod_namespace = ''ns'', pod_phase = PodRunning, pod_ip = ''10.0.0.1'', pod_owners = []\<rparr>"

definition reload_env :: "string \<Rightarrow> env" where
  "reload_env hash = null_env
     \<lparr>e_get_deployment := \<lambda>_ _. Inr ''app=nats'',
      e_list_pods := \<lambda>_ _ _. Inr [example_pod ''nats-0'', example_pod ''nats-1''],
      e_exec := \<lambda>_ _ _ cmd.
        \<lparr>ex_stdout = (if cmd = cat_command then FormatHashHeader hash else []), ex_stderr = [], ex_error = None\<rparr>\<rparr>"

lemma reload_env_simps [simp]:
  "e_get_deployment (reload_env h) = (\<lambda>_ _. Inr ''app=nats'')" "e_selector (reload_env h) = (\<lambda>s. Inr s)"
  "e_list_pods (reload_env h) = (\<lambda>_ _ _. Inr [example_pod ''nats-0'', example_pod ''nats-1''])"
  "pod_phase (example_pod n) = PodRunning"
  "e_clientset (reload_env h) = (\<lambda>_. None)" "e_executor (reload_env h) = (\<lambda>_ _. None)"
  "ex_error (e_exec (reload_env h) w ns p cmd) = None"
  "ex_stdout (e_exec (reload_env h) w ns p cat_command) = FormatHashHeader h"
  by (simp_all add: reload_env_def example_pod_def)

lemma parse_example: "parseHashHeader (FormatHashHeader ''ab'') = ''ab''"
  by code_simp


lemma example_pass:
  "fst (run_state (reloadNatsPods (reload_env ''ab'') (SpdyPodReloader (reload_env ''ab''))
     \<lparr>wr_kind = ''Deployment'', wr_name = ''nats''\<rparr> ''ns'' ''ab'') start_world) = Inr True"
  by (rule pass_succeeds [where s = "''app=nats''" and sel = "''app=nats''"
        and pods = "[example_pod ''nats-0'', example_pod ''nats-1'']"])
    (simp_all add: parse_example)

theorem reload_in_sync_complete_witness:
  "\<exists>evs pods. w_trace (snd (run_state (reloadNatsPods (reload_env ''ab'') (SpdyPodReloader (reload_env ''ab''))
        \<lparr>wr_kind = ''Deployment'', wr_name = ''nats''\<rparr> ''ns'' ''ab'') start_world)) = evs @ w_trace start_world \<and>
     workload_pods (reload_env ''ab'') start_world \<lparr>wr_kind = ''Deployment'', wr_name = ''nats''\<rparr> ''ns'' pods \<and>
     list_all (\<lambda>p. pod_phase p = PodRunning \<and> list_ex (is_hup ''ns'' (pod_name p)) evs) pods"
  by (rule reload_in_sync_complete [where hash = "''ab''" and ref = "\<lparr>wr_kind = ''Deployment'', wr_name = ''nats''\<rparr>"])
    (simp only: prod_eq_iff fst_conv snd_conv example_pass)

end
