(* ===== verification/ReconcileCluster.thy ===== *)
theory ReconcileCluster
  imports NatsGenerate GoSha256 ReconcileUsers ReloadPods
begin

text \<open>
  \<open>Reconcile\<close> of \<open>internal/controller/natscluster_controller.go\<close>, the root operation of the
  operator: read the cluster, gather accounts and users, write the configuration into a ConfigMap,
  reload the servers that already see it, and record in the status how far that got. The fields of the
  reconciler that outlive a pass are a record passed along.
\<close>

section \<open>The reconciler and its results\<close>

record reconciler =
  rc_pod_reloader :: pod_reloader
  rc_identity :: operator_identity
  rc_reloaded_once :: "object_key list"

record ctrl_result =
  cr_requeue :: bool
  cr_requeue_after :: nat

definition no_requeue :: ctrl_result where
  "no_requeue = \<lparr>cr_requeue = False, cr_requeue_after = 0\<rparr>"

definition requeue_soon :: ctrl_result where
  "requeue_soon = \<lparr>cr_requeue = False, cr_requeue_after = 5 * 10 ^ 9\<rparr>"

definition listMatchingAccounts :: "env \<Rightarrow> nats_cluster \<Rightarrow> (goerr + nats_account list) io" where
  "listMatchingAccounts env cluster =
     do {
       r \<leftarrow> ListAccounts env (cluster_namespace cluster);
       State_Monad.return
         (case r of
            Inl err \<Rightarrow> Inl err
          | Inr items \<Rightarrow>
              Inr (sort_key account_name
                (filter (\<lambda>acct. as_cluster_ref (ac_spec acct) = cluster_name cluster) items)))
     }"

definition listAllUsers :: "env \<Rightarrow> (goerr + nats_user list) io" where
  "listAllUsers env =
     do {
       r \<leftarrow> ListUsers env;
       State_Monad.return (case r of Inl err \<Rightarrow> Inl err | Inr items \<Rightarrow> Inr items)
     }"

section \<open>The ConfigMap\<close>

definition mutateConfigMap :: "env \<Rightarrow> nats_cluster \<Rightarrow> string \<Rightarrow> config_map \<Rightarrow> goerr + config_map" where
  "mutateConfigMap env cluster configStr cm =
     (let cm' = cm\<lparr>cm_data := [(''auth.conf'', configStr)]\<rparr> in
      case e_set_controller env cluster cm' of Some err \<Rightarrow> Inl err | None \<Rightarrow> Inr cm')"

definition ensureConfigMap :: "env \<Rightarrow> nats_cluster \<Rightarrow> string \<Rightarrow> (goerr + operation_result) io" where
  "ensureConfigMap env cluster configStr =
     (let cm = \<lparr>cm_namespace = cluster_namespace cluster, cm_name = cluster_name cluster @ ''-nats-config'',
                cm_data = []\<rparr>
      in do {
        r \<leftarrow> CreateOrUpdate env cm (mutateConfigMap env cluster configStr);
        State_Monad.return (map_sum id fst r)
      })"

section \<open>System account conflicts\<close>

fun join_space :: "string list \<Rightarrow> string" where
  "join_space [] = []"
| "join_space [s] = s"
| "join_space (s # t # ss) = s @ '' '' @ join_space (t # ss)"

definition conflictMessage :: "env \<Rightarrow> nats_cluster \<Rightarrow> string list \<Rightarrow> string" where
  "conflictMessage env cluster conflicts =
     ''multiple NatsAccounts in cluster '' @ Quote (e_printable env) (cluster_name cluster)
     @ '' have spec.systemAccount=true: ['' @ join_space conflicts @ ''] ''
     @ [CHR 0xE2, CHR 0x80, CHR 0x94]
     @ '' refusing to designate any until exactly one remains''"

text \<open>The flag that comes back is set as soon as one of the updates is refused.\<close>

fun markConflicts :: "env \<Rightarrow> string \<Rightarrow> string list \<Rightarrow> nats_account list \<Rightarrow> bool \<Rightarrow> bool io" where
  "markConflicts env msg conflicts [] failed = State_Monad.return failed"
| "markConflicts env msg conflicts (acct # accts) failed =
     (if account_name acct \<notin> set conflicts then markConflicts env msg conflicts accts failed
      else do {
        (condErr, _) \<leftarrow> setAccountCondition env acct ConditionFalse ReasonSystemAccountConflict msg;
        markConflicts env msg conflicts accts (failed \<or> condErr \<noteq> None)
      })"

definition surfaceConflicts :: "env \<Rightarrow> nats_cluster \<Rightarrow> nats_config \<Rightarrow> nats_account list \<Rightarrow> bool \<Rightarrow> bool io" where
  "surfaceConflicts env cluster cfg accts failed =
     (if length (nc_system_account_conflicts cfg) > 0 then
        markConflicts env (conflictMessage env cluster (nc_system_account_conflicts cfg))
          (nc_system_account_conflicts cfg) accts failed
      else State_Monad.return failed)"

section \<open>Reload and status\<close>

text \<open>
  Every early return of \<open>Reconcile\<close> after the cluster has been read: the condition is set,
  the outcome of setting it ignored, and the error handed to the work queue.
\<close>

definition failCluster ::
  "env \<Rightarrow> reconciler \<Rightarrow> nats_cluster \<Rightarrow> string \<Rightarrow> goerr \<Rightarrow> ((ctrl_result \<times> goerr option) \<times> reconciler) io" where
  "failCluster env r cluster message err =
     do {
       _ \<leftarrow> setClusterCondition env cluster ConditionFalse ReasonReconcileError message;
       State_Monad.return ((no_requeue, Some err), r)
     }"

definition needsReload :: "reconciler \<Rightarrow> object_key \<Rightarrow> nats_cluster \<Rightarrow> string \<Rightarrow> bool" where
  "needsReload r req cluster hash =
     (let alreadyReloaded = req \<in> set (rc_reloaded_once r);
          configChanged = (hash \<noteq> cst_last_config_hash (cl_status cluster))
      in cs_server_ref (cl_spec cluster) \<noteq> None \<and> (configChanged \<or> \<not> alreadyReloaded))"

text \<open>Steps 8 and 9: the status of the cluster, and whether to come back.\<close>

definition finishedStatus :: "env \<Rightarrow> nats_cluster \<Rightarrow> nat \<Rightarrow> nat \<Rightarrow> string \<Rightarrow> bool \<Rightarrow> nats_cluster" where
  "finishedStatus env cluster accounts users hash allPodsInSync =
     (let st = (cl_status cluster)\<lparr>cst_account_count := accounts, cst_user_count := users\<rparr>;
          st' = (if allPodsInSync then st\<lparr>cst_last_config_hash := hash\<rparr> else st)
      in cluster\<lparr>cl_status := st'\<lparr>cst_conditions := e_set_condition env (cst_conditions st')
           (readyCondition ConditionTrue ReasonReconciled
             (''Reconciled '' @ show_nat accounts @ '' accounts, '' @ show_nat users @ '' users'')
             (meta_generation (cl_meta cluster)))\<rparr>\<rparr>)"

definition finishReconcile ::
  "env \<Rightarrow> nats_cluster \<Rightarrow> nat \<Rightarrow> nat \<Rightarrow> string \<Rightarrow> bool \<Rightarrow> bool \<Rightarrow> (ctrl_result \<times> goerr option) io" where
  "finishReconcile env cluster accounts users hash statusUpdateFailed allPodsInSync =
     do {
       u \<leftarrow> UpdateClusterStatus env (finishedStatus env cluster accounts users hash allPodsInSync);
       State_Monad.return
         (case u of
            Some err \<Rightarrow> if IsConflict err then (\<lparr>cr_requeue = True, cr_requeue_after = 0\<rparr>, None)
                        else (no_requeue, Some err)
          | None \<Rightarrow> if statusUpdateFailed then (requeue_soon, None)
                    else if \<not> allPodsInSync then (requeue_soon, None)
                    else (no_requeue, None))
     }"

text \<open>Step 7, then the rest.\<close>

definition reloadAndFinish ::
  "env \<Rightarrow> reconciler \<Rightarrow> object_key \<Rightarrow> nats_cluster \<Rightarrow> nat \<Rightarrow> nat \<Rightarrow> string \<Rightarrow> bool \<Rightarrow>
     ((ctrl_result \<times> goerr option) \<times> reconciler) io" where
  "reloadAndFinish env r req cluster accounts users hash statusUpdateFailed =
     (if needsReload r req cluster hash then
        do {
          s \<leftarrow> reloadNatsPods env (rc_pod_reloader r) (the (cs_server_ref (cl_spec cluster)))
                 (cluster_namespace cluster) hash;
          (case s of
             Inl err \<Rightarrow> failCluster env r cluster (''failed to reload NATS pods: '' @ emsg err) err
           | Inr inSync \<Rightarrow>
               do {
                 x \<leftarrow> finishReconcile env cluster accounts users hash statusUpdateFailed inSync;
                 State_Monad.return (x, r\<lparr>rc_reloaded_once := List.insert req (rc_reloaded_once r)\<rparr>)
               })
        }
      else do {
        x \<leftarrow> finishReconcile env cluster accounts users hash statusUpdateFailed True;
        State_Monad.return (x, r)
      })"

text \<open>Steps 5 and 6, then the rest.\<close>

definition publishConfig ::
  "env \<Rightarrow> reconciler \<Rightarrow> object_key \<Rightarrow> nats_cluster \<Rightarrow> nat \<Rightarrow> nat \<Rightarrow> nats_config \<Rightarrow> bool \<Rightarrow>
     ((ctrl_result \<times> goerr option) \<times> reconciler) io" where
  "publishConfig env r req cluster accounts users cfg statusUpdateFailed =
     (let configBody = Generate (e_printable env) cfg;
          hash = sha256_hex configBody;
          configStr = FormatHashHeader hash @ configBody
      in do {
        e \<leftarrow> ensureConfigMap env cluster configStr;
        (case e of
           Inl err \<Rightarrow> failCluster env r cluster (emsg err) err
         | Inr _ \<Rightarrow> reloadAndFinish env r req cluster accounts users hash statusUpdateFailed)
      })"

section \<open>Reconcile\<close>

definition reconcileCluster ::
  "env \<Rightarrow> reconciler \<Rightarrow> object_key \<Rightarrow> nats_cluster \<Rightarrow> nats_account list \<Rightarrow> nats_user list \<Rightarrow>
     ((ctrl_result \<times> goerr option) \<times> reconciler) io" where
  "reconcileCluster env r req cluster matchingAccounts allUsers =
     do {
       (ra, statusUpdateFailed, accts) \<leftarrow>
         reconcileAccountsAndUsers env (rc_identity r) cluster matchingAccounts allUsers;
       (case ra of
          Inl err \<Rightarrow> State_Monad.return ((no_requeue, Some err), r)
        | Inr (accountsWithUsers, users) \<Rightarrow>
            do {
              let cfg = ConvertToNatsConfig accountsWithUsers;
              failed \<leftarrow> surfaceConflicts env cluster cfg accts statusUpdateFailed;
              publishConfig env r req cluster (length accts) users cfg failed
            })
     }"

definition Reconcile ::
  "env \<Rightarrow> reconciler \<Rightarrow> object_key \<Rightarrow> ((ctrl_result \<times> goerr option) \<times> reconciler) io" where
  "Reconcile env r req =
     do {
       g \<leftarrow> GetCluster env req;
       (case g of
          Inl err \<Rightarrow> State_Monad.return ((no_requeue, if IsNotFound err then None else Some err), r)
        | Inr cluster \<Rightarrow>
            do {
              m \<leftarrow> listMatchingAccounts env cluster;
              (case m of
                 Inl err \<Rightarrow> failCluster env r cluster (emsg err) err
               | Inr matchingAccounts \<Rightarrow>
                   do {
                     l \<leftarrow> listAllUsers env;
                     (case l of
                        Inl err \<Rightarrow> failCluster env r cluster (emsg err) err
                      | Inr allUsers \<Rightarrow> reconcileCluster env r req cluster matchingAccounts allUsers)
                   })
            })
     }"

section \<open>What happens before the ConfigMap is written\<close>

fun preparing :: "event \<Rightarrow> bool" where
  "preparing (ClusterStatusUpdated _ _) = False"
| "preparing (ConfigMapApplied _ _) = False"
| "preparing (Executed _ _ _ _) = False"
| "preparing (Slept _) = False"
| "preparing (HttpGot _) = False"
| "preparing _ = True"

lemma reads_preparing: "reads e \<Longrightarrow> preparing e"
  by (cases e) auto

lemma publish_preparing: "emits preparing (publishKeyStatus env user pk ip)"
  unfolding publishKeyStatus_def UpdateUserStatus_def
  by (intro emits_bind emits_call emits_return) simp

lemma Ensure_preparing: "emits preparing (EnsureNKeySecret env user)"
proof -
  have key: "emits preparing (GenerateUserNKey env)"
    by (rule emits_mono [OF GenerateUserNKey_emits]) simp
  have prefix: "emits preparing (resolveInboxPrefix env ov)" for ov
    unfolding resolveInboxPrefix_def
    by (intro emits_if emits_return emits_mono [OF GenerateInboxPrefix_emits]) simp
  have adjust: "emits preparing (adjustPrefix env user s)" for s
    unfolding adjustPrefix_def Let_def
    by (intro emits_if emits_bind emits_return prefix)
  have written: "emits preparing (writeAdopted env user s ip s' b)" for s ip s' b
    unfolding writeAdopted_def UpdateSecret_def
    by (intro emits_bind emits_option emits_if emits_call emits_return publish_preparing) simp
  have adopt: "emits preparing (adoptSecret env user s)" for s
    unfolding adoptSecret_def
    by (intro emits_bind adjust emits_sum emits_return emits_prod written)
  have data: "emits preparing (newSecretData env user pk seed)" for pk seed
    unfolding newSecretData_def Let_def
    by (intro emits_if emits_bind emits_return prefix)
  have create: "emits preparing (createSecret env user)"
    unfolding createSecret_def CreateSecret_def
    by (intro emits_bind key emits_sum emits_return emits_prod data emits_call emits_option publish_preparing) simp
  show ?thesis
    unfolding EnsureNKeySecret_def GetSecret_def
    by (intro emits_bind emits_call emits_sum emits_if emits_return adopt create) simp
qed

lemma setUser_preparing: "emits preparing (setUserCondition env u st rs ms)"
  unfolding setUserCondition_def Let_def UpdateUserStatus_def
  by (intro emits_bind emits_call emits_return) simp

lemma setAccount_preparing: "emits preparing (setAccountCondition env a st rs ms)"
  unfolding setAccountCondition_def Let_def UpdateAccountStatus_def
  by (intro emits_bind emits_call emits_return) simp

lemma emits_case_bool [intro]:
  "(b \<Longrightarrow> emits P m) \<Longrightarrow> (\<not> b \<Longrightarrow> emits P n) \<Longrightarrow> emits P (case b of True \<Rightarrow> m | False \<Rightarrow> n)"
  by (cases b) simp_all

lemma reconcileUser_preparing: "emits preparing (reconcileUser env oid cluster sys acct user)"
  unfolding reconcileUser_def
  by (intro emits_if emits_bind emits_return emits_sum emits_prod emits_case_bool setUser_preparing Ensure_preparing
      emits_mono [OF client_namespaces.Evaluate_reads] reads_preparing)

lemma reconcileUsers_preparing: "emits preparing (reconcileUsers env oid cluster sys acct users)"
proof (induction users)
  case (Cons u us)
  show ?case
    unfolding reconcileUsers.simps
    by (intro emits_bind reconcileUser_preparing emits_prod emits_sum emits_return Cons)
qed simp

lemma reconcileAccount_preparing: "emits preparing (reconcileAccount env oid cluster sys acct users)"
  unfolding reconcileAccount_def Let_def
  by (intro emits_option emits_bind emits_return emits_sum emits_prod setAccount_preparing reconcileUsers_preparing)

lemma reconcileAccounts_preparing: "emits preparing (reconcileAccounts env oid cluster sys accts users)"
proof (induction accts arbitrary: users)
  case (Cons a as)
  show ?case
    unfolding reconcileAccounts.simps
    by (intro emits_bind reconcileAccount_preparing emits_prod emits_sum emits_return Cons)
qed simp

lemma pass_preparing: "emits preparing (reconcileAccountsAndUsers env oid cluster accts users)"
  unfolding reconcileAccountsAndUsers_def
  by (intro emits_bind reconcileAccounts_preparing emits_prod emits_return)

lemma markConflicts_preparing: "emits preparing (markConflicts env msg cs accts failed)"
  by (induction env msg cs accts failed rule: markConflicts.induct)
    (auto intro!: emits_bind emits_prod setAccount_preparing)

lemma surface_preparing: "emits preparing (surfaceConflicts env cluster cfg accts failed)"
  unfolding surfaceConflicts_def
  by (intro emits_if markConflicts_preparing emits_return)

lemma markConflicts_reported:
  "reported failed w0 w \<Longrightarrow> wp (markConflicts env msg cs accts failed) (\<lambda>f w'. reported f w0 w') w"
proof (induction accts arbitrary: failed w)
  case (Cons a as)
  then show ?case
    by (auto simp: wp_setAccount Let_def intro!: Cons.IH intro: reported_step)
qed simp

lemma surface_reported:
  "reported failed w0 w \<Longrightarrow> wp (surfaceConflicts env cluster cfg accts failed) (\<lambda>f w'. reported f w0 w') w"
  by (simp add: surfaceConflicts_def markConflicts_reported)

section \<open>What happens after it\<close>

lemma wp_failCluster:
  "wp (failCluster env r cluster message err) Q w \<longleftrightarrow>
     (let c = cluster\<lparr>cl_status := (cl_status cluster)
            \<lparr>cst_conditions := e_set_condition env (cst_conditions (cl_status cluster))
               (readyCondition ConditionFalse ReasonReconcileError message (meta_generation (cl_meta cluster)))\<rparr>\<rparr> in
      Q ((no_requeue, Some err), r)
        (w\<lparr>w_trace := ClusterStatusUpdated c (e_update_cluster_status env w c) # w_trace w,
           w_clock := w_clock w + e_latency env w\<rparr>))"
  by (simp add: failCluster_def setClusterCondition_def UpdateClusterStatus_def Let_def)

abbreviation recorded_hash :: "nats_cluster \<Rightarrow> string" where
  "recorded_hash c \<equiv> cst_last_config_hash (cl_status c)"

lemma finishedStatus_hash:
  "recorded_hash (finishedStatus env cluster a u hash sync) = (if sync then hash else recorded_hash cluster)"
  by (simp add: finishedStatus_def Let_def)

lemma requeue_soon_neq [simp]: "requeue_soon \<noteq> no_requeue"
  by (simp add: requeue_soon_def no_requeue_def)

fun is_exec :: "event \<Rightarrow> bool" where
  "is_exec (Executed _ _ _ _) = True"
| "is_exec _ = False"

text \<open>All pods listed for the workload, by a pass that starts in \<open>w\<close>, were running and were signalled.\<close>

definition all_signalled :: "env \<Rightarrow> world \<Rightarrow> nats_cluster \<Rightarrow> event list \<Rightarrow> bool" where
  "all_signalled env w cluster evs \<longleftrightarrow>
     (\<exists>ref pods. cs_server_ref (cl_spec cluster) = Some ref \<and>
        workload_pods env w ref (cluster_namespace cluster) pods \<and> signalled (cluster_namespace cluster) evs pods)"

lemma all_signalled_mono: "all_signalled env w cluster evs \<Longrightarrow> set evs \<subseteq> set evs' \<Longrightarrow> all_signalled env w cluster evs'"
  unfolding all_signalled_def signalled_def by (fastforce simp: list_all_iff list_ex_iff)

definition late_ok ::
  "env \<Rightarrow> world \<Rightarrow> reconciler \<Rightarrow> object_key \<Rightarrow> nats_cluster \<Rightarrow> string \<Rightarrow> bool \<Rightarrow> ctrl_result \<Rightarrow>
     goerr option \<Rightarrow> reconciler \<Rightarrow> event list \<Rightarrow> bool" where
  "late_ok env w0 r req cluster hash failed res err r' evs \<longleftrightarrow>
     confirmed hash evs \<and> \<not> list_ex status_failure evs \<and>
     (\<forall>c e. ClusterStatusUpdated c e \<in> set evs \<longrightarrow> recorded_hash c \<noteq> recorded_hash cluster \<longrightarrow>
        recorded_hash c = hash \<and>
        (cs_server_ref (cl_spec cluster) = None \<or> all_signalled env w0 cluster evs)) \<and>
     (list_ex is_exec evs \<longrightarrow> needsReload r req cluster hash) \<and>
     (err = None \<and> res = no_requeue \<longrightarrow>
        \<not> failed \<and> (\<exists>c. ClusterStatusUpdated c None \<in> set evs \<and> recorded_hash c = hash)) \<and>
     (err = None \<and> cs_server_ref (cl_spec cluster) \<noteq> None \<longrightarrow> req \<in> set (rc_reloaded_once r')) \<and>
     (err = None \<and> req \<notin> set (rc_reloaded_once r) \<and> cs_server_ref (cl_spec cluster) \<noteq> None \<and>
        res = no_requeue \<longrightarrow> all_signalled env w0 cluster evs) \<and>
     set (rc_reloaded_once r) \<subseteq> set (rc_reloaded_once r') \<and>
     set (rc_reloaded_once r') \<subseteq> insert req (set (rc_reloaded_once r))"

lemma wp_finish:
  "wp (finishReconcile env cluster a u hash failed sync) Q w \<longleftrightarrow>
     (let c = finishedStatus env cluster a u hash sync; e = e_update_cluster_status env w c in
      Q (case e of
            Some err \<Rightarrow> if IsConflict err then (\<lparr>cr_requeue = True, cr_requeue_after = 0\<rparr>, None)
                        else (no_requeue, Some err)
          | None \<Rightarrow> if failed then (requeue_soon, None)
                    else if \<not> sync then (requeue_soon, None)
                    else (no_requeue, None))
        (w\<lparr>w_trace := ClusterStatusUpdated c e # w_trace w, w_clock := w_clock w + e_latency env w\<rparr>))"
  by (simp add: finishReconcile_def UpdateClusterStatus_def Let_def)

lemma conflict_result [simp]: "\<lparr>cr_requeue = True, cr_requeue_after = 0\<rparr> \<noteq> no_requeue"
  by (simp add: no_requeue_def)

lemma late_finish:
  assumes "confirmed hash evs" "\<not> list_ex status_failure evs" "\<forall>c e. ClusterStatusUpdated c e \<notin> set evs"
    and "w_trace w = evs @ w_trace w0"
    and "list_ex is_exec evs \<longrightarrow> needsReload r req cluster hash"
    and "sync \<longrightarrow> cs_server_ref (cl_spec cluster) = None \<or> hash = recorded_hash cluster \<and> req \<in> set (rc_reloaded_once r) \<or>
      all_signalled env w0 cluster evs"
    and "cs_server_ref (cl_spec cluster) \<noteq> None \<longrightarrow> req \<in> set (rc_reloaded_once r')"
    and "set (rc_reloaded_once r) \<subseteq> set (rc_reloaded_once r')"
    and "set (rc_reloaded_once r') \<subseteq> insert req (set (rc_reloaded_once r))"
  shows "wp (finishReconcile env cluster a u hash failed sync)
    (\<lambda>(res, err) w'. \<exists>evs. w_trace w' = evs @ w_trace w0 \<and> late_ok env w0 r req cluster hash failed res err r' evs) w"
proof -
  let ?c = "finishedStatus env cluster a u hash sync"
  let ?e = "e_update_cluster_status env w ?c"
  let ?evs = "ClusterStatusUpdated ?c ?e # evs"
  have conf: "confirmed hash ?evs" using assms(1) by simp
  have sig: "all_signalled env w0 cluster evs \<Longrightarrow> all_signalled env w0 cluster ?evs"
    by (rule all_signalled_mono) auto
  have exec: "list_ex is_exec ?evs \<longrightarrow> needsReload r req cluster hash" using assms(5) by simp
  define x where "x = (case ?e of
            Some err \<Rightarrow> if IsConflict err then (\<lparr>cr_requeue = True, cr_requeue_after = 0\<rparr>, None)
                        else (no_requeue, Some err)
          | None \<Rightarrow> if failed then (requeue_soon, None)
                    else if \<not> sync then (requeue_soon, None)
                    else (no_requeue, None :: goerr option))"
  have x: "?e = None \<and> \<not> failed \<and> sync" if "fst x = no_requeue" "snd x = None"
    using that by (auto simp: x_def split: option.splits if_splits)
  have "late_ok env w0 r req cluster hash failed (fst x) (snd x) r' ?evs"
    unfolding late_ok_def finishedStatus_hash
    using conf exec sig assms(2,3,6-) x
    by (auto simp: finishedStatus_hash simp del: confirmed.simps split: if_splits)
  then show ?thesis
    unfolding wp_finish Let_def x_def [symmetric] using assms(4)
    by (auto simp: case_prod_beta intro!: exI [of _ ?evs])
qed

text \<open>A reload pass reads, runs commands in pods and waits.\<close>

fun reloading :: "event \<Rightarrow> bool" where
  "reloading (Got _ _) = True"
| "reloading (Listed _ _) = True"
| "reloading (Executed _ _ _ _) = True"
| "reloading (Slept _) = True"
| "reloading _ = False"

lemma reads_reloading: "reads e \<Longrightarrow> reloading e"
  by (cases e) auto

lemma harmless_reloading: "harmless e \<Longrightarrow> reloading e"
  by (cases e) (auto simp: harmless_def)

lemma hup_reloading: "is_hup ns p e \<Longrightarrow> reloading e"
  by (cases e) (auto simp: is_hup_def)

context reloader begin

lemma check_reloading: "emits reloading (perform (pl_is_current R ns p h))"
proof (rule emits_perform)
  fix w r evs d
  assume "pl_is_current R ns p h w = (r, evs, d)"
  then show "list_all reloading evs"
    using check_harmless harmless_reloading by (metis (no_types, lifting) list.pred_mono_strong)
qed

lemma reload_reloading: "emits reloading (perform (pl_reload R ns p))"
proof (rule emits_perform)
  fix w r evs d
  assume "pl_reload R ns p w = (r, evs, d)"
  then show "list_all reloading evs"
    using reload_once [of ns p w r evs d] hup_reloading by (auto simp: list_all_iff)
qed

lemma wait_loop_extends: "extends reloading w (snd (wait_loop env R dl ns p h w))"
proof (induction "dl + 1 - w_clock w" arbitrary: w rule: less_induct)
  case less
  let ?check = "run_state (perform (pl_is_current R ns p h)) w"
  obtain r w1 where 1: "?check = (r, w1)" by force
  have e1: "extends reloading w w1"
    using emits_extends [OF check_reloading, of ns p h w] 1 by (simp add: wp_def)
  obtain c w2 where 2: "run_state (WaitOrCancel env configSyncPoll) w1 = (c, w2)" by force
  have "wp (WaitOrCancel env configSyncPoll) (\<lambda>_ w2. extends reloading w1 w2) w1"
    by (rule emits_extends, rule emits_Wait) simp
  then have e2: "extends reloading w w2"
    using e1 2 by (auto simp: wp_def intro: extends_trans)
  have ih: "extends reloading w (snd (wait_loop env R dl ns p h w2))"
    if "r = Inr False" "\<not> w_clock w1 > dl" "c = None"
    using less.hyps [OF wait_loop_progress [OF 1]] that 2 extends_trans [OF e2] by auto
  show ?case
    using e1 e2 ih 1 2 by (subst wait_loop.simps) (auto split: sum.split option.split)
qed

lemma waitFor_extends: "wp (waitForCurrentConfig env R ns p h) (\<lambda>_ w'. extends reloading w w') w"
  using wait_loop_extends by (simp add: waitForCurrentConfig_def case_prod_beta)

lemma reload_loop_extends: "wp (reload_loop env R ns h pods sync) (\<lambda>_ w'. extends reloading w w') w"
proof (induction pods arbitrary: sync w)
  case Nil
  then show ?case by (simp add: extends_refl)
next
  case (Cons p ps)
  have tail: "wp (reload_loop env R ns h ps s) (\<lambda>_ w'. extends reloading w w') w1" if "extends reloading w w1" for s w1
    by (rule wp_mono [OF Cons.IH]) (rule extends_trans [OF that])
  show ?case
    unfolding reload_loop.simps
    apply (rule wp_if)
     apply (rule Cons.IH)
    unfolding wp_bind
    apply (rule wp_mono [OF waitFor_extends])
    apply (rule wp_sum)
     apply simp
    apply (rule wp_if)
     apply (rule tail, assumption)
    unfolding wp_bind
    apply (rule wp_mono [OF emits_extends [OF reload_reloading]])
    apply (drule (1) extends_trans)
    apply (rule wp_option)
     apply (rule tail, assumption)
    apply simp
    done
qed

lemma reloadNatsPods_extends: "wp (reloadNatsPods env R ref ns h) (\<lambda>_ w'. extends reloading w w') w"
  unfolding reloadNatsPods_def wp_bind
  apply (rule wp_mono [OF emits_extends [OF emits_mono [OF podSelectorOf_reads reads_reloading]]])
   apply assumption
  apply (rule wp_sum)
   apply simp
  apply (rule wp_sum)
   apply simp
  unfolding wp_bind ListPods_def wp_call
  apply (rule wp_sum)
   apply (simp add: extends_call del: extends_call2)
  apply (rule wp_mono [OF reload_loop_extends])
  apply (rule extends_trans [rotated], assumption)
  apply simp
  done

end

abbreviation late :: "env \<Rightarrow> reconciler \<Rightarrow> object_key \<Rightarrow> nats_cluster \<Rightarrow> string \<Rightarrow> bool \<Rightarrow> world \<Rightarrow>
    (ctrl_result \<times> goerr option) \<times> reconciler \<Rightarrow> world \<Rightarrow> bool" where
  "late env r req cluster hash failed w0 \<equiv> \<lambda>((res, err), r') w'.
     \<exists>evs. w_trace w' = evs @ w_trace w0 \<and> late_ok env w0 r req cluster hash failed res err r' evs"

lemma confirmed_status [simp]: "confirmed h (ClusterStatusUpdated c e # evs) = confirmed h evs"
  by simp

lemma late_fail:
  assumes "confirmed hash evs" "\<not> list_ex status_failure evs" "\<forall>c e. ClusterStatusUpdated c e \<notin> set evs"
    and "w_trace w = evs @ w_trace w0"
    and "list_ex is_exec evs \<longrightarrow> needsReload r req cluster hash"
  shows "wp (failCluster env r cluster msg err) (late env r req cluster hash failed w0) w"
  unfolding wp_failCluster Let_def prod.case
  by (rule exI [of _ "_ # evs"]) (use assms in \<open>auto simp: late_ok_def simp del: confirmed.simps\<close>)

lemma late_reload:
  assumes R: "rc_pod_reloader r = SpdyPodReloader env"
  shows "wp (reloadAndFinish env r req cluster a u hash failed) (late env r req cluster hash failed w) w"
proof (cases "needsReload r req cluster hash")
  case False
  have "wp (finishReconcile env cluster a u hash failed True) (\<lambda>x w'. late env r req cluster hash failed w (x, r) w') w"
    by (rule wp_mono [OF late_finish [of hash "[]" w w r req cluster True env r a u failed]])
      (use False in \<open>auto simp: needsReload_def Let_def\<close>)
  with False show ?thesis
    by (simp add: reloadAndFinish_def)
next
  case True
  let ?ns = "cluster_namespace cluster"
  obtain ref where ref: "cs_server_ref (cl_spec cluster) = Some ref"
    using True by (auto simp: needsReload_def Let_def)
  have trace: "wp (reloadNatsPods env (SpdyPodReloader env) ref ?ns hash)
      (\<lambda>s w1. \<exists>evs. w_trace w1 = evs @ w_trace w \<and> confirmed hash evs \<and>
         (s = Inr True \<longrightarrow> all_signalled env w cluster evs) \<and> list_all reloading evs) w"
    by (rule wp_mono [OF wp_conj [OF reloadNatsPods_trace spdy.reloadNatsPods_extends]])
      (auto simp: extends_def all_signalled_def ref)
  have no_failure: "\<not> list_ex status_failure evs" if "list_all reloading evs" for evs
  proof -
    have "reloading e \<Longrightarrow> \<not> status_failure e" for e by (cases e) auto
    with that show ?thesis by (auto simp: list_all_iff list_ex_iff)
  qed
  have no_status: "list_all reloading evs \<Longrightarrow> \<forall>c e. ClusterStatusUpdated c e \<notin> set evs" for evs
    by (auto simp: list_all_iff)
  show ?thesis
    unfolding reloadAndFinish_def R if_P [OF True] ref option.sel wp_bind
    apply (rule wp_mono [OF trace])
    apply (elim exE conjE)
    apply (rule wp_sum)
     apply (rule late_fail)
         apply assumption
        apply (erule no_failure)
       apply (erule no_status)
      apply assumption
     apply (simp add: True)
    unfolding wp_bind wp_return
    subgoal for s w1 evs sync
      by (rule wp_mono [OF late_finish [where evs = evs and w = w1 and ?w0.0 = w and sync = sync
              and r' = "r\<lparr>rc_reloaded_once := List.insert req (rc_reloaded_once r)\<rparr>"]])
        (use no_status no_failure True in auto)
    done
qed


lemma wp_ensureConfigMap:
  "wp (ensureConfigMap env cluster configStr) Q w \<longleftrightarrow>
     (let cm = \<lparr>cm_namespace = cluster_namespace cluster, cm_name = cluster_name cluster @ ''-nats-config'',
                cm_data = []\<rparr>;
          x = e_create_or_update env w cm (mutateConfigMap env cluster configStr) in
      Q (map_sum id fst x)
        (w\<lparr>w_trace := ConfigMapApplied (cluster_namespace cluster, cluster_name cluster @ ''-nats-config'') x # w_trace w,
           w_clock := w_clock w + e_latency env w\<rparr>))"
  by (simp add: ensureConfigMap_def CreateOrUpdate_def Let_def)

text \<open>
  What \<open>controllerutil.CreateOrUpdate\<close> documents: when it succeeds, the object is one that
  the function brought to its desired state, starting from an object of the same key.
\<close>

definition create_or_update_ok :: "env \<Rightarrow> bool" where
  "create_or_update_ok env \<longleftrightarrow>
     (\<forall>w cm f op cm'. e_create_or_update env w cm f = Inr (op, cm') \<longrightarrow>
        (\<exists>cm0. cm_namespace cm0 = cm_namespace cm \<and> cm_name cm0 = cm_name cm \<and> f cm0 = Inr cm'))"

definition config_content :: "env \<Rightarrow> nats_config \<Rightarrow> string" where
  "config_content env cfg =
     (let body = Generate (e_printable env) cfg in FormatHashHeader (sha256_hex body) @ body)"

definition config_hash :: "env \<Rightarrow> nats_config \<Rightarrow> string" where
  "config_hash env cfg = sha256_hex (Generate (e_printable env) cfg)"

text \<open>The ConfigMap of a cluster holds the file for the given configuration.\<close>

definition holds_config :: "env \<Rightarrow> nats_cluster \<Rightarrow> nats_config \<Rightarrow> config_map \<Rightarrow> bool" where
  "holds_config env cluster cfg cm \<longleftrightarrow>
     cm_namespace cm = cluster_namespace cluster \<and> cm_name cm = cluster_name cluster @ ''-nats-config'' \<and>
     cm_data cm = [(''auth.conf'', config_content env cfg)]"

lemma mutate_holds:
  assumes "mutateConfigMap env cluster (config_content env cfg) cm0 = Inr cm"
    "cm_namespace cm0 = cluster_namespace cluster" "cm_name cm0 = cluster_name cluster @ ''-nats-config''"
  shows "holds_config env cluster cfg cm"
  using assms by (auto simp: mutateConfigMap_def holds_config_def Let_def split: option.splits)

text \<open>
  What the last part of a pass leaves behind, from the moment the ConfigMap is written: the write failed
  and an error status follows, or it holds the file, and the late part follows.
\<close>

definition written ::
  "env \<Rightarrow> reconciler \<Rightarrow> object_key \<Rightarrow> nats_cluster \<Rightarrow> nats_config \<Rightarrow> bool \<Rightarrow> world \<Rightarrow>
     (ctrl_result \<times> goerr option) \<times> reconciler \<Rightarrow> world \<Rightarrow> bool" where
  "written env r req cluster cfg failed w = (\<lambda>((res, err), r') w'.
     \<exists>wm x evs. w_trace wm = ConfigMapApplied
           (cluster_namespace cluster, cluster_name cluster @ ''-nats-config'') x # w_trace w \<and>
         w_trace w' = evs @ w_trace wm \<and>
         (case x of
            Inl e \<Rightarrow> err = Some e \<and> r' = r \<and> (\<exists>c b. evs = [ClusterStatusUpdated c b] \<and> recorded_hash c = recorded_hash cluster)
          | Inr (op, cm) \<Rightarrow> holds_config env cluster cfg cm \<and>
              late_ok env wm r req cluster (config_hash env cfg) failed res err r' evs))"

lemma publish_post:
  assumes R: "rc_pod_reloader r = SpdyPodReloader env" and ok: "create_or_update_ok env"
  shows "wp (publishConfig env r req cluster a u cfg failed) (written env r req cluster cfg failed w) w"
    (is "wp _ ?Q w")
proof -
  let ?key = "(cluster_namespace cluster, cluster_name cluster @ ''-nats-config'')"
  let ?cm = "\<lparr>cm_namespace = cluster_namespace cluster, cm_name = cluster_name cluster @ ''-nats-config'', cm_data = []\<rparr>"
  let ?x = "e_create_or_update env w ?cm (mutateConfigMap env cluster (config_content env cfg))"
  let ?wm = "w\<lparr>w_trace := ConfigMapApplied ?key ?x # w_trace w, w_clock := w_clock w + e_latency env w\<rparr>"
  have unfolded: "wp (publishConfig env r req cluster a u cfg failed) ?Q w \<longleftrightarrow>
      wp (case map_sum id fst ?x of
           Inl err \<Rightarrow> failCluster env r cluster (emsg err) err
         | Inr _ \<Rightarrow> reloadAndFinish env r req cluster a u (config_hash env cfg) failed) ?Q ?wm"
    by (simp only: publishConfig_def Let_def wp_bind wp_ensureConfigMap config_content_def config_hash_def)
  show ?thesis
  proof (cases ?x)
    case (Inl e)
    let ?c = "cluster\<lparr>cl_status := (cl_status cluster)
            \<lparr>cst_conditions := e_set_condition env (cst_conditions (cl_status cluster))
               (readyCondition ConditionFalse ReasonReconcileError (emsg e) (meta_generation (cl_meta cluster)))\<rparr>\<rparr>"
    have "wp (failCluster env r cluster (emsg e) e) ?Q ?wm"
      unfolding wp_failCluster Let_def written_def prod.case
      by (rule exI [of _ ?wm], rule exI [of _ ?x],
          rule exI [of _ "[ClusterStatusUpdated ?c (e_update_cluster_status env ?wm ?c)]"]) (simp add: Inl)
    then show ?thesis unfolding unfolded by (simp add: Inl)
  next
    case (Inr y)
    obtain op cm where y: "y = (op, cm)" by force
    have "holds_config env cluster cfg cm"
      using ok Inr unfolding y create_or_update_ok_def by (metis mutate_holds config_map.select_convs(1,2))
    then have "wp (reloadAndFinish env r req cluster a u (config_hash env cfg) failed) ?Q ?wm"
      by (intro wp_mono [OF late_reload [OF R]])
        (use Inr y in \<open>auto simp: written_def intro!: exI [of _ ?wm]\<close>)
    then show ?thesis unfolding unfolded by (simp add: Inr)
  qed
qed

section \<open>A whole pass\<close>

definition after :: "env \<Rightarrow> event \<Rightarrow> world \<Rightarrow> world" where
  "after env e w = w\<lparr>w_trace := e # w_trace w, w_clock := w_clock w + e_latency env w\<rparr>"

lemma after_trace [simp]: "w_trace (after env e w) = e # w_trace w"
  by (simp add: after_def)

definition matching :: "nats_cluster \<Rightarrow> nats_account list \<Rightarrow> nats_account list" where
  "matching cluster items =
     sort_key account_name (filter (\<lambda>a. as_cluster_ref (ac_spec a) = cluster_name cluster) items)"

text \<open>The accounts and users a pass that starts in \<open>w\<close> reads.\<close>

definition inputs :: "env \<Rightarrow> world \<Rightarrow> object_key \<Rightarrow> nats_cluster \<Rightarrow> nats_account list \<Rightarrow> nats_user list \<Rightarrow> bool" where
  "inputs env w req cluster accts users \<longleftrightarrow>
     (let w1 = after env (Got KCluster req) w; w2 = after env (Listed KAccount (cluster_namespace cluster)) w1 in
      \<exists>items. e_list_accounts env w1 (cluster_namespace cluster) = Inr items \<and> accts = matching cluster items \<and>
        e_list_users env w2 = Inr users)"

text \<open>An event of a pass that stopped before the ConfigMap: the recorded hash is not touched.\<close>

fun early :: "string \<Rightarrow> event \<Rightarrow> bool" where
  "early h (ClusterStatusUpdated c _) = (recorded_hash c = h)"
| "early h e = preparing e"

lemma preparing_early: "preparing e \<Longrightarrow> early h e"
  by (cases e) auto

definition stopped_early :: "nats_cluster \<Rightarrow> reconciler \<Rightarrow> world \<Rightarrow> (ctrl_result \<times> goerr option) \<times> reconciler \<Rightarrow> world \<Rightarrow> bool" where
  "stopped_early cluster r w = (\<lambda>((res, err), r') w'.
     err \<noteq> None \<and> r' = r \<and> extends (early (recorded_hash cluster)) w w')"

definition published ::
  "env \<Rightarrow> reconciler \<Rightarrow> object_key \<Rightarrow> nats_cluster \<Rightarrow> nats_account list \<Rightarrow> nats_user list \<Rightarrow> world \<Rightarrow>
     (ctrl_result \<times> goerr option) \<times> reconciler \<Rightarrow> world \<Rightarrow> bool" where
  "published env r req cluster accts users w x w' \<longleftrightarrow>
     (\<exists>awus failed w1. extends preparing w w1 \<and> reported failed w w1 \<and>
       list_all (\<lambda>a. list_all isolated_entry (awu_users a)) awus \<and>
       (\<forall>view. namespaces_stable env view \<longrightarrow> map bare_awu awus = map bare_entry (roster env view users accts)) \<and>
       written env r req cluster (ConvertToNatsConfig awus) failed w1 x w')"

lemma published_earlier:
  assumes "published env r req cluster accts users w1 x w'" "extends preparing w w1" "reported False w w1"
  shows "published env r req cluster accts users w x w'"
  using assms(1) extends_trans [OF assms(2)] reported_trans [OF assms(3)] unfolding published_def
  by fastforce

lemma wp_all: "(\<And>x. wp m (Q x) s) \<Longrightarrow> wp m (\<lambda>r t. \<forall>x. Q x r t) s"
  by (auto simp: wp_def split: prod.splits)

lemma pass_facts:
  "wp (reconcileAccountsAndUsers env oid cluster accts users)
    (\<lambda>(r, failed, _) w1. extends preparing w w1 \<and>
       (\<forall>awus n. r = Inr (awus, n) \<longrightarrow> reported failed w w1 \<and>
          list_all (\<lambda>x. list_all isolated_entry (awu_users x)) awus \<and>
          (\<forall>view. namespaces_stable env view \<longrightarrow> map bare_awu awus = map bare_entry (roster env view users accts)))) w"
proof -
  have post: "wp (reconcileAccountsAndUsers env oid cluster accts users)
      (\<lambda>x _. \<forall>view awus n. fst x = Inr (awus, n) \<longrightarrow>
         list_all (\<lambda>x. list_all isolated_entry (awu_users x)) awus \<and>
         (namespaces_stable env view \<longrightarrow> map bare_awu awus = map bare_entry (roster env view users accts))) w"
    by (rule wp_all, rule wp_mono [OF reconcileAccountsAndUsers_post]) auto
  show ?thesis
    by (rule wp_mono [OF wp_conj [OF wp_conj [OF emits_extends [OF pass_preparing]
            tells_wp [OF reconcileAccountsAndUsers_tells]] post]]) auto
qed

lemma reconcileCluster_post:
  assumes R: "rc_pod_reloader r = SpdyPodReloader env" and ok: "create_or_update_ok env"
  shows "wp (reconcileCluster env r req cluster accts users)
    (\<lambda>x w'. stopped_early cluster r w x w' \<or> published env r req cluster accts users w x w') w"
proof -
  have surface: "wp (surfaceConflicts env cluster cfg as f) (\<lambda>f w'. reported f w w' \<and> extends preparing w w') w1"
    if "reported f w w1" "extends preparing w w1" for cfg as f w1
    using that by (intro wp_conj surface_reported wp_mono [OF emits_extends [OF surface_preparing]])
      (auto intro: extends_trans)
  show ?thesis
    unfolding reconcileCluster_def Let_def wp_bind
    apply (rule wp_mono [OF pass_facts])
    apply (rule wp_triple)
    apply (simp only: prod.case)
    apply (rule wp_sum)
     apply (auto simp: stopped_early_def extends_def intro: list.pred_mono_strong preparing_early)[1]
    apply (rule wp_pair)
    apply (simp only: prod.case wp_bind)
    apply (rule wp_mono [OF surface])
      apply blast
     apply blast
    apply (rule wp_mono [OF publish_post [OF R ok]])
    apply (rule disjI2)
    apply (unfold published_def)
    apply blast
    done
qed

lemma Reconcile_post:
  assumes R: "rc_pod_reloader r = SpdyPodReloader env" and ok: "create_or_update_ok env"
    and get: "e_get_cluster env w req = Inr cluster"
  shows "wp (Reconcile env r req)
    (\<lambda>x w'. stopped_early cluster r w x w' \<or>
       (\<exists>accts users. inputs env w req cluster accts users \<and> published env r req cluster accts users w x w')) w"
    (is "wp _ ?Q w")
proof -
  let ?ns = "cluster_namespace cluster"
  let ?w1 = "after env (Got KCluster req) w"
  let ?w2 = "after env (Listed KAccount ?ns) ?w1"
  let ?w3 = "after env (Listed KUser []) ?w2"
  have fail: "wp (failCluster env r cluster msg err) ?Q w'" if "extends preparing w w'" for msg err w'
    using that unfolding wp_failCluster Let_def
    by (intro disjI1) (auto simp: stopped_early_def extends_def list_all_iff intro!: preparing_early)
  have ext2: "extends preparing w ?w2" and ext3: "extends preparing w ?w3"
    by (auto simp: extends_def intro!: exI [of _ "[_, _]"] exI [of _ "[_, _, _]"])
  have rep: "reported False w ?w3"
    by (auto simp: reported_def intro!: exI [of _ "[_, _, _]"])
  have early: "stopped_early cluster r w x w'" if "stopped_early cluster r ?w3 x w'" for x w'
  proof -
    have "extends (early (recorded_hash cluster)) w ?w3"
      using ext3 by (auto simp: extends_def list_all_iff intro: preparing_early)
    with that show ?thesis
      by (auto simp: stopped_early_def intro: extends_trans)
  qed
  have step: "wp (call env f ev) Q v \<longleftrightarrow> Q (f v) (after env (ev (f v)) v)" for f :: "world \<Rightarrow> 'a" and ev Q v
    by (simp add: after_def)
  show ?thesis
    unfolding Reconcile_def GetCluster_def listMatchingAccounts_def listAllUsers_def ListAccounts_def ListUsers_def
      wp_bind step get sum.case wp_return
    apply (rule wp_sum)
     apply (rule fail [OF ext2])
    unfolding wp_bind step wp_return
    apply (rule wp_sum)
     apply (rule fail [OF ext3])
    apply (rule wp_mono [OF reconcileCluster_post [OF R ok]])
    apply (elim disjE)
     apply (rule disjI1, erule early)
    apply (rule disjI2)
    subgoal for accts users x w'
      using published_earlier [OF _ ext3 rep]
      by (auto simp: inputs_def Let_def matching_def split: sum.splits)
    done
qed

abbreviation config_key :: "nats_cluster \<Rightarrow> object_key" where
  "config_key cluster \<equiv> (cluster_namespace cluster, cluster_name cluster @ ''-nats-config'')"

lemma Reconcile_run:
  assumes "rc_pod_reloader r = SpdyPodReloader env" "create_or_update_ok env" "e_get_cluster env w req = Inr cluster"
    and "run_state (Reconcile env r req) w = (((res, err), r'), w')"
  obtains
    (early) evs where "err \<noteq> None" "r' = r" "w_trace w' = evs @ w_trace w" "list_all (early (recorded_hash cluster)) evs"
  | (refused) e c b pre where "err = Some e" "r' = r" "recorded_hash c = recorded_hash cluster"
      "w_trace w' = (ClusterStatusUpdated c b # ConfigMapApplied (config_key cluster) (Inl e) # pre) @ w_trace w"
      "list_all preparing pre"
  | (kept) accts users awus pre wm op cm post where "inputs env w req cluster accts users"
      "list_all (\<lambda>a. list_all isolated_entry (awu_users a)) awus"
      "\<And>view. namespaces_stable env view \<Longrightarrow> map bare_awu awus = map bare_entry (roster env view users accts)"
      "holds_config env cluster (ConvertToNatsConfig awus) cm" "list_all preparing pre"
      "w_trace wm = (ConfigMapApplied (config_key cluster) (Inr (op, cm)) # pre) @ w_trace w"
      "w_trace w' = post @ w_trace wm"
      "late_ok env wm r req cluster (config_hash env (ConvertToNatsConfig awus)) (list_ex status_failure pre) res err r' post"
proof -
  from wp_run [OF Reconcile_post [OF assms(1-3)] assms(4)]
  consider (1) "stopped_early cluster r w ((res, err), r') w'"
    | (2) accts users where "inputs env w req cluster accts users" "published env r req cluster accts users w ((res, err), r') w'"
    by blast
  then show thesis
  proof cases
    case 1
    then show ?thesis using early by (auto simp: stopped_early_def extends_def)
  next
    case 2
    then obtain awus failed w1 where a: "extends preparing w w1" "reported failed w w1"
      "list_all (\<lambda>a. list_all isolated_entry (awu_users a)) awus"
      "\<And>view. namespaces_stable env view \<Longrightarrow> map bare_awu awus = map bare_entry (roster env view users accts)"
      "written env r req cluster (ConvertToNatsConfig awus) failed w1 ((res, err), r') w'"
      unfolding published_def by blast
    obtain pre where pre: "w_trace w1 = pre @ w_trace w" "list_all preparing pre" "failed = list_ex status_failure pre"
      using a(1,2) by (auto simp: extends_def reported_def)
    from a(5) obtain wm x evs where x: "w_trace wm = ConfigMapApplied (config_key cluster) x # w_trace w1"
      "w_trace w' = evs @ w_trace wm" "case x of
            Inl e \<Rightarrow> err = Some e \<and> r' = r \<and> (\<exists>c b. evs = [ClusterStatusUpdated c b] \<and> recorded_hash c = recorded_hash cluster)
          | Inr (op, cm) \<Rightarrow> holds_config env cluster (ConvertToNatsConfig awus) cm \<and>
              late_ok env wm r req cluster (config_hash env (ConvertToNatsConfig awus)) failed res err r' evs"
      unfolding written_def by auto
    show ?thesis
    proof (cases x)
      case (Inl e)
      with x pre show ?thesis by (auto intro: refused)
    next
      case (Inr y)
      obtain op cm where "y = (op, cm)" by force
      with x pre Inr show ?thesis
        by (intro kept [where accts = accts and users = users and awus = awus and pre = pre and wm = wm and op = op
              and cm = cm and post = evs, OF 2(1) a(3,4)]) simp_all
    qed
  qed
qed

lemma holds_config_data:
  "holds_config env cluster cfg cm \<Longrightarrow> cm_data cm =
     [(''auth.conf'', FormatHashHeader (config_hash env cfg) @ Generate (e_printable env) cfg)]"
  by (simp add: holds_config_def config_content_def config_hash_def Let_def)

lemma early_not:
  "list_all (early h) evs \<Longrightarrow> \<not> list_ex is_exec evs"
  "list_all (early h) evs \<Longrightarrow> ClusterStatusUpdated c e \<in> set evs \<Longrightarrow> recorded_hash c = h"
  "list_all (early h) evs \<Longrightarrow> ConfigMapApplied k x \<notin> set evs"
proof -
  have "early h e \<Longrightarrow> \<not> is_exec e" for e by (cases e) auto
  then show "list_all (early h) evs \<Longrightarrow> \<not> list_ex is_exec evs" by (auto simp: list_all_iff list_ex_iff)
qed (fastforce simp: list_all_iff)+

lemma preparing_all_early: "list_all preparing evs \<Longrightarrow> list_all (early h) evs"
  by (auto simp: list_all_iff preparing_early)

text \<open>
  C3. The recorded hash never runs ahead of the pods: when a pass writes a status with a new
  \<open>LastConfigHash\<close>, accepted or not, it is the hash of the file the same pass had put into the ConfigMap before,
  and either the cluster has no \<open>serverRef\<close> or every pod listed for the workload was running and
  has been signalled since, each right after it showed the file with this very hash.
\<close>
theorem Reconcile_records_synced_hash:
  assumes "rc_pod_reloader r = SpdyPodReloader env"
    and "create_or_update_ok env"
    and "e_get_cluster env w req = Inr cluster"
    and run: "run_state (Reconcile env r req) w = (((res, err), r'), w')" "w_trace w' = evs @ w_trace w"
    and upd: "ClusterStatusUpdated c e \<in> set evs"
      "cst_last_config_hash (cl_status c) \<noteq> cst_last_config_hash (cl_status cluster)"
  shows "\<exists>post pre wm op cm body. evs = post @ ConfigMapApplied (config_key cluster) (Inr (op, cm)) # pre \<and>
     w_trace wm = ConfigMapApplied (config_key cluster) (Inr (op, cm)) # pre @ w_trace w \<and>
     cst_last_config_hash (cl_status c) = sha256_hex body \<and>
     cm_data cm = [(''auth.conf'', FormatHashHeader (sha256_hex body) @ body)] \<and>
     confirmed (sha256_hex body) post \<and>
     (cs_server_ref (cl_spec cluster) = None \<or> all_signalled env wm cluster post)"
  using assms(1-3) run(1)
proof (cases rule: Reconcile_run)
  case (early evs')
  with run(2) upd show ?thesis using early_not(2) by auto
next
  case (refused err c' b pre)
  then have "c = c' \<or> ClusterStatusUpdated c e \<in> set pre" using run(2) upd by auto
  with refused upd show ?thesis using early_not(2) [OF preparing_all_early] by metis
next
  case (kept accts users awus pre wm op cm post)
  let ?cfg = "ConvertToNatsConfig awus"
  have evs: "evs = post @ ConfigMapApplied (config_key cluster) (Inr (op, cm)) # pre"
    using kept(6,7) run(2) by simp
  have "ClusterStatusUpdated c e \<notin> set pre"
    using kept(5) by (auto simp: list_all_iff)
  then have "ClusterStatusUpdated c e \<in> set post" using upd(1) evs by auto
  then have "recorded_hash c = config_hash env ?cfg \<and>
      (cs_server_ref (cl_spec cluster) = None \<or> all_signalled env wm cluster post)" and "confirmed (config_hash env ?cfg) post"
    using kept(8) upd(2) unfolding late_ok_def by blast+
  then show ?thesis
    using evs kept(6) holds_config_data [OF kept(4)] unfolding config_hash_def
    by (intro exI [of _ post] exI [of _ pre] exI [of _ wm] exI [of _ op] exI [of _ cm]) auto
qed

text \<open>
  C9. A pass that says it is done is done: when \<open>Reconcile\<close> of an existing cluster asks neither for a
  retry nor reports an error, every status update of users and accounts in it was accepted, the ConfigMap was written, and the
  status that was accepted carries the hash of exactly what was written.
\<close>
theorem Reconcile_done:
  assumes "rc_pod_reloader r = SpdyPodReloader env"
    and "create_or_update_ok env"
    and "e_get_cluster env w req = Inr cluster"
    and run: "run_state (Reconcile env r req) w = (((no_requeue, None), r'), w')" "w_trace w' = evs @ w_trace w"
  shows "\<not> list_ex status_failure evs \<and>
    (\<exists>op cm body c. ConfigMapApplied (config_key cluster) (Inr (op, cm)) \<in> set evs \<and>
       cm_data cm = [(''auth.conf'', FormatHashHeader (sha256_hex body) @ body)] \<and>
       ClusterStatusUpdated c None \<in> set evs \<and> cst_last_config_hash (cl_status c) = sha256_hex body)"
  using assms(1-3) run(1)
proof (cases rule: Reconcile_run)
  case (kept accts users awus pre wm op cm post)
  let ?cfg = "ConvertToNatsConfig awus"
  have evs: "evs = post @ ConfigMapApplied (config_key cluster) (Inr (op, cm)) # pre"
    using kept(6,7) run(2) by simp
  have post: "\<not> list_ex status_failure post" and pre: "\<not> list_ex status_failure pre"
    and "\<exists>c. ClusterStatusUpdated c None \<in> set post \<and> recorded_hash c = config_hash env ?cfg"
    using kept(8) unfolding late_ok_def by blast+
  then show ?thesis
    using evs holds_config_data [OF kept(4)] by (auto simp: config_hash_def)
qed auto

text \<open>
  C10. Pods are left alone unless there is a reason: a pass that runs a command in a pod has put a file
  into the ConfigMap before, and the hash of this file differs from the recorded one or this operator process has not
  reloaded the cluster yet.
\<close>
theorem Reconcile_quiet_when_current:
  assumes "rc_pod_reloader r = SpdyPodReloader env"
    and "create_or_update_ok env"
    and "e_get_cluster env w req = Inr cluster"
    and run: "run_state (Reconcile env r req) w = (((res, err), r'), w')" "w_trace w' = evs @ w_trace w"
    and "list_ex is_exec evs"
  shows "\<exists>post pre op cm body. evs = post @ ConfigMapApplied (config_key cluster) (Inr (op, cm)) # pre \<and>
     cm_data cm = [(''auth.conf'', FormatHashHeader (sha256_hex body) @ body)] \<and> \<not> list_ex is_exec pre \<and>
     cs_server_ref (cl_spec cluster) \<noteq> None \<and>
     (sha256_hex body \<noteq> cst_last_config_hash (cl_status cluster) \<or> req \<notin> set (rc_reloaded_once r))"
  using assms(1-3) run(1)
proof (cases rule: Reconcile_run)
  case (early evs')
  with run(2) assms(6) show ?thesis using early_not(1) by auto
next
  case (refused err c' b pre)
  then have "list_ex is_exec pre" using run(2) assms(6) by auto
  with refused show ?thesis using early_not(1) [OF preparing_all_early] by blast
next
  case (kept accts users awus pre wm op cm post)
  let ?cfg = "ConvertToNatsConfig awus"
  have evs: "evs = post @ ConfigMapApplied (config_key cluster) (Inr (op, cm)) # pre"
    using kept(6,7) run(2) by simp
  have pre: "\<not> list_ex is_exec pre" by (rule early_not(1) [OF preparing_all_early [OF kept(5)]])
  then have "list_ex is_exec post" using assms(6) evs by auto
  then have "needsReload r req cluster (config_hash env ?cfg)" using kept(8) by (simp add: late_ok_def)
  then show ?thesis
    using evs pre holds_config_data [OF kept(4)] unfolding config_hash_def needsReload_def Let_def
    by (intro exI [of _ post] exI [of _ pre] exI [of _ op] exI [of _ cm]) auto
qed

text \<open>
  A new operator process reloads once: when a pass of a cluster with a \<open>serverRef\<close> ends without error,
  the process remembers the cluster as reloaded; and the first such pass that asks for no retry has signalled every pod
  listed for the workload, even if the recorded hash said that nothing changed. Nothing else is ever remembered
  or forgotten.
\<close>
lemma Reconcile_restart_reload:
  assumes "rc_pod_reloader r = SpdyPodReloader env"
    and "create_or_update_ok env"
    and "e_get_cluster env w req = Inr cluster" "cs_server_ref (cl_spec cluster) \<noteq> None"
    and run: "run_state (Reconcile env r req) w = (((res, None), r'), w')" "w_trace w' = evs @ w_trace w"
  shows "set (rc_reloaded_once r') = insert req (set (rc_reloaded_once r)) \<and>
    (res = no_requeue \<and> req \<notin> set (rc_reloaded_once r) \<longrightarrow>
       (\<exists>wm pre post. w_trace wm = pre @ w_trace w \<and> evs = post @ pre \<and> all_signalled env wm cluster post))"
  using assms(1-3) run(1)
proof (cases rule: Reconcile_run)
  case (kept accts users awus pre wm op cm post)
  have "evs = post @ ConfigMapApplied (config_key cluster) (Inr (op, cm)) # pre"
    using kept(6,7) run(2) by simp
  with kept(6,8) assms(4) show ?thesis
    unfolding late_ok_def by blast
qed auto

text \<open>
  A pass that ends without error has written the rendering of exactly the accounts that reference the cluster,
  each with exactly the users that its rules grant.
\<close>

lemma Reconcile_published:
  assumes "rc_pod_reloader r = SpdyPodReloader env"
    and "create_or_update_ok env"
    and "e_get_cluster env w req = Inr cluster"
    and "\<And>w' n. e_get_namespace env w' n = view n"
    and run: "run_state (Reconcile env r req) w = (((res, None), r'), w')" "w_trace w' = evs @ w_trace w"
  obtains accts users awus op cm where "inputs env w req cluster accts users"
    "ConfigMapApplied (config_key cluster) (Inr (op, cm)) \<in> set evs"
    "cm_data cm = [(''auth.conf'', config_content env (ConvertToNatsConfig awus))]"
    "map bare_awu awus =
      map (\<lambda>a. (bare_account a, map bare_user (sort_key user_name (filter (granted env view a) users))))
        (filter (\<lambda>a. ValidateRegexRules env (as_user_rules (ac_spec a)) = None) accts)"
    "list_all (\<lambda>a. list_all isolated_entry (awu_users a)) awus"
  using assms(1-3) run(1)
proof (cases rule: Reconcile_run)
  case (kept accts users awus pre wm op cm post)
  have stable: "namespaces_stable env view" using assms(4) by (simp add: namespaces_stable_def)
  have "ConfigMapApplied (config_key cluster) (Inr (op, cm)) \<in> set evs"
    using kept(6,7) run(2) by simp
  moreover have "cm_data cm = [(''auth.conf'', config_content env (ConvertToNatsConfig awus))]"
    using kept(4) by (simp add: holds_config_def)
  ultimately show ?thesis
    using kept(1,2) kept(3) [OF stable]
    by (intro that [of accts users op cm awus]) (simp_all add: roster_def bare_entry_def members_def comp_def)
qed auto

text \<open>
  A cluster that cannot be read is left alone: nothing else is read and nothing is written for it; a cluster that is gone is
  not retried, any other error is handed to the work queue.
\<close>
lemma Reconcile_unreadable_cluster:
  assumes "e_get_cluster env w req = Inl e"
  shows "run_state (Reconcile env r req) w =
    (((no_requeue, if ekind e = NotFound then None else Some e), r),
     w\<lparr>w_trace := Got KCluster req # w_trace w, w_clock := w_clock w + e_latency env w\<rparr>)"
  using assms by (simp add: Reconcile_def GetCluster_def call_def IsNotFound_def)

section \<open>An idle cluster\<close>

text \<open>A cluster without accounts whose two pods already show the file of the empty configuration.\<close>

definition idle_hash :: string where
  "idle_hash = sha256_hex (Generate (\<lambda>_. True) (ConvertToNatsConfig []))"

definition idle_cluster :: nats_cluster where
  "idle_cluster =
     \<lparr>cl_meta = \<lparr>meta_name = ''c'', meta_namespace = ''ns'', meta_generation = 1\<rparr>,
      cl_spec = \<lparr>cs_server_ref = Some \<lparr>wr_kind = ''Deployment'', wr_name = ''nats''\<rparr>, cs_monitoring_port = None,
        cs_external_urls = []\<rparr>,
      cl_status = \<lparr>cst_conditions = [], cst_account_count = 0, cst_user_count = 0, cst_last_config_hash = []\<rparr>\<rparr>"

definition idle_env :: env where
  "idle_env = (reload_env idle_hash)\<lparr>e_get_cluster := \<lambda>_ _. Inr idle_cluster\<rparr>"

definition idle_reconciler :: reconciler where
  "idle_reconciler =
     \<lparr>rc_pod_reloader = SpdyPodReloader idle_env, rc_identity = \<lparr>oi_namespace = [], oi_deployment = []\<rparr>,
      rc_reloaded_once = []\<rparr>"

lemma idle_env_simps [simp]:
  "e_get_cluster idle_env w k = Inr idle_cluster" "e_list_accounts idle_env w n = Inr []"
  "e_list_users idle_env w = Inr []" "e_printable idle_env = (\<lambda>_. True)"
  "e_create_or_update idle_env w cm f = map_sum id (Pair OpCreated) (f cm)"
  "e_set_controller idle_env c cm = None" "e_update_cluster_status idle_env w c = None"
  "e_get_namespace idle_env w n = Inl not_found"
  "e_get_deployment idle_env w k = Inr ''app=nats''" "e_selector idle_env = (\<lambda>s. Inr s)"
  "e_list_pods idle_env w ns sel = Inr [example_pod ''nats-0'', example_pod ''nats-1'']"
  "e_clientset idle_env w = None" "e_executor idle_env w k = None"
  "ex_error (e_exec idle_env w ns p cmd) = None"
  "ex_stdout (e_exec idle_env w ns p cat_command) = FormatHashHeader idle_hash"
  by (simp_all add: idle_env_def reload_env_def example_pod_def)

lemma idle_sel [simp]:
  "cluster_name idle_cluster = ''c''" "cluster_namespace idle_cluster = ''ns''" "recorded_hash idle_cluster = []"
  "cs_server_ref (cl_spec idle_cluster) = Some \<lparr>wr_kind = ''Deployment'', wr_name = ''nats''\<rparr>"
  "rc_pod_reloader idle_reconciler = SpdyPodReloader idle_env" "rc_reloaded_once idle_reconciler = []"
  by (simp_all add: idle_cluster_def idle_reconciler_def)

lemma idle_ok: "create_or_update_ok idle_env"
  by (auto simp: create_or_update_ok_def map_sum_Inr_iff)

lemma idle_hash_header: "parseHashHeader (FormatHashHeader idle_hash) = idle_hash" "idle_hash \<noteq> []"
  using parse_format_visible [of idle_hash "[]"] sha256_hex_visible sha256_hex_neq_Nil
  by (auto simp: idle_hash_def)

abbreviation idle_req :: object_key where
  "idle_req \<equiv> (''ns'', ''c'')"

lemma idle_reload:
  "wp (reloadNatsPods idle_env (SpdyPodReloader idle_env) \<lparr>wr_kind = ''Deployment'', wr_name = ''nats''\<rparr> ''ns'' idle_hash)
     (\<lambda>r w'. r = Inr True \<and> (\<exists>evs. w_trace w' = evs @ w_trace w \<and> list_ex is_exec evs)) w"
proof -
  let ?ref = "\<lparr>wr_kind = ''Deployment'', wr_name = ''nats''\<rparr>"
  have 1: "fst (run_state (reloadNatsPods idle_env (SpdyPodReloader idle_env) ?ref ''ns'' idle_hash) w) = Inr True"
    by (rule pass_succeeds [where s = "''app=nats''" and sel = "''app=nats''"
          and pods = "[example_pod ''nats-0'', example_pod ''nats-1'']"])
      (simp_all add: idle_hash_header)
  have "list_ex is_exec evs" if "workload_pods idle_env w ?ref ''ns'' pods" "signalled ''ns'' evs pods" for evs pods
  proof -
    have "list_ex (is_hup ''ns'' (pod_name (example_pod ''nats-0''))) evs"
      using that by (auto simp: workload_pods_def workload_selector_def signalled_def)
    moreover have "is_hup n p e \<Longrightarrow> is_exec e" for n p e by (cases e) (simp_all add: is_hup_def)
    ultimately show ?thesis by (auto simp: list_ex_iff)
  qed
  with 1 wp_run [OF reloadNatsPods_trace [of idle_env ?ref "''ns''" idle_hash w]]
  show ?thesis
    unfolding wp_iff_run by (metis fst_conv)
qed

lemma idle_hash_eq: "config_hash idle_env (ConvertToNatsConfig []) = idle_hash"
  by (simp add: config_hash_def idle_hash_def)

abbreviation idle_post :: "world \<Rightarrow> (ctrl_result \<times> goerr option) \<times> reconciler \<Rightarrow> world \<Rightarrow> bool" where
  "idle_post w \<equiv> \<lambda>((res, err), r') w'. res = no_requeue \<and> err = None \<and>
     (\<exists>c evs. w_trace w' = ClusterStatusUpdated c None # evs @ w_trace w \<and> recorded_hash c = idle_hash \<and>
        list_ex is_exec evs)"

lemma idle_post_earlier:
  assumes "idle_post w1 x w'" "w_trace w1 = es @ w_trace w"
  shows "idle_post w x w'"
proof -
  obtain res err r' where x: "x = ((res, err), r')" by (metis prod.collapse)
  with assms(1) obtain c evs where "res = no_requeue" "err = None"
    "w_trace w' = ClusterStatusUpdated c None # (evs @ es) @ w_trace w" "recorded_hash c = idle_hash" "list_ex is_exec (evs @ es)"
    using assms(2) by auto
  then show ?thesis unfolding x prod.case by blast
qed

lemma idle_finish:
  "wp (reloadAndFinish idle_env idle_reconciler idle_req idle_cluster a u idle_hash False) (idle_post w) w"
proof -
  have need: "needsReload idle_reconciler idle_req idle_cluster idle_hash"
    by (simp add: needsReload_def)
  show ?thesis
    unfolding reloadAndFinish_def if_P [OF need] idle_sel option.sel wp_bind
    by (rule wp_mono [OF idle_reload]) (auto simp: wp_finish Let_def finishedStatus_hash)
qed

lemma idle_publish:
  "wp (publishConfig idle_env idle_reconciler idle_req idle_cluster a u (ConvertToNatsConfig []) False) (idle_post w) w"
proof -
  have applied: "mutateConfigMap idle_env idle_cluster t cm = Inr (cm\<lparr>cm_data := [(''auth.conf'', t)]\<rparr>)" for t cm
    by (simp add: mutateConfigMap_def)
  show ?thesis
    unfolding publishConfig_def Let_def wp_bind wp_ensureConfigMap idle_env_simps applied map_sum.simps sum.case
      idle_hash_def [symmetric]
    by (rule wp_mono [OF idle_finish], erule idle_post_earlier [where es = "[_]"]) simp
qed

lemma idle_run:
  "wp (Reconcile idle_env idle_reconciler idle_req) (idle_post w) w"
proof -
  have conflicts: "surfaceConflicts idle_env idle_cluster (ConvertToNatsConfig []) [] False = State_Monad.return False"
    by (simp add: surfaceConflicts_def ConvertToNatsConfig_def systemCandidates_def)
  have acc: "reconcileAccountsAndUsers idle_env oid idle_cluster [] [] = State_Monad.return (Inr ([], 0), False, [])" for oid
    by (simp add: reconcileAccountsAndUsers_def state.expand)
  have core: "wp (reconcileCluster idle_env idle_reconciler idle_req idle_cluster [] []) (idle_post w1) w1" for w1
    by (simp only: reconcileCluster_def acc Let_def wp_bind wp_return prod.case sum.case conflicts idle_publish)
  have sorted: "sort_key account_name [] = []" by simp
  show ?thesis
    unfolding Reconcile_def GetCluster_def listMatchingAccounts_def listAllUsers_def ListAccounts_def ListUsers_def
      wp_bind wp_call wp_return idle_env_simps sum.case filter.simps sorted
    by (rule wp_mono [OF core], erule idle_post_earlier [where es = "[_, _, _]"]) simp
qed

lemma idle_ends:
  obtains r' w' c evs where "run_state (Reconcile idle_env idle_reconciler idle_req) start_world = (((no_requeue, None), r'), w')"
    "w_trace w' = (ClusterStatusUpdated c None # evs) @ w_trace start_world" "recorded_hash c = idle_hash" "list_ex is_exec evs"
proof -
  obtain res err r' w' where run: "run_state (Reconcile idle_env idle_reconciler idle_req) start_world = (((res, err), r'), w')"
    by (metis prod.collapse)
  show thesis
    using wp_run [OF idle_run run] that run by auto
qed

definition idle_trace :: "event list" where
  "idle_trace = w_trace (snd (run_state (Reconcile idle_env idle_reconciler idle_req) start_world))"

theorem Reconcile_records_synced_hash_witness:
  "\<exists>post pre wm op cm body. idle_trace = post @ ConfigMapApplied (config_key idle_cluster) (Inr (op, cm)) # pre \<and>
     confirmed (sha256_hex body) post \<and> all_signalled idle_env wm idle_cluster post"
proof -
  obtain r' w' c evs where run: "run_state (Reconcile idle_env idle_reconciler idle_req) start_world = (((no_requeue, None), r'), w')"
    "w_trace w' = (ClusterStatusUpdated c None # evs) @ w_trace start_world" "recorded_hash c = idle_hash" "list_ex is_exec evs"
    by (rule idle_ends)
  have trace: "idle_trace = ClusterStatusUpdated c None # evs"
    using run(1,2) by (simp add: idle_trace_def start_world_def)
  from Reconcile_records_synced_hash [OF idle_sel(5) idle_ok idle_env_simps(1) run(1,2), of c None]
  show ?thesis unfolding trace using run(3) idle_hash_header(2) by auto
qed

theorem Reconcile_done_witness:
  "\<exists>op cm body. ConfigMapApplied (config_key idle_cluster) (Inr (op, cm)) \<in> set idle_trace \<and>
     cm_data cm = [(''auth.conf'', FormatHashHeader (sha256_hex body) @ body)] \<and> \<not> list_ex status_failure idle_trace"
proof -
  obtain r' w' c evs where run: "run_state (Reconcile idle_env idle_reconciler idle_req) start_world = (((no_requeue, None), r'), w')"
    "w_trace w' = (ClusterStatusUpdated c None # evs) @ w_trace start_world" "recorded_hash c = idle_hash" "list_ex is_exec evs"
    by (rule idle_ends)
  have trace: "idle_trace = ClusterStatusUpdated c None # evs"
    using run(1,2) by (simp add: idle_trace_def start_world_def)
  from Reconcile_done [OF idle_sel(5) idle_ok idle_env_simps(1) run(1,2)]
  show ?thesis unfolding trace by blast
qed

theorem Reconcile_quiet_when_current_witness:
  "\<exists>post pre op cm. idle_trace = post @ ConfigMapApplied (config_key idle_cluster) (Inr (op, cm)) # pre \<and>
     \<not> list_ex is_exec pre"
proof -
  obtain r' w' c evs where run: "run_state (Reconcile idle_env idle_reconciler idle_req) start_world = (((no_requeue, None), r'), w')"
    "w_trace w' = (ClusterStatusUpdated c None # evs) @ w_trace start_world" "recorded_hash c = idle_hash" "list_ex is_exec evs"
    by (rule idle_ends)
  have trace: "idle_trace = ClusterStatusUpdated c None # evs"
    using run(1,2) by (simp add: idle_trace_def start_world_def)
  have exec: "list_ex is_exec (ClusterStatusUpdated c None # evs)" using run(4) by simp
  from Reconcile_quiet_when_current [OF idle_sel(5) idle_ok idle_env_simps(1) run(1,2) exec]
  show ?thesis unfolding trace by blast
qed

lemma Reconcile_restart_reload_witness:
  "\<exists>pre post wm. idle_trace = post @ pre \<and> all_signalled idle_env wm idle_cluster post"
proof -
  obtain r' w' c evs where run: "run_state (Reconcile idle_env idle_reconciler idle_req) start_world = (((no_requeue, None), r'), w')"
    "w_trace w' = (ClusterStatusUpdated c None # evs) @ w_trace start_world" "recorded_hash c = idle_hash" "list_ex is_exec evs"
    by (rule idle_ends)
  have trace: "idle_trace = ClusterStatusUpdated c None # evs"
    using run(1,2) by (simp add: idle_trace_def start_world_def)
  have ref: "cs_server_ref (cl_spec idle_cluster) \<noteq> None" by simp
  note F = Reconcile_restart_reload [OF idle_sel(5) idle_ok idle_env_simps(1) ref run(1,2)]
  have new: "idle_req \<notin> set (rc_reloaded_once idle_reconciler)" by simp
  obtain wm pre post where "ClusterStatusUpdated c None # evs = post @ pre" "all_signalled idle_env wm idle_cluster post"
    using conjunct2 [OF F, THEN mp, OF conjI [OF refl new]] by (elim exE conjE)
  then show ?thesis unfolding trace by (intro exI conjI)
qed

lemma Reconcile_unreadable_cluster_witness:
  "fst (run_state (Reconcile null_env idle_reconciler idle_req) start_world) = ((no_requeue, None), idle_reconciler)"
  by (subst Reconcile_unreadable_cluster [where e = not_found]) (simp_all add: not_found_def)

end
