(* ===== verification/EventMapping.thy ===== *)
theory EventMapping
  imports ReconcileCluster
begin

text \<open>
  The event handlers of \<open>natscluster_controller.go\<close>, which say which clusters have to be
  reconciled when an account or a user changes, and \<open>operator_identity.go\<close>, how the operator
  finds the Deployment it runs in.
\<close>

section \<open>From objects to requests\<close>

text \<open>What a watch can hand to a handler: the type assertion of the source is a case distinction.\<close>

datatype client_object = AccountObject nats_account | UserObject nats_user | OtherObject

definition mapAccountToCluster :: "client_object \<Rightarrow> object_key list" where
  "mapAccountToCluster obj =
     (case obj of
        AccountObject account \<Rightarrow> [(account_namespace account, as_cluster_ref (ac_spec account))]
      | _ \<Rightarrow> [])"

definition allClustersInNamespace :: "env \<Rightarrow> string \<Rightarrow> object_key list io" where
  "allClustersInNamespace env namespace =
     do {
       r \<leftarrow> ListClusters env namespace;
       State_Monad.return
         (case r of
            Inl err \<Rightarrow> []
          | Inr items \<Rightarrow> map (\<lambda>c. (cluster_namespace c, cluster_name c)) items)
     }"

definition mapUserToCluster :: "env \<Rightarrow> client_object \<Rightarrow> object_key list io" where
  "mapUserToCluster env obj =
     (case obj of
        UserObject user \<Rightarrow>
          do {
            let accountNs = (if nor_namespace (us_account_ref (u_spec user)) = [] then user_namespace user
                             else nor_namespace (us_account_ref (u_spec user)));
            r \<leftarrow> GetAccount env (accountNs, nor_name (us_account_ref (u_spec user)));
            (case r of
               Inl err \<Rightarrow>
                 if IsNotFound err then State_Monad.return []
                 else allClustersInNamespace env accountNs
             | Inr account \<Rightarrow>
                 State_Monad.return [(account_namespace account, as_cluster_ref (ac_spec account))])
          }
      | _ \<Rightarrow> State_Monad.return [])"

section \<open>Events reach the passes that read the object\<close>

text \<open>
  An account event is mapped to exactly the cluster whose passes read the account: for accounts of the
  cluster's namespace, being among the accounts a pass works on and being mapped to the cluster are the same.
\<close>
lemma mapAccount_matches_pass:
  assumes "\<forall>a\<in>set items. account_namespace a = cluster_namespace cluster"
  shows "acct \<in> set (sort_key account_name (filter (\<lambda>a. as_cluster_ref (ac_spec a) = cluster_name cluster) items)) \<longleftrightarrow>
    acct \<in> set items \<and> mapAccountToCluster (AccountObject acct) = [(cluster_namespace cluster, cluster_name cluster)]"
  using assms by (auto simp: mapAccountToCluster_def)

lemma references_key:
  "userReferencesAccount user acct \<Longrightarrow>
   (if nor_namespace (us_account_ref (u_spec user)) = [] then user_namespace user
    else nor_namespace (us_account_ref (u_spec user)), nor_name (us_account_ref (u_spec user))) =
   (account_namespace acct, account_name acct)"
  by (auto simp: userReferencesAccount_def effectiveAccountNamespace_def Let_def split: if_splits)

text \<open>
  C24. No user event is lost while the API server can be read: if a user belongs to an account of a cluster,
  the event reaches the cluster when the account can be read, and also when reading it fails for any reason but its absence, as long
  as the clusters of the namespace can then be listed.
\<close>
theorem mapUser_reaches_cluster:
  assumes "userReferencesAccount user acct"
    and "as_cluster_ref (ac_spec acct) = cluster_name cluster" "account_namespace acct = cluster_namespace cluster"
    and "e_get_account env w (account_namespace acct, account_name acct) = Inr acct \<or>
      (\<exists>e. e_get_account env w (account_namespace acct, account_name acct) = Inl e \<and> ekind e \<noteq> NotFound)"
    and "\<And>w'. \<exists>cs. e_list_clusters env w' (cluster_namespace cluster) = Inr cs \<and> cluster \<in> set cs"
  shows "(cluster_namespace cluster, cluster_name cluster) \<in> set (fst (run_state (mapUserToCluster env (UserObject user)) w))"
proof -
  let ?w1 = "w\<lparr>w_trace := Got KAccount (account_namespace acct, account_name acct) # w_trace w,
      w_clock := w_clock w + e_latency env w\<rparr>"
  have fallback: "(cluster_namespace cluster, cluster_name cluster) \<in>
      set (fst (run_state (allClustersInNamespace env (account_namespace acct)) v))" for v
  proof -
    obtain cs where "e_list_clusters env v (cluster_namespace cluster) = Inr cs" "cluster \<in> set cs"
      using assms(5) by blast
    then show ?thesis
      by (auto simp: allClustersInNamespace_def ListClusters_def call_def assms(3))
  qed
  from assms(4) show ?thesis
  proof (elim disjE exE conjE)
    assume "e_get_account env w (account_namespace acct, account_name acct) = Inr acct"
    then show ?thesis
      using references_key [OF assms(1)] assms(2,3)
      by (auto simp: mapUserToCluster_def GetAccount_def call_def Let_def)
  next
    fix e
    assume "e_get_account env w (account_namespace acct, account_name acct) = Inl e" "ekind e \<noteq> NotFound"
    then show ?thesis
      using references_key [OF assms(1)] fallback
      by (auto simp: mapUserToCluster_def GetAccount_def call_def IsNotFound_def Let_def)
  qed
qed

section \<open>Finding the operator's own Deployment\<close>

text \<open>The loop over the owner references: the name of the first one of the kind, empty if there is none.\<close>

fun firstOwner :: "string \<Rightarrow> owner_reference list \<Rightarrow> string" where
  "firstOwner kind [] = []"
| "firstOwner kind (ref # refs) = (if or_kind ref = kind then or_name ref else firstOwner kind refs)"

definition DiscoverOperatorIdentity :: "env \<Rightarrow> string \<Rightarrow> string \<Rightarrow> (goerr + operator_identity) io" where
  "DiscoverOperatorIdentity env podName podNamespace =
     do {
       p \<leftarrow> GetPod env (podNamespace, podName);
       (case p of
          Inl err \<Rightarrow>
            State_Monad.return (Inl (wrap (''failed to get pod '' @ podNamespace @ ''/'' @ podName) err))
        | Inr pod \<Rightarrow>
            let rsName = firstOwner ''ReplicaSet'' (pod_owners pod) in
            if rsName = [] then
              State_Monad.return (Inl (GoErr Other
                (''pod '' @ podNamespace @ ''/'' @ podName @ '' has no ReplicaSet owner'')))
            else do {
              s \<leftarrow> GetReplicaSet env (podNamespace, rsName);
              (case s of
                 Inl err \<Rightarrow>
                   State_Monad.return (Inl (wrap (''failed to get ReplicaSet '' @ podNamespace @ ''/'' @ rsName) err))
               | Inr rs \<Rightarrow>
                   let deployName = firstOwner ''Deployment'' (rs_owners rs) in
                   State_Monad.return
                     (if deployName = [] then
                        Inl (GoErr Other (''ReplicaSet '' @ podNamespace @ ''/'' @ rsName @ '' has no Deployment owner''))
                      else Inr \<lparr>oi_namespace = podNamespace, oi_deployment = deployName\<rparr>))
            })
     }"

text \<open>\<open>os.Getenv\<close> gives the empty string for a variable that is not set.\<close>

definition DiscoverOperatorIdentityFromEnv ::
  "env \<Rightarrow> (string \<Rightarrow> string) \<Rightarrow> (goerr + operator_identity option) io" where
  "DiscoverOperatorIdentityFromEnv env getenv =
     (let podName = getenv ''POD_NAME''; podNamespace = getenv ''POD_NAMESPACE'' in
      if podName = [] \<or> podNamespace = [] then State_Monad.return (Inr None)
      else do {
        r \<leftarrow> DiscoverOperatorIdentity env podName podNamespace;
        State_Monad.return (map_sum id Some r)
      })"

lemma firstOwner_name: "firstOwner kind refs \<noteq> [] \<Longrightarrow>
    \<exists>ref\<in>set refs. or_kind ref = kind \<and> or_name ref = firstOwner kind refs"
  by (induction refs) auto

text \<open>
  C33. The identity is the real one: what the operator takes for its Deployment owns the ReplicaSet that owns its
  pod, all in the pod's namespace, and neither name is empty, so that the debug commands in statuses always get the
  \<open>kubectl exec\<close> prefix with this Deployment and namespace.
\<close>
theorem DiscoverOperatorIdentity_owner_chain:
  assumes "podNamespace \<noteq> []"
    and "fst (run_state (DiscoverOperatorIdentity env podName podNamespace) w) = Inr oid"
  shows "\<exists>pod rs r1 r2. e_get_pod env w (podNamespace, podName) = Inr pod \<and>
    r1 \<in> set (pod_owners pod) \<and> or_kind r1 = ''ReplicaSet'' \<and>
    e_get_replica_set env (after env (Got KPod (podNamespace, podName)) w) (podNamespace, or_name r1) = Inr rs \<and>
    r2 \<in> set (rs_owners rs) \<and> or_kind r2 = ''Deployment'' \<and>
    oid = \<lparr>oi_namespace = podNamespace, oi_deployment = or_name r2\<rparr> \<and>
    buildDebugCommand oid cmd = ''kubectl exec -it deploy/'' @ or_name r2 @ '' -n '' @ podNamespace @ '' -- ''
      @ [BS] @ NL @ ''  '' @ cmd"
proof -
  obtain pod where pod: "e_get_pod env w (podNamespace, podName) = Inr pod"
    using assms(2) by (cases "e_get_pod env w (podNamespace, podName)")
      (auto simp: DiscoverOperatorIdentity_def GetPod_def call_def)
  let ?rs = "firstOwner ''ReplicaSet'' (pod_owners pod)"
  let ?w1 = "after env (Got KPod (podNamespace, podName)) w"
  have rs0: "?rs \<noteq> []"
    using assms(2) pod by (auto simp: DiscoverOperatorIdentity_def GetPod_def call_def Let_def)
  obtain rs where rs: "e_get_replica_set env ?w1 (podNamespace, ?rs) = Inr rs"
    using assms(2) pod rs0 by (cases "e_get_replica_set env ?w1 (podNamespace, ?rs)")
      (auto simp: DiscoverOperatorIdentity_def GetPod_def GetReplicaSet_def call_def Let_def after_def)
  let ?d = "firstOwner ''Deployment'' (rs_owners rs)"
  have d: "?d \<noteq> []" "oid = \<lparr>oi_namespace = podNamespace, oi_deployment = ?d\<rparr>"
    using assms(2) pod rs0 rs
    by (auto simp: DiscoverOperatorIdentity_def GetPod_def GetReplicaSet_def call_def Let_def after_def split: if_splits)
  obtain r1 where "r1 \<in> set (pod_owners pod)" "or_kind r1 = ''ReplicaSet''" "or_name r1 = ?rs"
    using firstOwner_name [OF rs0] by blast
  moreover obtain r2 where "r2 \<in> set (rs_owners rs)" "or_kind r2 = ''Deployment''" "or_name r2 = ?d"
    using firstOwner_name [OF d(1)] by blast
  moreover have "buildDebugCommand oid cmd = ''kubectl exec -it deploy/'' @ ?d @ '' -n '' @ podNamespace @ '' -- ''
      @ [BS] @ NL @ ''  '' @ cmd"
    unfolding buildDebugCommand_def d(2) using assms(1) d(1) by simp
  ultimately show ?thesis
    using pod rs d(2) by metis
qed

section \<open>Examples\<close>

lemma mapAccount_matches_pass_witness:
  "pass_account ''a'' False \<in> set (sort_key account_name
      (filter (\<lambda>a. as_cluster_ref (ac_spec a) = cluster_name pass_cluster) [pass_account ''a'' False]))"
  by (subst mapAccount_matches_pass) (simp_all add: pass_account_def pass_cluster_def mapAccountToCluster_def)

theorem mapUser_reaches_cluster_witness:
  "(''prod'', ''nats'') \<in> set (fst (run_state (mapUserToCluster
      (null_env\<lparr>e_get_account := \<lambda>_ _. Inl (GoErr Other ''timeout''), e_list_clusters := \<lambda>_ _. Inr [pass_cluster]\<rparr>)
      (UserObject (pass_user ''x'' ''prod''))) start_world))"
proof -
  let ?env = "null_env\<lparr>e_get_account := \<lambda>_ _. Inl (GoErr Other ''timeout''), e_list_clusters := \<lambda>_ _. Inr [pass_cluster]\<rparr>"
  have "(cluster_namespace pass_cluster, cluster_name pass_cluster) \<in>
      set (fst (run_state (mapUserToCluster ?env (UserObject (pass_user ''x'' ''prod''))) start_world))"
    by (rule mapUser_reaches_cluster [where acct = "pass_account ''a'' False"])
      (simp_all add: pass_account_def pass_user_def pass_cluster_def userReferencesAccount_def effectiveAccountNamespace_def)
  then show ?thesis by (simp add: pass_cluster_def)
qed

definition self_env :: env where
  "self_env = null_env
     \<lparr>e_get_pod := \<lambda>_ _. Inr \<lparr>pod_name = ''op-1'', pod_namespace = ''ops'', pod_phase = PodRunning, pod_ip = [],
        pod_owners = [\<lparr>or_kind = ''ReplicaSet'', or_name = ''op-rs''\<rparr>]\<rparr>,
      e_get_replica_set := \<lambda>_ _. Inr \<lparr>rs_name = ''op-rs'',
        rs_owners = [\<lparr>or_kind = ''Deployment'', or_name = ''op''\<rparr>]\<rparr>\<rparr>"

theorem DiscoverOperatorIdentity_owner_chain_witness:
  "buildDebugCommand \<lparr>oi_namespace = ''ops'', oi_deployment = ''op''\<rparr> ''x'' =
     ''kubectl exec -it deploy/op -n ops -- '' @ [BS] @ NL @ ''  x''"
proof -
  have found: "fst (run_state (DiscoverOperatorIdentity self_env ''op-1'' ''ops'') start_world) =
      Inr \<lparr>oi_namespace = ''ops'', oi_deployment = ''op''\<rparr>"
    by (simp add: DiscoverOperatorIdentity_def GetPod_def GetReplicaSet_def call_def self_env_def Let_def)
  from DiscoverOperatorIdentity_owner_chain [OF _ found, of "''x''"] show ?thesis by auto
qed

end
