(* ===== verification/GoFlags.thy ===== *)
theory GoFlags
  imports GoStrings "HOL-Library.Sublist"
begin

text \<open>
  Of the standard library, what the start of the manager uses: the parser of package \<open>flag\<close>, \<open>filepath.Join\<close>, and
  \<open>append\<close> on slices that may share their array.
\<close>

section \<open>Package flag\<close>

text \<open>
  What a registered flag does with its value. A flag that a library registers has values the program never sees: of it
  only matters whether it is boolean and which texts it accepts.
\<close>

datatype 's flag_value =
    BoolVar "bool \<Rightarrow> 's \<Rightarrow> 's"
  | StringVar "string \<Rightarrow> 's \<Rightarrow> 's"
  | LibraryVar bool "string \<Rightarrow> bool"

fun isBoolFlag :: "'s flag_value \<Rightarrow> bool" where
  "isBoolFlag (BoolVar f) = True"
| "isBoolFlag (StringVar f) = False"
| "isBoolFlag (LibraryVar b accepts) = b"

text \<open>\<open>strconv.ParseBool\<close>\<close>

definition ParseBool :: "string \<Rightarrow> bool option" where
  "ParseBool s =
     (if s \<in> set [''1'', ''t'', ''T'', ''true'', ''TRUE'', ''True''] then Some True
      else if s \<in> set [''0'', ''f'', ''F'', ''false'', ''FALSE'', ''False''] then Some False
      else None)"

fun Set_value :: "'s flag_value \<Rightarrow> string \<Rightarrow> 's \<Rightarrow> 's option" where
  "Set_value (BoolVar f) v s = map_option (\<lambda>b. f b s) (ParseBool v)"
| "Set_value (StringVar f) v s = Some (f v s)"
| "Set_value (LibraryVar b accepts) v s = (if accepts v then Some s else None)"

text \<open>How one argument is read: the end of the flags, a syntax error, or a flag, with a value if it has an equals sign.\<close>

datatype argument = EndOfFlags | BadSyntax | FlagArg string "string option"

definition splitValue :: "string \<Rightarrow> string \<times> string option" where
  "splitValue name =
     (if CHR ''='' \<in> set name
      then (takeWhile (\<lambda>c. c \<noteq> CHR ''='') name, Some (tl (dropWhile (\<lambda>c. c \<noteq> CHR ''='') name)))
      else (name, None))"

definition readArgument :: "string \<Rightarrow> argument" where
  "readArgument s =
     (if length s < 2 \<or> hd s \<noteq> CHR ''-'' then EndOfFlags
      else if s = ''--'' then EndOfFlags
      else
        let name = (if s ! 1 = CHR ''-'' then drop 2 s else drop 1 s) in
        if name = [] \<or> hd name = CHR ''-'' \<or> hd name = CHR ''='' then BadSyntax
        else case splitValue name of (n, v) \<Rightarrow> FlagArg n v)"

text \<open>
  \<open>Parse\<close> with \<open>ExitOnError\<close>: the settings after the last flag, or the exit code, 0 after the help text and 2
  after an error. A flag that is not boolean takes the next argument when it has no equals sign.
\<close>

fun flagParse :: "(string \<Rightarrow> 's flag_value option) \<Rightarrow> string list \<Rightarrow> 's \<Rightarrow> int + 's" where
  "flagParse formal [] s = Inr s"
| "flagParse formal (a # args) s =
     (case readArgument a of
        EndOfFlags \<Rightarrow> Inr s
      | BadSyntax \<Rightarrow> Inl 2
      | FlagArg name v \<Rightarrow>
          (case formal name of
             None \<Rightarrow> Inl (if name = ''help'' \<or> name = ''h'' then 0 else 2)
           | Some fl \<Rightarrow>
               if isBoolFlag fl \<or> v \<noteq> None then
                 (case Set_value fl (case v of None \<Rightarrow> ''true'' | Some x \<Rightarrow> x) s of
                    None \<Rightarrow> Inl 2
                  | Some s' \<Rightarrow> flagParse formal args s')
               else
                 (case args of
                    [] \<Rightarrow> Inl 2
                  | x # rest \<Rightarrow>
                      (case Set_value fl x s of None \<Rightarrow> Inl 2 | Some s' \<Rightarrow> flagParse formal rest s'))))"

text \<open>The flags that an argument list sets, whatever they do.\<close>

lemma flagParse_preserves:
  assumes "flagParse formal args s = Inr t" "P s"
    and "\<And>name v fl x y z. FlagArg name v \<in> readArgument ` set args \<Longrightarrow> formal name = Some fl \<Longrightarrow>
      Set_value fl x y = Some z \<Longrightarrow> P y \<Longrightarrow> P z"
  shows "P t"
  using assms
proof (induction formal args s rule: flagParse.induct)
  case (1 formal s)
  then show ?case by simp
next
  case (2 formal a args s)
  show ?case
  proof (cases "readArgument a")
    case EndOfFlags
    then show ?thesis using 2 by simp
  next
    case BadSyntax
    then show ?thesis using 2 by simp
  next
    case (FlagArg name v)
    then obtain fl where fl: "formal name = Some fl"
      using "2.prems"(1) by (cases "formal name") auto
    have step: "P z" if "Set_value fl x y = Some z" "P y" for x y z
      using that FlagArg fl "2.prems"(3) [of name v fl x y z] by (auto simp: image_iff)
    have later: "\<And>name v fl x y z. FlagArg name v \<in> readArgument ` set args \<Longrightarrow> formal name = Some fl \<Longrightarrow>
      Set_value fl x y = Some z \<Longrightarrow> P y \<Longrightarrow> P z"
      using "2.prems"(3) by (simp add: image_iff) blast
    show ?thesis
    proof (cases "isBoolFlag fl \<or> v \<noteq> None")
      case True
      let ?x = "case v of None \<Rightarrow> ''true'' | Some x \<Rightarrow> x"
      obtain s' where s': "Set_value fl ?x s = Some s'" "flagParse formal args s' = Inr t"
        using "2.prems"(1) FlagArg fl True by (auto split: option.splits)
      show ?thesis
        by (rule "2.IH"(1) [OF FlagArg fl True s'(1) s'(2) step [OF s'(1) "2.prems"(2)] later])
    next
      case False
      then obtain x rest s' where s': "args = x # rest" "Set_value fl x s = Some s'" "flagParse formal rest s' = Inr t"
        using "2.prems"(1) FlagArg fl by (auto split: list.splits option.splits)
      have sub: "readArgument ` set rest \<subseteq> readArgument ` set args" using s'(1) by auto
      show ?thesis
        by (rule "2.IH"(2) [OF FlagArg fl False s'(1,2,3) step [OF s'(2) "2.prems"(2)]]) (rule later [OF subsetD [OF sub]])
    qed
  qed
qed

text \<open>The spelling that no flag can misread: two dashes, the name, an equals sign, the value.\<close>

definition flagText :: "string \<Rightarrow> string \<Rightarrow> string" where
  "flagText name v = ''--'' @ name @ ''='' @ v"

lemma readArgument_flagText:
  assumes "name \<noteq> []" "hd name \<noteq> CHR ''-''" "CHR ''='' \<notin> set name"
  shows "readArgument (flagText name v) = FlagArg name (Some v)"
proof -
  have tw: "takeWhile (\<lambda>c. c \<noteq> CHR ''='') (name @ CHR ''='' # v) = name"
    using assms(3) by (subst takeWhile_append2) auto
  have dw: "dropWhile (\<lambda>c. c \<noteq> CHR ''='') (name @ CHR ''='' # v) = CHR ''='' # v"
    using assms(3) by (subst dropWhile_append2) auto
  have "hd name \<noteq> CHR ''=''" using assms by (cases name) auto
  then show ?thesis
    using assms tw dw by (simp add: readArgument_def flagText_def splitValue_def)
qed

lemma flagParse_flagText:
  assumes "name \<noteq> []" "hd name \<noteq> CHR ''-''" "CHR ''='' \<notin> set name" "formal name = Some fl" "Set_value fl v s = Some s'"
  shows "flagParse formal (flagText name v # args) s = flagParse formal args s'"
  using assms(4,5) by (simp add: readArgument_flagText [OF assms(1-3)])

section \<open>filepath.Join\<close>

text \<open>
  One element of a path is added to the elements kept so far, last one first: empty elements and \<open>.\<close> vanish, \<open>..\<close> takes
  the element before it away, stays where there is none to take, and vanishes at the root.
\<close>

definition cleanStep :: "bool \<Rightarrow> string \<Rightarrow> string list \<Rightarrow> string list" where
  "cleanStep rooted e out =
     (if e = [] \<or> e = ''.'' then out
      else if e = ''..'' then
        (case out of
           [] \<Rightarrow> if rooted then [] else [e]
         | o1 # os \<Rightarrow> if o1 = ''..'' then e # out else os)
      else e # out)"

definition filepath_Clean :: "string \<Rightarrow> string" where
  "filepath_Clean path =
     (let rooted = path \<noteq> [] \<and> hd path = CHR ''/'';
          out = rev (fold (cleanStep rooted) (Split path (CHR ''/'')) []) in
      if rooted then ''/'' @ Join out ''/''
      else if out = [] then ''.'' else Join out ''/'')"

definition filepath_Join :: "string list \<Rightarrow> string" where
  "filepath_Join elem =
     (case dropWhile (\<lambda>e. e = []) elem of [] \<Rightarrow> [] | es \<Rightarrow> filepath_Clean (Join es ''/''))"

lemma filepath_Join_example:
  "filepath_Join [''/tmp/k8s-webhook-server/serving-certs/'', ''tls.crt''] = ''/tmp/k8s-webhook-server/serving-certs/tls.crt''"
  "filepath_Join [''certs/../x'', ''./a//b''] = ''x/a/b''"
  "filepath_Join [''/..'', ''..''] = ''/''"
  "filepath_Join [[], []] = []"
  by code_simp+

section \<open>Slices that share an array\<close>

text \<open>
  A slice is an array of the memory, a length and a capacity; the array has places beyond the length of the slice.
  \<open>append\<close> writes into the array where the capacity allows it, so that another slice of the same array may see it, and
  otherwise moves to a new array, whose capacity the runtime chooses: for elements of the size of a pointer and
  small slices, one and then the double.
\<close>

type_synonym 'a arrays = "'a option list list"

record slice =
  sl_array :: nat
  sl_len :: nat
  sl_cap :: nat

definition nil_slice :: slice where
  "nil_slice = \<lparr>sl_array = 0, sl_len = 0, sl_cap = 0\<rparr>"

definition growCap :: "nat \<Rightarrow> nat" where
  "growCap c = (if c = 0 then 1 else 2 * c)"

definition elems :: "'a arrays \<Rightarrow> slice \<Rightarrow> 'a option list" where
  "elems mem s = (if sl_len s = 0 then [] else take (sl_len s) (mem ! sl_array s))"

definition go_append :: "'a arrays \<Rightarrow> slice \<Rightarrow> 'a \<Rightarrow> slice \<times> 'a arrays" where
  "go_append mem s x =
     (if sl_len s < sl_cap s
      then (s\<lparr>sl_len := Suc (sl_len s)\<rparr>, mem[sl_array s := (mem ! sl_array s)[sl_len s := Some x]])
      else let c = growCap (sl_cap s) in
        (\<lparr>sl_array = length mem, sl_len = Suc (sl_len s), sl_cap = c\<rparr>,
         mem @ [elems mem s @ [Some x] @ replicate (c - Suc (sl_len s)) None]))"

definition slice_ok :: "'a arrays \<Rightarrow> slice \<Rightarrow> bool" where
  "slice_ok mem s \<longleftrightarrow> sl_len s \<le> sl_cap s \<and>
     (sl_cap s = 0 \<or> sl_array s < length mem \<and> length (mem ! sl_array s) = sl_cap s)"

lemma slice_ok_nil [simp]: "slice_ok mem nil_slice"
  by (simp add: slice_ok_def nil_slice_def)

lemma elems_length: "slice_ok mem s \<Longrightarrow> length (elems mem s) = sl_len s"
  by (auto simp: slice_ok_def elems_def)

lemma go_append_room:
  assumes "slice_ok mem s" "sl_len s < sl_cap s" "go_append mem s x = (t, m1)"
  shows "elems m1 t = elems mem s @ [Some x]" "slice_ok m1 t"
  using assms by (auto simp: go_append_def elems_def slice_ok_def take_Suc_conv_app_nth)

lemma go_append_full:
  assumes "slice_ok mem s" "sl_len s = sl_cap s" "go_append mem s x = (t, m1)"
  shows "elems m1 t = elems mem s @ [Some x]" "slice_ok m1 t" "prefix mem m1"
proof -
  have "length (elems mem s) = sl_len s" using assms(1) by (rule elems_length)
  then show "elems m1 t = elems mem s @ [Some x]" "slice_ok m1 t" "prefix mem m1"
    using assms(2,3) by (auto simp: go_append_def elems_def [of m1] slice_ok_def growCap_def Let_def)
qed

lemma elems_prefix: "slice_ok mem s \<Longrightarrow> prefix mem m1 \<Longrightarrow> elems m1 s = elems mem s"
  by (auto simp: slice_ok_def elems_def prefix_def nth_append)

text \<open>
  Why the capacity matters: of two slices that grow from the same one, the second \<open>append\<close> overwrites what the first one added
  if there was room, and they are independent if there was none.
\<close>

lemma append_shared:
  assumes "slice_ok mem s" "sl_len s < sl_cap s"
    and "go_append mem s x = (t, m1)" "go_append m1 s y = (u, m2)"
  shows "elems m2 t = elems mem s @ [Some y]"
proof -
  have "t = u" "slice_ok m1 s" "elems m1 s = elems mem s"
    using assms by (auto simp: go_append_def slice_ok_def elems_def)
  with go_append_room(1) [OF _ assms(2,4)] show ?thesis by simp
qed

lemma append_separate:
  assumes "slice_ok mem s" "sl_len s = sl_cap s"
    and "go_append mem s x = (t, m1)" "go_append m1 s y = (u, m2)"
  shows "elems m2 t = elems mem s @ [Some x]" "elems m2 u = elems mem s @ [Some y]"
proof -
  have m1: "elems m1 s = elems mem s" "slice_ok m1 s"
    using elems_prefix go_append_full [OF assms(1-3)] assms(1)
    by (auto simp: slice_ok_def prefix_def nth_append)
  show "elems m2 t = elems mem s @ [Some x]"
    using elems_prefix [OF go_append_full(2) [OF assms(1-3)] go_append_full(3) [OF m1(2) assms(2,4)]]
      go_append_full(1) [OF assms(1-3)] by simp
  show "elems m2 u = elems mem s @ [Some y]"
    using go_append_full(1) [OF m1(2) assms(2,4)] m1(1) by simp
qed

end
