(* ===== verification/Manager.thy ===== *)
theory Manager
  imports EventMapping GoFlags
begin

text \<open>
  \<open>cmd/main.go\<close>, the start of the operator, and \<open>SetupWithManager\<close> of \<open>natscluster_controller.go\<close>, what the
  controller is told about. The steps of controller-runtime are parameters that succeed or fail; what reaches them, and in
  which order, is the model. The result of \<open>main\<close> is its exit code and the steps that were taken.
\<close>

section \<open>What the controller watches\<close>

datatype watch =
    WatchFor object_kind
  | WatchMapped object_kind "env \<Rightarrow> client_object \<Rightarrow> object_key list io"
  | WatchOwned object_kind

record controller_setup =
  cn_watches :: "watch list"
  cn_name :: string
  cn_reconciler :: reconciler

definition SetupWithManager :: "reconciler \<Rightarrow> controller_setup" where
  "SetupWithManager r =
     \<lparr>cn_watches =
        [WatchFor KCluster,
         WatchMapped KAccount (\<lambda>env obj. State_Monad.return (mapAccountToCluster obj)),
         WatchMapped KUser mapUserToCluster,
         WatchOwned KConfigMap],
      cn_name = ''natscluster'',
      cn_reconciler = r\<rparr>"

section \<open>Flags\<close>

record manager_flags =
  mf_metrics_addr :: string
  mf_metrics_cert_path :: string
  mf_metrics_cert_name :: string
  mf_metrics_cert_key :: string
  mf_webhook_cert_path :: string
  mf_webhook_cert_name :: string
  mf_webhook_cert_key :: string
  mf_leader_election :: bool
  mf_probe_addr :: string
  mf_secure_metrics :: bool
  mf_enable_http2 :: bool

definition default_flags :: manager_flags where
  "default_flags =
     \<lparr>mf_metrics_addr = ''0'', mf_metrics_cert_path = [], mf_metrics_cert_name = ''tls.crt'',
      mf_metrics_cert_key = ''tls.key'', mf_webhook_cert_path = [], mf_webhook_cert_name = ''tls.crt'',
      mf_webhook_cert_key = ''tls.key'', mf_leader_election = False, mf_probe_addr = '':8081'',
      mf_secure_metrics = True, mf_enable_http2 = False\<rparr>"

definition manager_flag_table :: "(string \<times> manager_flags flag_value) list" where
  "manager_flag_table =
     [(''metrics-bind-address'', StringVar (\<lambda>v f. f\<lparr>mf_metrics_addr := v\<rparr>)),
      (''health-probe-bind-address'', StringVar (\<lambda>v f. f\<lparr>mf_probe_addr := v\<rparr>)),
      (''leader-elect'', BoolVar (\<lambda>b f. f\<lparr>mf_leader_election := b\<rparr>)),
      (''metrics-secure'', BoolVar (\<lambda>b f. f\<lparr>mf_secure_metrics := b\<rparr>)),
      (''webhook-cert-path'', StringVar (\<lambda>v f. f\<lparr>mf_webhook_cert_path := v\<rparr>)),
      (''webhook-cert-name'', StringVar (\<lambda>v f. f\<lparr>mf_webhook_cert_name := v\<rparr>)),
      (''webhook-cert-key'', StringVar (\<lambda>v f. f\<lparr>mf_webhook_cert_key := v\<rparr>)),
      (''metrics-cert-path'', StringVar (\<lambda>v f. f\<lparr>mf_metrics_cert_path := v\<rparr>)),
      (''metrics-cert-name'', StringVar (\<lambda>v f. f\<lparr>mf_metrics_cert_name := v\<rparr>)),
      (''metrics-cert-key'', StringVar (\<lambda>v f. f\<lparr>mf_metrics_cert_key := v\<rparr>)),
      (''enable-http2'', BoolVar (\<lambda>b f. f\<lparr>mf_enable_http2 := b\<rparr>))]"

text \<open>
  The flags of the logger, and those controller-runtime registers itself, only concern these libraries: \<open>extra\<close> says which
  there are, which of them are boolean and what they accept.
\<close>

type_synonym library_flags = "string \<Rightarrow> (bool \<times> (string \<Rightarrow> bool)) option"

definition managerFlag :: "library_flags \<Rightarrow> string \<Rightarrow> manager_flags flag_value option" where
  "managerFlag extra name =
     (case map_of manager_flag_table name of
        Some fl \<Rightarrow> Some fl
      | None \<Rightarrow> map_option (\<lambda>(b, accepts). LibraryVar b accepts) (extra name))"

section \<open>TLS options\<close>

text \<open>The closures that are handed to the servers, and what they do to a configuration.\<close>

record cert_files =
  cf_cert :: string
  cf_key :: string

datatype tls_option = DisableHTTP2 | GetCertificateOf cert_files

record tls_config =
  tc_next_protos :: "string list"
  tc_get_certificate :: "cert_files option"

fun applyTLSOption :: "tls_option \<Rightarrow> tls_config \<Rightarrow> tls_config" where
  "applyTLSOption DisableHTTP2 c = c\<lparr>tc_next_protos := [''http/1.1'']\<rparr>"
| "applyTLSOption (GetCertificateOf w) c = c\<lparr>tc_get_certificate := Some w\<rparr>"

text \<open>A server applies the options of its slice in their order, when it starts: to whatever the array holds by then.\<close>

definition serverConfig :: "tls_option arrays \<Rightarrow> slice \<Rightarrow> tls_config \<Rightarrow> tls_config" where
  "serverConfig mem s c = fold (\<lambda>x c. case x of None \<Rightarrow> c | Some opt \<Rightarrow> applyTLSOption opt c) (elems mem s) c"

definition baseTLSOptions :: "manager_flags \<Rightarrow> slice \<times> tls_option arrays" where
  "baseTLSOptions f = (if \<not> mf_enable_http2 f then go_append [] nil_slice DisableHTTP2 else (nil_slice, []))"

definition withCertificate :: "tls_option arrays \<Rightarrow> slice \<Rightarrow> cert_files option \<Rightarrow> slice \<times> tls_option arrays" where
  "withCertificate mem s w = (case w of None \<Rightarrow> (s, mem) | Some files \<Rightarrow> go_append mem s (GetCertificateOf files))"

text \<open>
  The slices of the webhook server and of the metrics server both start as the same slice, with the same array.
\<close>

definition tlsOptions ::
  "manager_flags \<Rightarrow> cert_files option \<Rightarrow> cert_files option \<Rightarrow> slice \<times> slice \<times> tls_option arrays" where
  "tlsOptions f webhookWatcher metricsWatcher =
     (let (tlsOpts, m0) = baseTLSOptions f;
          (webhookTLSOpts, m1) = withCertificate m0 tlsOpts webhookWatcher;
          (metricsTLSOpts, m2) = withCertificate m1 tlsOpts metricsWatcher
      in (webhookTLSOpts, metricsTLSOpts, m2))"

section \<open>Options of the manager\<close>

record metrics_options =
  mt_bind_address :: string
  mt_secure_serving :: bool
  mt_tls_opts :: slice
  mt_authenticated :: bool  \<comment> \<open>\<open>FilterProvider\<close> is \<open>WithAuthenticationAndAuthorization\<close>\<close>

record manager_options =
  mo_metrics :: metrics_options
  mo_webhook_tls :: slice
  mo_probe_address :: string
  mo_leader_election :: bool
  mo_leader_election_id :: string
  mo_cache :: "(object_kind \<times> string list) list"  \<comment> \<open>\<open>ByObject\<close>: the namespaces a kind is cached for\<close>
  mo_uncached :: "object_kind list"

definition metricsServerOptions :: "manager_flags \<Rightarrow> slice \<Rightarrow> metrics_options" where
  "metricsServerOptions f tlsOpts =
     \<lparr>mt_bind_address = mf_metrics_addr f, mt_secure_serving = mf_secure_metrics f, mt_tls_opts = tlsOpts,
      mt_authenticated = mf_secure_metrics f\<rparr>"

definition cacheOptions :: "string \<Rightarrow> (object_kind \<times> string list) list" where
  "cacheOptions opNs =
     (if opNs \<noteq> [] then [(KStatefulSet, [opNs]), (KDeployment, [opNs]), (KPod, [opNs]), (KConfigMap, [opNs])]
      else [])"

definition managerOptions :: "manager_flags \<Rightarrow> string \<Rightarrow> slice \<Rightarrow> slice \<Rightarrow> manager_options" where
  "managerOptions f opNs webhookTLS metricsTLS =
     \<lparr>mo_metrics = metricsServerOptions f metricsTLS,
      mo_webhook_tls = webhookTLS,
      mo_probe_address = mf_probe_addr f,
      mo_leader_election = mf_leader_election f,
      mo_leader_election_id = ''6645ddfc.k8s.sandstorm.de'',
      mo_cache = cacheOptions opNs,
      mo_uncached = [KSecret]\<rparr>"

section \<open>main\<close>

text \<open>The library: each step succeeds or fails. \<open>GetConfigOrDie\<close> exits by itself when there is no configuration.\<close>

record startup =
  su_new_watcher :: "cert_files \<Rightarrow> goerr option"
  su_get_config :: "goerr option"
  su_new_manager :: "manager_options \<Rightarrow> tls_option arrays \<Rightarrow> goerr option"
  su_complete :: "controller_setup \<Rightarrow> goerr option"
  su_add :: "cert_files \<Rightarrow> goerr option"
  su_add_healthz :: "string \<Rightarrow> goerr option"
  su_add_readyz :: "string \<Rightarrow> goerr option"
  su_start :: "goerr option"

datatype startup_event =
    WatcherCreated cert_files
  | ManagerCreated manager_options "tls_option arrays"
  | ControllerSetUp controller_setup
  | RunnableAdded cert_files
  | HealthzAdded string
  | ReadyzAdded string
  | ManagerStarted

type_synonym run = "int \<times> startup_event list"

text \<open>A step that exits with 1 when it fails, and what comes after it.\<close>

definition attempt :: "goerr option \<Rightarrow> startup_event \<Rightarrow> run io \<Rightarrow> run io" where
  "attempt r ev rest =
     (case r of
        Some err \<Rightarrow> State_Monad.return (1, [])
      | None \<Rightarrow> do { (code, evs) \<leftarrow> rest; State_Monad.return (code, ev # evs) })"

definition certFiles :: "string \<Rightarrow> string \<Rightarrow> string \<Rightarrow> cert_files option" where
  "certFiles path name key =
     (if length path > 0
      then Some \<lparr>cf_cert = filepath_Join [path, name], cf_key = filepath_Join [path, key]\<rparr>
      else None)"

definition newWatcher :: "startup \<Rightarrow> cert_files option \<Rightarrow> run io \<Rightarrow> run io" where
  "newWatcher su w rest =
     (case w of None \<Rightarrow> rest | Some files \<Rightarrow> attempt (su_new_watcher su files) (WatcherCreated files) rest)"

definition addWatcher :: "startup \<Rightarrow> cert_files option \<Rightarrow> run io \<Rightarrow> run io" where
  "addWatcher su w rest =
     (case w of None \<Rightarrow> rest | Some files \<Rightarrow> attempt (su_add su files) (RunnableAdded files) rest)"

text \<open>A failing discovery is logged, the names stay empty.\<close>

definition discoverIdentity :: "env \<Rightarrow> (string \<Rightarrow> string) \<Rightarrow> operator_identity io" where
  "discoverIdentity env getenv =
     do {
       r \<leftarrow> DiscoverOperatorIdentityFromEnv env getenv;
       State_Monad.return
         (case r of
            Inl err \<Rightarrow> \<lparr>oi_namespace = [], oi_deployment = []\<rparr>
          | Inr None \<Rightarrow> \<lparr>oi_namespace = [], oi_deployment = []\<rparr>
          | Inr (Some identity) \<Rightarrow> identity)
     }"

definition newReconciler :: "env \<Rightarrow> operator_identity \<Rightarrow> reconciler" where
  "newReconciler env identity =
     \<lparr>rc_pod_reloader = SpdyPodReloader env, rc_identity = identity, rc_reloaded_once = []\<rparr>"

definition startManager :: "startup \<Rightarrow> run io" where
  "startManager su =
     attempt (su_add_healthz su ''healthz'') (HealthzAdded ''healthz'')
       (attempt (su_add_readyz su ''readyz'') (ReadyzAdded ''readyz'')
         (State_Monad.return (case su_start su of None \<Rightarrow> 0 | Some err \<Rightarrow> 1, [ManagerStarted])))"

definition createManager ::
  "startup \<Rightarrow> env \<Rightarrow> (string \<Rightarrow> string) \<Rightarrow> manager_flags \<Rightarrow> cert_files option \<Rightarrow> cert_files option \<Rightarrow> run io" where
  "createManager su env getenv f webhookWatcher metricsWatcher =
     (let (webhookTLS, metricsTLS, mem) = tlsOptions f webhookWatcher metricsWatcher;
          opts = managerOptions f (getenv ''POD_NAMESPACE'') webhookTLS metricsTLS in
      case su_get_config su of
        Some err \<Rightarrow> State_Monad.return (1, [])
      | None \<Rightarrow>
          attempt (su_new_manager su opts mem) (ManagerCreated opts mem) (do {
            identity \<leftarrow> discoverIdentity env getenv;
            let ctl = SetupWithManager (newReconciler env identity);
            attempt (su_complete su ctl) (ControllerSetUp ctl)
              (addWatcher su metricsWatcher (addWatcher su webhookWatcher (startManager su)))
          }))"

definition main :: "startup \<Rightarrow> env \<Rightarrow> (string \<Rightarrow> string) \<Rightarrow> library_flags \<Rightarrow> string list \<Rightarrow> run io" where
  "main su env getenv extra args =
     (case flagParse (managerFlag extra) args default_flags of
        Inl code \<Rightarrow> State_Monad.return (code, [])
      | Inr f \<Rightarrow>
          let webhookWatcher = certFiles (mf_webhook_cert_path f) (mf_webhook_cert_name f) (mf_webhook_cert_key f);
              metricsWatcher = certFiles (mf_metrics_cert_path f) (mf_metrics_cert_name f) (mf_metrics_cert_key f)
          in newWatcher su webhookWatcher (newWatcher su metricsWatcher
               (createManager su env getenv f webhookWatcher metricsWatcher)))"

section \<open>All or nothing\<close>

definition list_of :: "'a option \<Rightarrow> 'a list" where
  "list_of x = (case x of None \<Rightarrow> [] | Some y \<Rightarrow> [y])"

text \<open>The steps of a start that meets no obstacle.\<close>

definition startupPlan ::
  "env \<Rightarrow> (string \<Rightarrow> string) \<Rightarrow> manager_flags \<Rightarrow> operator_identity \<Rightarrow> startup_event list" where
  "startupPlan env getenv f identity =
     (let webhook = certFiles (mf_webhook_cert_path f) (mf_webhook_cert_name f) (mf_webhook_cert_key f);
          metrics = certFiles (mf_metrics_cert_path f) (mf_metrics_cert_name f) (mf_metrics_cert_key f);
          (webhookTLS, metricsTLS, mem) = tlsOptions f webhook metrics
      in map WatcherCreated (list_of webhook @ list_of metrics)
         @ [ManagerCreated (managerOptions f (getenv ''POD_NAMESPACE'') webhookTLS metricsTLS) mem,
            ControllerSetUp (SetupWithManager (newReconciler env identity))]
         @ map RunnableAdded (list_of metrics @ list_of webhook)
         @ [HealthzAdded ''healthz'', ReadyzAdded ''readyz'', ManagerStarted])"

text \<open>What a run that aims at the steps \<open>plan\<close> may come to, and that it cannot fail in a library that does not.\<close>

definition never_fails :: "startup \<Rightarrow> bool" where
  "never_fails su \<longleftrightarrow> (\<forall>x. su_new_watcher su x = None) \<and> su_get_config su = None \<and>
     (\<forall>x m. su_new_manager su x m = None) \<and> (\<forall>x. su_complete su x = None) \<and> (\<forall>x. su_add su x = None) \<and>
     (\<forall>x. su_add_healthz su x = None) \<and> (\<forall>x. su_add_readyz su x = None) \<and> su_start su = None"

definition lands :: "startup \<Rightarrow> startup_event list \<Rightarrow> run \<Rightarrow> world \<Rightarrow> bool" where
  "lands su plan = (\<lambda>(code, evs) w.
     prefix evs plan \<and> (ManagerStarted \<in> set evs \<longrightarrow> evs = plan) \<and>
     code = (if evs = plan \<and> su_start su = None then 0 else 1) \<and> (never_fails su \<longrightarrow> evs = plan))"

lemma lands_attempt:
  assumes "wp rest (lands su plan) w" "ev \<noteq> ManagerStarted" "never_fails su \<Longrightarrow> r = None"
  shows "wp (attempt r ev rest) (lands su (ev # plan)) w"
  using assms
  by (cases r) (auto simp: attempt_def lands_def wp_iff_run split: prod.splits)

lemma lands_startManager:
  "wp (startManager su) (lands su [HealthzAdded ''healthz'', ReadyzAdded ''readyz'', ManagerStarted]) w"
  unfolding startManager_def
  by (intro lands_attempt) (auto simp: lands_def never_fails_def split: option.splits)

lemma lands_newWatcher:
  "wp rest (lands su plan) w \<Longrightarrow> wp (newWatcher su x rest) (lands su (map WatcherCreated (list_of x) @ plan)) w"
  by (cases x) (auto simp: list_of_def newWatcher_def never_fails_def intro: lands_attempt)

lemma lands_addWatcher:
  "wp rest (lands su plan) w \<Longrightarrow> wp (addWatcher su x rest) (lands su (map RunnableAdded (list_of x) @ plan)) w"
  by (cases x) (auto simp: list_of_def addWatcher_def never_fails_def intro: lands_attempt)


lemma lands_main:
  fixes w :: world and env :: env and getenv :: "string \<Rightarrow> string"
  defines "identity \<equiv> fst (run_state (discoverIdentity env getenv) w)"
  assumes "flagParse (managerFlag extra) args default_flags = Inr f"
  shows "wp (main su env getenv extra args) (lands su (startupPlan env getenv f identity)) w"
proof -
  define webhook where "webhook = certFiles (mf_webhook_cert_path f) (mf_webhook_cert_name f) (mf_webhook_cert_key f)"
  define metrics where "metrics = certFiles (mf_metrics_cert_path f) (mf_metrics_cert_name f) (mf_metrics_cert_key f)"
  obtain wt mt mem where tls: "tlsOptions f webhook metrics = (wt, mt, mem)" by (metis prod_cases3)
  define opts where "opts = managerOptions f (getenv ''POD_NAMESPACE'') wt mt"
  define ctl where "ctl = SetupWithManager (newReconciler env identity)"
  let ?rest = "map RunnableAdded (list_of metrics) @ map RunnableAdded (list_of webhook) @
    [HealthzAdded ''healthz'', ReadyzAdded ''readyz'', ManagerStarted]"
  have fin: "wp (addWatcher su metrics (addWatcher su webhook (startManager su))) (lands su ?rest) v" for v
    by (intro lands_addWatcher lands_startManager)
  have "wp (do {
      identity \<leftarrow> discoverIdentity env getenv;
      let ctl = SetupWithManager (newReconciler env identity);
      attempt (su_complete su ctl) (ControllerSetUp ctl)
        (addWatcher su metrics (addWatcher su webhook (startManager su)))
    }) (lands su (ControllerSetUp ctl # ?rest)) w"
  proof -
    obtain v where "run_state (discoverIdentity env getenv) w = (identity, v)"
      unfolding identity_def by (metis prod.collapse)
    then show ?thesis
      using lands_attempt [OF fin, of "ControllerSetUp ctl" "su_complete su ctl" v]
      by (simp add: wp_iff_run ctl_def Let_def never_fails_def)
  qed
  from lands_attempt [OF this, of "ManagerCreated opts mem" "su_new_manager su opts mem"]
  have "wp (createManager su env getenv f webhook metrics)
      (lands su (ManagerCreated opts mem # ControllerSetUp ctl # ?rest)) w"
    by (auto simp: createManager_def tls opts_def never_fails_def lands_def Let_def split: option.splits)
  from lands_newWatcher [OF lands_newWatcher [OF this], of webhook metrics] show ?thesis
    using assms(2) by (simp add: main_def startupPlan_def webhook_def [symmetric] metrics_def [symmetric] tls opts_def ctl_def)
qed


section \<open>What the servers are given\<close>

lemma tlsOptions_elems:
  assumes "tlsOptions f a b = (wt, mt, mem)"
  defines "base \<equiv> (if mf_enable_http2 f then [] else [Some DisableHTTP2])"
  shows "elems mem wt = base @ map (\<lambda>x. Some (GetCertificateOf x)) (list_of a)"
    and "elems mem mt = base @ map (\<lambda>x. Some (GetCertificateOf x)) (list_of b)"
proof -
  note defs = base_def tlsOptions_def baseTLSOptions_def withCertificate_def go_append_def
      elems_def nil_slice_def growCap_def list_of_def
  show "elems mem wt = base @ map (\<lambda>x. Some (GetCertificateOf x)) (list_of a)"
    using assms(1) by (cases a; cases b) (auto simp: defs split: if_splits)
  show "elems mem mt = base @ map (\<lambda>x. Some (GetCertificateOf x)) (list_of b)"
    using assms(1) by (cases a; cases b) (auto simp: defs split: if_splits)
qed

lemma serverConfig_elems:
  assumes "elems mem s = (if h then [] else [Some DisableHTTP2]) @ map (\<lambda>x. Some (GetCertificateOf x)) (list_of a)"
  shows "tc_next_protos (serverConfig mem s c) = (if h then tc_next_protos c else [''http/1.1''])"
    and "tc_get_certificate (serverConfig mem s c) = (case a of None \<Rightarrow> tc_get_certificate c | Some x \<Rightarrow> Some x)"
  using assms by (cases a; simp add: serverConfig_def list_of_def)+

lemma ManagerCreated_options:
  assumes "flagParse (managerFlag extra) args default_flags = Inr f"
    and "run_state (main su env getenv extra args) w = ((code, evs), w')" "ManagerCreated opts mem \<in> set evs"
  shows "\<exists>wt mt. tlsOptions f (certFiles (mf_webhook_cert_path f) (mf_webhook_cert_name f) (mf_webhook_cert_key f))
      (certFiles (mf_metrics_cert_path f) (mf_metrics_cert_name f) (mf_metrics_cert_key f)) = (wt, mt, mem) \<and>
    opts = managerOptions f (getenv ''POD_NAMESPACE'') wt mt"
proof -
  have "lands su (startupPlan env getenv f (fst (run_state (discoverIdentity env getenv) w))) (code, evs) w'"
    by (rule wp_run [OF lands_main [OF assms(1)] assms(2)])
  then have "set evs \<subseteq> set (startupPlan env getenv f (fst (run_state (discoverIdentity env getenv) w)))"
    unfolding lands_def prod.case by (auto dest: set_mono_prefix)
  with assms(3) have "ManagerCreated opts mem \<in> set (startupPlan env getenv f (fst (run_state (discoverIdentity env getenv) w)))"
    by blast
  then show ?thesis
    by (auto simp: startupPlan_def Let_def case_prod_unfold intro!: exI)
qed

lemma managerFlag_http2:
  assumes "managerFlag extra name = Some fl" "Set_value fl x y = Some z" "name \<noteq> ''enable-http2''"
  shows "mf_enable_http2 z = mf_enable_http2 y"
  using assms by (auto simp: managerFlag_def manager_flag_table_def split: option.splits if_splits)

lemma managerFlag_secure:
  assumes "managerFlag extra name = Some fl" "Set_value fl x y = Some z" "name \<noteq> ''metrics-secure''"
  shows "mf_secure_metrics z = mf_secure_metrics y"
  using assms by (auto simp: managerFlag_def manager_flag_table_def split: option.splits if_splits)

definition mentions :: "string list \<Rightarrow> string \<Rightarrow> bool" where
  "mentions args name \<longleftrightarrow> (\<exists>a\<in>set args. case readArgument a of FlagArg n v \<Rightarrow> n = name | _ \<Rightarrow> False)"

lemma mentionsI: "FlagArg name v \<in> readArgument ` set args \<Longrightarrow> mentions args name"
proof -
  assume "FlagArg name v \<in> readArgument ` set args"
  then obtain a where "a \<in> set args" "readArgument a = FlagArg name v" by (metis imageE)
  then show ?thesis unfolding mentions_def by (intro bexI [of _ a]) simp_all
qed

lemma flags_stay:
  assumes "flagParse (managerFlag extra) args default_flags = Inr f"
  shows "\<not> mentions args ''enable-http2'' \<Longrightarrow> \<not> mf_enable_http2 f"
    and "\<not> mentions args ''metrics-secure'' \<Longrightarrow> mf_secure_metrics f"
proof -
  assume no: "\<not> mentions args ''enable-http2''"
  show "\<not> mf_enable_http2 f"
    by (rule flagParse_preserves [OF assms]) (use no managerFlag_http2 mentionsI in \<open>(simp add: default_flags_def, metis)\<close>)
next
  assume no: "\<not> mentions args ''metrics-secure''"
  show "mf_secure_metrics f"
    by (rule flagParse_preserves [OF assms]) (use no managerFlag_secure mentionsI in \<open>(simp add: default_flags_def, metis)\<close>)
qed

text \<open>
  C28. The servers are configured apart: although both lists of TLS options start as one slice, the webhook server presents the
  certificate of its own files and the metrics server that of its own, or what they had before where no path is given; unless an argument
  asks for HTTP/2 neither offers it, and unless an argument says otherwise the metrics are served over TLS to authorized clients only.
\<close>
theorem main_configures_servers:
  assumes "flagParse (managerFlag extra) args default_flags = Inr f"
    and "run_state (main su env getenv extra args) w = ((code, evs), w')" "ManagerCreated opts mem \<in> set evs"
    and "webhook = serverConfig mem (mo_webhook_tls opts) c" "metrics = serverConfig mem (mt_tls_opts (mo_metrics opts)) d"
  shows "tc_get_certificate webhook =
      (case certFiles (mf_webhook_cert_path f) (mf_webhook_cert_name f) (mf_webhook_cert_key f) of
         None \<Rightarrow> tc_get_certificate c | Some files \<Rightarrow> Some files) \<and>
    tc_get_certificate metrics =
      (case certFiles (mf_metrics_cert_path f) (mf_metrics_cert_name f) (mf_metrics_cert_key f) of
         None \<Rightarrow> tc_get_certificate d | Some files \<Rightarrow> Some files) \<and>
    (\<not> mentions args ''enable-http2'' \<longrightarrow>
       tc_next_protos webhook = [''http/1.1''] \<and> tc_next_protos metrics = [''http/1.1'']) \<and>
    (\<not> mentions args ''metrics-secure'' \<longrightarrow>
       mt_secure_serving (mo_metrics opts) \<and> mt_authenticated (mo_metrics opts))"
proof -
  obtain wt mt where tls: "tlsOptions f (certFiles (mf_webhook_cert_path f) (mf_webhook_cert_name f) (mf_webhook_cert_key f))
      (certFiles (mf_metrics_cert_path f) (mf_metrics_cert_name f) (mf_metrics_cert_key f)) = (wt, mt, mem)"
    and opts: "opts = managerOptions f (getenv ''POD_NAMESPACE'') wt mt"
    using ManagerCreated_options [OF assms(1-3)] by blast
  note config = serverConfig_elems [OF tlsOptions_elems(1) [OF tls]] serverConfig_elems [OF tlsOptions_elems(2) [OF tls]]
  show ?thesis
    using flags_stay [OF assms(1)]
    by (simp add: assms(4,5) opts managerOptions_def metricsServerOptions_def config)
qed

section \<open>Every setting can be given on the command line\<close>

definition boolText :: "bool \<Rightarrow> string" where
  "boolText b = (if b then ''true'' else ''false'')"

definition flagArgs :: "manager_flags \<Rightarrow> string list" where
  "flagArgs f =
     [flagText ''metrics-bind-address'' (mf_metrics_addr f),
      flagText ''health-probe-bind-address'' (mf_probe_addr f),
      flagText ''leader-elect'' (boolText (mf_leader_election f)),
      flagText ''metrics-secure'' (boolText (mf_secure_metrics f)),
      flagText ''webhook-cert-path'' (mf_webhook_cert_path f),
      flagText ''webhook-cert-name'' (mf_webhook_cert_name f),
      flagText ''webhook-cert-key'' (mf_webhook_cert_key f),
      flagText ''metrics-cert-path'' (mf_metrics_cert_path f),
      flagText ''metrics-cert-name'' (mf_metrics_cert_name f),
      flagText ''metrics-cert-key'' (mf_metrics_cert_key f),
      flagText ''enable-http2'' (boolText (mf_enable_http2 f))]"

lemma ParseBool_boolText: "ParseBool (boolText b) = Some b"
  by (cases b) (simp_all add: ParseBool_def boolText_def)

lemma string_flag:
  assumes "map_of manager_flag_table name = Some (StringVar g)" "name \<noteq> []" "hd name \<noteq> CHR ''-''" "CHR ''='' \<notin> set name"
  shows "flagParse (managerFlag extra) (flagText name v # args) s = flagParse (managerFlag extra) args (g v s)"
  by (rule flagParse_flagText [OF assms(2-4), where fl = "StringVar g"]) (simp_all add: managerFlag_def assms(1))

lemma bool_flag:
  assumes "map_of manager_flag_table name = Some (BoolVar g)" "name \<noteq> []" "hd name \<noteq> CHR ''-''" "CHR ''='' \<notin> set name"
  shows "flagParse (managerFlag extra) (flagText name (boolText b) # args) s = flagParse (managerFlag extra) args (g b s)"
  by (rule flagParse_flagText [OF assms(2-4), where fl = "BoolVar g"]) (simp_all add: managerFlag_def assms(1) ParseBool_boolText)

text \<open>
  Every combination of settings can be given: for all values of the flags, whatever they contain, the arguments
  \<open>--name=value\<close> are read back as exactly these values.
\<close>
lemma flagArgs_roundtrip: "flagParse (managerFlag extra) (flagArgs f) default_flags = Inr f"
  unfolding flagArgs_def
  by (cases f) (simp del: flagParse.simps(2) add: string_flag bool_flag manager_flag_table_def default_flags_def)

section \<open>Examples\<close>

definition willing :: startup where
  "willing =
     \<lparr>su_new_watcher = \<lambda>_. None, su_get_config = None, su_new_manager = \<lambda>_ _. None, su_complete = \<lambda>_. None,
      su_add = \<lambda>_. None, su_add_healthz = \<lambda>_. None, su_add_readyz = \<lambda>_. None, su_start = None\<rparr>"

definition example_args :: "string list" where
  "example_args = [''-leader-elect'', ''--webhook-cert-path'', ''/certs/webhook/'', ''--metrics-cert-path=/certs/metrics'']"

definition example_flags :: manager_flags where
  "example_flags = default_flags
     \<lparr>mf_leader_election := True, mf_webhook_cert_path := ''/certs/webhook/'', mf_metrics_cert_path := ''/certs/metrics''\<rparr>"

lemma example_args_parse: "flagParse (managerFlag (\<lambda>_. None)) example_args default_flags = Inr example_flags"
  by code_simp

abbreviation example_run :: "startup \<Rightarrow> run" where
  "example_run su \<equiv> fst (run_state (main su self_env (\<lambda>_. ''ops'') (\<lambda>_. None) example_args) start_world)"

text \<open>The same start with a library that refuses the second watcher, the one of the metrics server.\<close>

definition reluctant :: startup where
  "reluctant = willing\<lparr>su_new_watcher := \<lambda>files. if cf_cert files = ''/certs/metrics/tls.crt''
     then Some (GoErr Other ''no such file'') else None\<rparr>"


definition plain_config :: tls_config where
  "plain_config = \<lparr>tc_next_protos = [''h2''], tc_get_certificate = None\<rparr>"

lemma example_run_options:
  "fst (run_state (main willing self_env (\<lambda>_. ''ops'') (\<lambda>_. None) example_args) w) =
     (0, startupPlan self_env (\<lambda>_. ''ops'') example_flags (fst (run_state (discoverIdentity self_env (\<lambda>_. ''ops'')) w)))"
proof -
  obtain code evs w' where
    run: "run_state (main willing self_env (\<lambda>_. ''ops'') (\<lambda>_. None) example_args) w = ((code, evs), w')"
    by (metis surj_pair)
  have "lands willing (startupPlan self_env (\<lambda>_. ''ops'') example_flags
      (fst (run_state (discoverIdentity self_env (\<lambda>_. ''ops'')) w))) (code, evs) w'"
    by (rule wp_run [OF lands_main [OF example_args_parse] run])
  moreover have "never_fails willing" "su_start willing = None" by (simp_all add: never_fails_def willing_def)
  ultimately show ?thesis by (simp add: run lands_def)
qed

theorem main_configures_servers_witness:
  "\<exists>opts mem. ManagerCreated opts mem \<in> set (snd (example_run willing)) \<and>
     tc_get_certificate (serverConfig mem (mo_webhook_tls opts) plain_config) =
       Some \<lparr>cf_cert = ''/certs/webhook/tls.crt'', cf_key = ''/certs/webhook/tls.key''\<rparr> \<and>
     tc_get_certificate (serverConfig mem (mt_tls_opts (mo_metrics opts)) plain_config) =
       Some \<lparr>cf_cert = ''/certs/metrics/tls.crt'', cf_key = ''/certs/metrics/tls.key''\<rparr> \<and>
     tc_next_protos (serverConfig mem (mo_webhook_tls opts) plain_config) = [''http/1.1'']"
proof -
  obtain wt mt mem where tls: "tlsOptions example_flags
      (certFiles (mf_webhook_cert_path example_flags) (mf_webhook_cert_name example_flags) (mf_webhook_cert_key example_flags))
      (certFiles (mf_metrics_cert_path example_flags) (mf_metrics_cert_name example_flags) (mf_metrics_cert_key example_flags))
      = (wt, mt, mem)" by (metis prod_cases3)
  let ?opts = "managerOptions example_flags ''ops'' wt mt"
  have created: "ManagerCreated ?opts mem \<in> set (snd (example_run willing))"
    by (simp add: example_run_options startupPlan_def tls Let_def)
  obtain code evs w' where
    run: "run_state (main willing self_env (\<lambda>_. ''ops'') (\<lambda>_. None) example_args) start_world = ((code, evs), w')"
    by (metis surj_pair)
  have files: "certFiles (mf_webhook_cert_path example_flags) (mf_webhook_cert_name example_flags) (mf_webhook_cert_key example_flags) =
      Some \<lparr>cf_cert = ''/certs/webhook/tls.crt'', cf_key = ''/certs/webhook/tls.key''\<rparr>"
    "certFiles (mf_metrics_cert_path example_flags) (mf_metrics_cert_name example_flags) (mf_metrics_cert_key example_flags) =
      Some \<lparr>cf_cert = ''/certs/metrics/tls.crt'', cf_key = ''/certs/metrics/tls.key''\<rparr>"
    by code_simp+
  have quiet: "\<not> mentions example_args ''enable-http2''" by code_simp
  have "ManagerCreated ?opts mem \<in> set evs" using created run by simp
  from main_configures_servers [OF example_args_parse run this refl refl, of plain_config plain_config] quiet
  show ?thesis
    unfolding files option.case using created by blast
qed

end
