(* ===== verification/Process.thy ===== *)
theory Process
  imports Manager
begin

text \<open>
  The life of an operator process: the passes it makes one after the other, from the reconciler that \<open>main\<close> creates on. What it
  remembers between passes is \<open>reloadedOnce\<close>, the field that has a fresh process reload every cluster once.
\<close>

section \<open>Histories\<close>

text \<open>A pass of the past: the request, the worlds it started and ended in, and what it returned.\<close>

record pass =
  ps_req :: object_key
  ps_start :: world
  ps_end :: world
  ps_result :: ctrl_result
  ps_error :: "goerr option"

text \<open>
  The work queue hands requests over in any order and number, one at a time, which is the default of controller-runtime; time passes
  between them. What other parties do in between is up to the environment.
\<close>

inductive process :: "env \<Rightarrow> reconciler \<Rightarrow> world \<Rightarrow> pass list \<Rightarrow> reconciler \<Rightarrow> world \<Rightarrow> bool"
  for env r0 w0 where
  boot: "process env r0 w0 [] r0 w0"
| idle: "process env r0 w0 h r w \<Longrightarrow> process env r0 w0 h r (w\<lparr>w_clock := w_clock w + d\<rparr>)"
| pass: "process env r0 w0 h r w \<Longrightarrow> run_state (Reconcile env r req) w = (((res, err), r'), w') \<Longrightarrow>
    process env r0 w0 (\<lparr>ps_req = req, ps_start = w, ps_end = w', ps_result = res, ps_error = err\<rparr> # h) r' w'"

inductive_cases process_bootE: "process env r0 w0 [] r w"

section \<open>What a pass does to the reconciler\<close>

definition keeps :: "reconciler \<Rightarrow> object_key \<Rightarrow> ('a \<times> reconciler) io \<Rightarrow> bool" where
  "keeps r req m \<longleftrightarrow> (\<forall>w. wp m (\<lambda>x _. rc_pod_reloader (snd x) = rc_pod_reloader r \<and> rc_identity (snd x) = rc_identity r \<and>
     set (rc_reloaded_once r) \<subseteq> set (rc_reloaded_once (snd x)) \<and>
     set (rc_reloaded_once (snd x)) \<subseteq> insert req (set (rc_reloaded_once r))) w)"

lemma keeps_return: "keeps r req (State_Monad.return (x, r))"
  by (auto simp: keeps_def)

lemma keeps_bind: "(\<And>x. keeps r req (f x)) \<Longrightarrow> keeps r req (State_Monad.bind m f)"
  by (auto simp: keeps_def intro: wp_any)

lemma keeps_sum: "(\<And>e. keeps r req (f e)) \<Longrightarrow> (\<And>x. keeps r req (g x)) \<Longrightarrow> keeps r req (case s of Inl e \<Rightarrow> f e | Inr x \<Rightarrow> g x)"
  by (cases s) auto

lemma keeps_pair: "(\<And>a b. keeps r req (f a b)) \<Longrightarrow> keeps r req (case p of (a, b) \<Rightarrow> f a b)"
  by (cases p) auto

lemma Reconcile_keeps: "keeps r req (Reconcile env r req)"
proof -
  have fail: "keeps r req (failCluster env r cluster msg err)" for cluster msg err
    unfolding failCluster_def by (intro keeps_bind keeps_return)
  have finish: "keeps r req (reloadAndFinish env r req cluster a u hash failed)" for cluster a u hash failed
    unfolding reloadAndFinish_def
    by (auto intro!: keeps_bind keeps_sum keeps_return fail) (auto simp: keeps_def)
  have publish: "keeps r req (publishConfig env r req cluster a u cfg failed)" for cluster a u cfg failed
    unfolding publishConfig_def Let_def by (intro keeps_bind keeps_sum fail finish)
  have core: "keeps r req (reconcileCluster env r req cluster accts users)" for cluster accts users
    unfolding reconcileCluster_def Let_def
    by (intro keeps_bind keeps_pair keeps_sum keeps_return publish)
  show ?thesis
    unfolding Reconcile_def
    by (intro keeps_bind keeps_sum keeps_return fail core)
qed

lemma Reconcile_reconciler:
  assumes "run_state (Reconcile env r req) w = (((res, err), r'), w')"
  shows "rc_pod_reloader r' = rc_pod_reloader r" "rc_identity r' = rc_identity r"
    and "set (rc_reloaded_once r) \<subseteq> set (rc_reloaded_once r')"
    and "set (rc_reloaded_once r') \<subseteq> insert req (set (rc_reloaded_once r))"
  using Reconcile_keeps [of r req env] wp_run [OF _ assms] unfolding keeps_def by fastforce+

lemma process_keeps:
  assumes "process env r0 w0 h r w"
  shows "rc_pod_reloader r = rc_pod_reloader r0 \<and> rc_identity r = rc_identity r0 \<and>
    set (rc_reloaded_once r) \<subseteq> set (rc_reloaded_once r0) \<union> ps_req ` set h"
  using assms by induction (auto dest: Reconcile_reconciler)

section \<open>Every cluster is reloaded after a restart, if nothing goes wrong\<close>

text \<open>A pass that found the cluster with a workload to reload, and ended without error and without asking for a retry.\<close>

definition smooth_pass :: "env \<Rightarrow> pass \<Rightarrow> bool" where
  "smooth_pass env p \<longleftrightarrow>
     (case e_get_cluster env (ps_start p) (ps_req p) of
        Inl e \<Rightarrow> False
      | Inr cluster \<Rightarrow> cs_server_ref (cl_spec cluster) \<noteq> None \<and> ps_error p = None \<and> ps_result p = no_requeue)"

text \<open>A pass in which every pod listed for the workload was running and was signalled.\<close>

definition resynced :: "env \<Rightarrow> pass \<Rightarrow> bool" where
  "resynced env p \<longleftrightarrow>
     (\<exists>cluster wm pre post. e_get_cluster env (ps_start p) (ps_req p) = Inr cluster \<and>
        w_trace wm = pre @ w_trace (ps_start p) \<and> w_trace (ps_end p) = post @ w_trace wm \<and>
        all_signalled env wm cluster post)"

lemma Reconcile_trace:
  assumes "rc_pod_reloader r = SpdyPodReloader env" "create_or_update_ok env" "e_get_cluster env w req = Inr cluster"
    and "run_state (Reconcile env r req) w = (((res, err), r'), w')"
  obtains evs where "w_trace w' = evs @ w_trace w"
proof (cases rule: Reconcile_run [OF assms])
  case (3 accts users awus pre wm op cm post)
  then have "w_trace w' = (post @ ConfigMapApplied (config_key cluster) (Inr (op, cm)) # pre) @ w_trace w" by simp
  then show ?thesis by (rule that)
qed (auto intro: that)

lemma first_smooth_pass:
  assumes "rc_pod_reloader r = SpdyPodReloader env" "create_or_update_ok env"
    and run: "run_state (Reconcile env r req) w = (((res, err), r'), w')"
    and p: "p = \<lparr>ps_req = req, ps_start = w, ps_end = w', ps_result = res, ps_error = err\<rparr>"
    and "smooth_pass env p" "req \<notin> set (rc_reloaded_once r)"
  shows "resynced env p"
proof -
  obtain cluster where get: "e_get_cluster env w req = Inr cluster" and ref: "cs_server_ref (cl_spec cluster) \<noteq> None"
    and ended: "err = None" "res = no_requeue"
    using assms(5) by (auto simp: smooth_pass_def p split: sum.splits)
  obtain evs where evs: "w_trace w' = evs @ w_trace w"
    by (rule Reconcile_trace [OF assms(1,2) get run])
  note run' = run [unfolded ended]
  obtain wm pre post where "w_trace wm = pre @ w_trace w" "evs = post @ pre" "all_signalled env wm cluster post"
    using Reconcile_restart_reload [OF assms(1,2) get ref run' evs] assms(6) by auto
  then show ?thesis
    unfolding resynced_def p using get evs by fastforce
qed

text \<open>
  C11. After a restart every cluster is brought in sync again: in the life of a process that \<open>main\<close> has started, in whatever order the
  work queue hands out requests, if all passes of a cluster went smoothly, one of them has signalled every pod of its workload, even if
  the recorded hash said from the beginning that nothing changed.
\<close>
theorem process_resyncs:
  assumes "process env (newReconciler env oid) w0 h r w" "create_or_update_ok env"
    and "p \<in> set h" "\<forall>q\<in>set h. ps_req q = ps_req p \<longrightarrow> smooth_pass env q"
  shows "\<exists>q\<in>set h. ps_req q = ps_req p \<and> resynced env q"
  using assms
proof (induction arbitrary: p)
  case (pass h r w req res err r' w')
  let ?new = "\<lparr>ps_req = req, ps_start = w, ps_end = w', ps_result = res, ps_error = err\<rparr>"
  show ?case
  proof (cases "\<exists>q\<in>set h. ps_req q = ps_req p")
    case True
    then obtain q where "q \<in> set h" "ps_req q = ps_req p" by blast
    with pass.IH [of q] pass.prems show ?thesis by auto
  next
    case False
    with pass.prems have p: "p = ?new" by auto
    have keeps: "rc_pod_reloader r = SpdyPodReloader env" "set (rc_reloaded_once r) \<subseteq> ps_req ` set h"
      using process_keeps [OF pass.hyps(1)] by (auto simp: newReconciler_def)
    have "req \<notin> set (rc_reloaded_once r)" using keeps(2) False p by force
    moreover have "smooth_pass env p" using pass.prems p by simp
    ultimately have "resynced env p" using first_smooth_pass [OF keeps(1) pass.prems(1) pass.hyps(2) p] by simp
    then show ?thesis using p by auto
  qed
qed auto

section \<open>A forced reload that is given up\<close>

text \<open>
  A cluster without accounts, recorded as up to date before the restart. Its only pod is not running yet when the new process makes
  its first pass; later it runs and shows the current file.
\<close>

definition current_cluster :: nats_cluster where
  "current_cluster = idle_cluster\<lparr>cl_status := (cl_status idle_cluster)\<lparr>cst_last_config_hash := idle_hash\<rparr>\<rparr>"

definition starting_pod :: pod where
  "starting_pod = (example_pod ''nats-0'')\<lparr>pod_phase := ''Pending''\<rparr>"

fun is_status_update :: "event \<Rightarrow> bool" where
  "is_status_update (ClusterStatusUpdated _ _) = True"
| "is_status_update _ = False"

definition restart_env :: env where
  "restart_env = idle_env
     \<lparr>e_get_cluster := \<lambda>_ _. Inr current_cluster,
      e_list_pods := \<lambda>w _ _. Inr [if list_ex is_status_update (w_trace w) then example_pod ''nats-0'' else starting_pod]\<rparr>"

lemma restart_env_simps [simp]:
  "e_get_cluster restart_env w k = Inr current_cluster" "e_list_accounts restart_env w n = Inr []"
  "e_list_users restart_env w = Inr []" "e_printable restart_env = (\<lambda>_. True)"
  "e_create_or_update restart_env w cm f = map_sum id (Pair OpCreated) (f cm)"
  "e_set_controller restart_env c cm = None" "e_update_cluster_status restart_env w c = None"
  "e_get_deployment restart_env w k = Inr ''app=nats''" "e_selector restart_env = (\<lambda>s. Inr s)"
  "e_list_pods restart_env w ns sel = Inr [if list_ex is_status_update (w_trace w) then example_pod ''nats-0'' else starting_pod]"
  by (simp_all add: restart_env_def idle_env_def reload_env_def)

lemma current_sel [simp]:
  "cluster_name current_cluster = ''c''" "cluster_namespace current_cluster = ''ns''" "recorded_hash current_cluster = idle_hash"
  "cs_server_ref (cl_spec current_cluster) = Some \<lparr>wr_kind = ''Deployment'', wr_name = ''nats''\<rparr>"
  by (simp_all add: current_cluster_def)

lemma starting_not_running: "pod_phase starting_pod \<noteq> PodRunning"
  by (simp add: starting_pod_def PodRunning_def)

text \<open>What a pass over this cluster comes to, once the file is written.\<close>

lemma restart_pass:
  assumes "\<And>w' evs. w_trace w' = evs @ w_trace w \<Longrightarrow> \<not> list_ex is_exec evs \<Longrightarrow>
      list_ex is_status_update (w_trace w') = list_ex is_status_update (w_trace w) \<Longrightarrow>
      wp (reloadAndFinish restart_env r req current_cluster 0 0 idle_hash False) Q w'"
  shows "wp (Reconcile restart_env r req) Q w"
proof -
  have conflicts: "surfaceConflicts restart_env current_cluster (ConvertToNatsConfig []) [] False = State_Monad.return False"
    by (simp add: surfaceConflicts_def ConvertToNatsConfig_def systemCandidates_def)
  have acc: "reconcileAccountsAndUsers restart_env oid current_cluster [] [] = State_Monad.return (Inr ([], 0), False, [])" for oid
    by (simp add: reconcileAccountsAndUsers_def state.expand)
  have applied: "mutateConfigMap restart_env current_cluster t cm = Inr (cm\<lparr>cm_data := [(''auth.conf'', t)]\<rparr>)" for t cm
    by (simp add: mutateConfigMap_def)
  have publish: "wp (publishConfig restart_env r req current_cluster 0 0 (ConvertToNatsConfig []) False) Q w'"
    if "w_trace w' = evs @ w_trace w" "\<not> list_ex is_exec evs"
      "list_ex is_status_update (w_trace w') = list_ex is_status_update (w_trace w)" for w' evs
    unfolding publishConfig_def Let_def wp_bind wp_ensureConfigMap restart_env_simps applied map_sum.simps sum.case
      idle_hash_def [symmetric]
    by (rule assms [where evs = "_ # evs"], simp add: that(1)) (use that in simp_all)
  have core: "wp (reconcileCluster restart_env r req current_cluster [] []) Q w'"
    if "w_trace w' = evs @ w_trace w" "\<not> list_ex is_exec evs"
      "list_ex is_status_update (w_trace w') = list_ex is_status_update (w_trace w)" for w' evs
    by (simp only: reconcileCluster_def acc Let_def wp_bind wp_return prod.case sum.case conflicts list.size
        publish [OF that])
  have sorted: "sort_key account_name [] = []" by simp
  show ?thesis
    unfolding Reconcile_def GetCluster_def listMatchingAccounts_def listAllUsers_def ListAccounts_def ListUsers_def
      wp_bind wp_call wp_return restart_env_simps sum.case filter.simps sorted
    by (rule core [where evs = "[_, _, _]"], simp) simp_all
qed

lemma restart_first:
  assumes "rc_pod_reloader r = SpdyPodReloader restart_env" "rc_reloaded_once r = []" "\<not> list_ex is_status_update (w_trace w)"
    "\<not> list_ex is_exec (w_trace w)"
  shows "wp (Reconcile restart_env r req) (\<lambda>((res, err), r') w'. res = requeue_soon \<and> err = None \<and>
    r' = r\<lparr>rc_reloaded_once := [req]\<rparr> \<and> list_ex is_status_update (w_trace w') \<and> \<not> list_ex is_exec (w_trace w')) w"
proof (rule restart_pass)
  fix w' :: world and evs
  assume w': "w_trace w' = evs @ w_trace w" "\<not> list_ex is_exec evs"
    "list_ex is_status_update (w_trace w') = list_ex is_status_update (w_trace w)"
  have need: "needsReload r req current_cluster idle_hash"
    using assms(2) by (simp add: needsReload_def)
  have quiet: "\<not> list_ex is_exec (w_trace w')" "\<not> list_ex is_status_update (w_trace w')"
    using w' assms(3,4) by auto
  show "wp (reloadAndFinish restart_env r req current_cluster 0 0 idle_hash False)
      (\<lambda>((res, err), r') w'. res = requeue_soon \<and> err = None \<and>
        r' = r\<lparr>rc_reloaded_once := [req]\<rparr> \<and> list_ex is_status_update (w_trace w') \<and> \<not> list_ex is_exec (w_trace w')) w'"
    unfolding reloadAndFinish_def if_P [OF need]
    using quiet starting_not_running assms(2)
    by (simp add: reloadNatsPods_def wp_podSelectorOf workload_selector_def after_workload_def ListPods_def wp_finish Let_def
        finishedStatus_hash)
qed

lemma restart_second:
  assumes "req \<in> set (rc_reloaded_once r)" "\<not> list_ex is_exec (w_trace w)"
  shows "wp (Reconcile restart_env r req) (\<lambda>((res, err), r') w'. res = no_requeue \<and> err = None \<and>
    r' = r \<and> \<not> list_ex is_exec (w_trace w')) w"
proof (rule restart_pass)
  fix w' :: world and evs
  assume w': "w_trace w' = evs @ w_trace w" "\<not> list_ex is_exec evs"
  have need: "\<not> needsReload r req current_cluster idle_hash"
    using assms(1) by (simp add: needsReload_def)
  show "wp (reloadAndFinish restart_env r req current_cluster 0 0 idle_hash False)
      (\<lambda>((res, err), r') w'. res = no_requeue \<and> err = None \<and> r' = r \<and> \<not> list_ex is_exec (w_trace w')) w'"
    unfolding reloadAndFinish_def if_not_P [OF need]
    using w' assms(2) by (simp add: wp_finish Let_def)
qed

abbreviation nobody :: operator_identity where
  "nobody \<equiv> \<lparr>oi_namespace = [], oi_deployment = []\<rparr>"

text \<open>
  C12. A reload that was forced by a restart is tried only once: there is a run of a fresh process in which the first pass finds a
  pod that is not running yet and asks to be repeated, as intended; the repetition then reports that all is done, although
  the pod runs now and shows the file, and no command was ever run in any pod. What counts as reloaded was noted down by the first pass.
\<close>
theorem forced_reload_given_up:
  "\<exists>h r w. process restart_env (newReconciler restart_env nobody) start_world h r w \<and>
     map (\<lambda>p. (ps_req p, ps_result p, ps_error p)) h = [(idle_req, no_requeue, None), (idle_req, requeue_soon, None)] \<and>
     workload_pods restart_env w \<lparr>wr_kind = ''Deployment'', wr_name = ''nats''\<rparr> ''ns'' [example_pod ''nats-0''] \<and>
     \<not> list_ex is_exec (w_trace w)"
proof -
  let ?r0 = "newReconciler restart_env nobody"
  obtain res1 err1 r1 w1 where run1: "run_state (Reconcile restart_env ?r0 idle_req) start_world = (((res1, err1), r1), w1)"
    by (metis prod.collapse)
  have 1: "res1 = requeue_soon" "err1 = None" "r1 = ?r0\<lparr>rc_reloaded_once := [idle_req]\<rparr>"
    "list_ex is_status_update (w_trace w1)" "\<not> list_ex is_exec (w_trace w1)"
    using wp_run [OF restart_first run1] by (simp_all add: newReconciler_def start_world_def)
  obtain res2 err2 r2 w2 where run2: "run_state (Reconcile restart_env r1 idle_req) w1 = (((res2, err2), r2), w2)"
    by (metis prod.collapse)
  have 2: "res2 = no_requeue" "err2 = None" "\<not> list_ex is_exec (w_trace w2)"
    using wp_run [OF restart_second run2] 1(3,5) by simp_all
  obtain evs where "w_trace w2 = evs @ w_trace w1"
    using Reconcile_trace [OF _ _ _ run2] 1(3) by (auto simp: newReconciler_def create_or_update_ok_def map_sum_Inr_iff)
  then have "list_ex is_status_update (w_trace w2)" using 1(4) by simp
  then have "workload_pods restart_env w2 \<lparr>wr_kind = ''Deployment'', wr_name = ''nats''\<rparr> ''ns'' [example_pod ''nats-0'']"
    by (simp add: workload_pods_def workload_selector_def after_workload_def)
  with 1 2 show ?thesis
    using process.pass [OF process.pass [OF process.boot run1] run2] by fastforce
qed

theorem process_resyncs_witness:
  "\<exists>h r w. process idle_env (newReconciler idle_env nobody) start_world h r w \<and> (\<exists>q\<in>set h. ps_req q = idle_req \<and> resynced idle_env q)"
proof -
  have fresh: "newReconciler idle_env nobody = idle_reconciler"
    by (simp add: newReconciler_def idle_reconciler_def)
  obtain r' w' c evs where run: "run_state (Reconcile idle_env idle_reconciler idle_req) start_world = (((no_requeue, None), r'), w')"
    by (rule idle_ends)
  let ?p = "\<lparr>ps_req = idle_req, ps_start = start_world, ps_end = w', ps_result = no_requeue, ps_error = None\<rparr>"
  have life: "process idle_env (newReconciler idle_env nobody) start_world [?p] r' w'"
    by (rule process.pass [OF process.boot]) (simp add: fresh run)
  have "smooth_pass idle_env ?p" by (simp add: smooth_pass_def)
  with process_resyncs [OF life idle_ok, of ?p] have "\<exists>q\<in>set [?p]. ps_req q = idle_req \<and> resynced idle_env q" by simp
  with life show ?thesis by blast
qed

end
