(* ===== verification/GoHeap.thy ===== *)
theory GoHeap
  imports GoPrelude "HOL-Library.Sublist" "HOL-Library.Monad_Syntax"
begin

text \<open>
  Memory, for the code that is about sharing: the deep copies. A heap is the list of the cells allocated so far, an address
  an index into it; nothing is ever freed, as a Go program cannot tell. A pointer, a slice and a map are an address
  or nil. A computation that would follow an invalid pointer has no result, \<open>None\<close>.
\<close>

section \<open>Cells\<close>

type_synonym addr = nat
type_synonym 'c heap = "'c list"

text \<open>A kind of cell: how a value is stored, and how it is read back from a cell of this kind.\<close>

record ('a, 'c) cell_kind =
  ck_make :: "'a \<Rightarrow> 'c"
  ck_dest :: "'c \<Rightarrow> 'a option"

definition kind_ok :: "('a, 'c) cell_kind \<Rightarrow> bool" where
  "kind_ok K \<longleftrightarrow> (\<forall>x. ck_dest K (ck_make K x) = Some x)"

definition deref :: "('a, 'c) cell_kind \<Rightarrow> 'c heap \<Rightarrow> addr \<Rightarrow> 'a option" where
  "deref K h a = (if a < length h then ck_dest K (h ! a) else None)"

definition alloc :: "('a, 'c) cell_kind \<Rightarrow> 'a \<Rightarrow> 'c heap \<Rightarrow> addr \<times> 'c heap" where
  "alloc K x h = (length h, h @ [ck_make K x])"

lemma deref_stable: "deref K h a = Some x \<Longrightarrow> prefix h k \<Longrightarrow> deref K k a = Some x"
  by (auto simp: deref_def prefix_def nth_append split: if_splits)

section \<open>Copying\<close>

type_synonym ('a, 'c) copier = "'c heap \<Rightarrow> 'a \<Rightarrow> ('a \<times> 'c heap) option"

text \<open>\<open>*out = *in\<close> for a value without pointers.\<close>

definition copyValue :: "('a, 'c) copier" where
  "copyValue h x = Some (x, h)"

text \<open>
  The pattern of every pointer field: nil stays nil; otherwise there is a new object, into which the old one is
  copied. The order in which the new object and those below it are allocated cannot be observed; here the object comes last.
\<close>

definition copyPtr :: "('a, 'c) cell_kind \<Rightarrow> ('a, 'c) copier \<Rightarrow> (addr option, 'c) copier" where
  "copyPtr K C h p =
     (case p of
        None \<Rightarrow> Some (None, h)
      | Some a \<Rightarrow> do {
          x \<leftarrow> deref K h a;
          (y, h1) \<leftarrow> C h x;
          let (b, h2) = alloc K y h1;
          Some (Some b, h2)
        })"

text \<open>The loop over the elements of a slice.\<close>

fun copyList :: "('a, 'c) copier \<Rightarrow> ('a list, 'c) copier" where
  "copyList C h [] = Some ([], h)"
| "copyList C h (x # xs) =
     do {
       (y, h1) \<leftarrow> C h x;
       (ys, h2) \<leftarrow> copyList C h1 xs;
       Some (y # ys, h2)
     }"

text \<open>The loop over the entries of a map.\<close>

definition copyMap :: "('v gomap, 'c) copier" where
  "copyMap h m = Some (foldl (\<lambda>out (key, val). AList.update key val out) [] m, h)"

section \<open>What a pointer stands for\<close>

text \<open>The value that a term with pointers denotes in a heap, if all its pointers are valid.\<close>

type_synonym ('a, 'c, 'v) view = "'c heap \<Rightarrow> 'a \<Rightarrow> 'v option"

definition viewValue :: "('a, 'c, 'a) view" where
  "viewValue h x = Some x"

definition viewPtr :: "('a, 'c) cell_kind \<Rightarrow> ('a, 'c, 'v) view \<Rightarrow> (addr option, 'c, 'v option) view" where
  "viewPtr K V h p =
     (case p of None \<Rightarrow> Some None | Some a \<Rightarrow> do { x \<leftarrow> deref K h a; v \<leftarrow> V h x; Some (Some v) })"

fun viewList :: "('a, 'c, 'v) view \<Rightarrow> ('a list, 'c, 'v list) view" where
  "viewList V h [] = Some []"
| "viewList V h (x # xs) = do { v \<leftarrow> V h x; vs \<leftarrow> viewList V h xs; Some (v # vs) }"

definition viewMap :: "('w gomap, 'c, 'w gomap) view" where
  "viewMap h m = (if map_wf m then Some m else None)"

text \<open>A slice denotes its elements, nil like an empty one.\<close>

definition viewSlice :: "('a list, 'c) cell_kind \<Rightarrow> ('a, 'c, 'v) view \<Rightarrow> (addr option, 'c, 'v list) view" where
  "viewSlice K V h p = map_option (\<lambda>r. case r of None \<Rightarrow> [] | Some vs \<Rightarrow> vs) (viewPtr K (viewList V) h p)"

section \<open>The contract of a deep copy\<close>

text \<open>\<open>k\<close> has the cells that were added from \<open>h\<close> to \<open>h'\<close>; elsewhere it may be anything.\<close>

definition agrees :: "'c heap \<Rightarrow> 'c heap \<Rightarrow> 'c heap \<Rightarrow> bool" where
  "agrees h h' k \<longleftrightarrow> length h' \<le> length k \<and> (\<forall>a. length h \<le> a \<and> a < length h' \<longrightarrow> k ! a = h' ! a)"

lemma agrees_refl: "prefix h h' \<Longrightarrow> agrees h h' h'"
  by (simp add: agrees_def)

lemma agrees_first:
  assumes "prefix h h1" "prefix h1 h2" "agrees h h2 k"
  shows "agrees h h1 k"
  using assms by (auto simp: agrees_def prefix_def nth_append)

lemma agrees_second:
  assumes "prefix h h1" "prefix h1 h2" "agrees h h2 k"
  shows "agrees h1 h2 k"
  using assms by (auto simp: agrees_def prefix_def)

text \<open>
  What a term denotes does not depend on cells allocated later. Copying succeeds where the term denotes something, only adds cells,
  and what it returns denotes the same in every memory that still has the added cells, whatever happened to the others.
\<close>

locale deep_copy =
  fixes V :: "('a, 'c, 'v) view" and C :: "('a, 'c) copier"
  assumes stable: "V h x = Some v \<Longrightarrow> prefix h k \<Longrightarrow> V k x = Some v"
    and copies: "V h x = Some v \<Longrightarrow> \<exists>y h'. C h x = Some (y, h') \<and> prefix h h' \<and> (\<forall>k. agrees h h' k \<longrightarrow> V k y = Some v)"
begin

text \<open>The copy is equal to the original.\<close>

lemma same_value:
  assumes "V h x = Some v"
  obtains y h' where "C h x = Some (y, h')" "prefix h h'" "V h' y = Some v" "V h' x = Some v"
  using copies [OF assms] stable [OF assms] agrees_refl by blast

text \<open>Writing to cells of the old heap does not touch the copy.\<close>

lemma copy_survives:
  assumes "V h x = Some v" "C h x = Some (y, h')" "a < length h"
  shows "V (h'[a := c]) y = Some v"
proof -
  have "agrees h h' (h'[a := c])" using assms(3) by (simp add: agrees_def)
  then show ?thesis using copies [OF assms(1)] assms(2) by fastforce
qed

text \<open>Writing to cells of the copy does not touch the original.\<close>

lemma original_survives:
  assumes "V h x = Some v" "C h x = Some (y, h')" "length h \<le> a"
  shows "V (h'[a := c]) x = Some v"
proof -
  have "prefix h h'" using copies [OF assms(1)] assms(2) by fastforce
  then have "prefix h (h'[a := c])"
    using assms(3) by (auto simp: prefix_def list_update_append)
  then show ?thesis by (rule stable [OF assms(1)])
qed

end

section \<open>Deep copies from deep copies\<close>

interpretation plain: deep_copy viewValue copyValue
  by unfold_locales (auto simp: viewValue_def copyValue_def)

lemma deep_copy_value: "deep_copy viewValue copyValue"
  by (rule plain.deep_copy_axioms)

lemma foldl_update_wf:
  "distinct (map fst (out @ m)) \<Longrightarrow> foldl (\<lambda>out (key, val). AList.update key val out) out m = out @ m"
proof (induction m arbitrary: out)
  case (Cons p m)
  obtain k v where p: "p = (k, v)" by force
  have "AList.update k v out = out @ [(k, v)]" if "k \<notin> fst ` set out"
    using that by (induction out) auto
  with Cons p show ?case by simp
qed simp

interpretation map_entries: deep_copy viewMap copyMap
  by unfold_locales (auto simp: viewMap_def copyMap_def foldl_update_wf split: if_splits)

lemma deep_copy_map: "deep_copy viewMap copyMap"
  by (rule map_entries.deep_copy_axioms)

lemma deep_copyI:
  assumes "\<And>h x v k. V h x = Some v \<Longrightarrow> prefix h k \<Longrightarrow> V k x = Some v"
    and "\<And>h x v. V h x = Some v \<Longrightarrow>
      \<exists>y h'. C h x = Some (y, h') \<and> prefix h h' \<and> (\<forall>k. agrees h h' k \<longrightarrow> V k y = Some v)"
  shows "deep_copy V C"
  using assms by unfold_locales

lemma deep_copy_ptr:
  assumes "kind_ok K" "deep_copy V C"
  shows "deep_copy (viewPtr K V) (copyPtr K C)"
proof (rule deep_copyI)
  fix h p v k
  assume v: "viewPtr K V h p = Some v" and k: "prefix h k"
  show "viewPtr K V k p = Some v"
  proof (cases p)
    case None
    with v show ?thesis by (simp add: viewPtr_def)
  next
    case (Some a)
    with v obtain x w where x: "deref K h a = Some x" "V h x = Some w" "v = Some w"
      by (auto simp: viewPtr_def bind_eq_Some_conv)
    with deref_stable [OF x(1) k] deep_copy.stable [OF assms(2) x(2) k] Some show ?thesis by (simp add: viewPtr_def)
  qed
next
  fix h p v
  assume view: "viewPtr K V h p = Some v"
  show "\<exists>y h'. copyPtr K C h p = Some (y, h') \<and> prefix h h' \<and> (\<forall>k. agrees h h' k \<longrightarrow> viewPtr K V k y = Some v)"
  proof (cases p)
    case None
    with view show ?thesis by (simp add: copyPtr_def viewPtr_def)
  next
    case (Some a)
    with view obtain x w where x: "deref K h a = Some x" "V h x = Some w" "v = Some w"
      by (auto simp: viewPtr_def bind_eq_Some_conv)
    from deep_copy.copies [OF assms(2) x(2)] obtain y h1
      where y: "C h x = Some (y, h1)" "prefix h h1" "\<forall>k. agrees h h1 k \<longrightarrow> V k y = Some w" by blast
    let ?h2 = "h1 @ [ck_make K y]"
    have "viewPtr K V k (Some (length h1)) = Some v" if "agrees h ?h2 k" for k
    proof -
      have "agrees h h1 k" using agrees_first [OF y(2) _ that] by simp
      moreover have "deref K k (length h1) = Some y"
        using that prefix_length_le [OF y(2)] assms(1) by (auto simp: agrees_def deref_def kind_ok_def)
      ultimately show ?thesis using y(3) x(3) by (simp add: viewPtr_def)
    qed
    moreover have "copyPtr K C h p = Some (Some (length h1), ?h2)"
      using Some x(1) y(1) by (simp add: copyPtr_def alloc_def)
    moreover have "prefix h ?h2" using y(2) by (simp add: prefix_prefix)
    ultimately show ?thesis by blast
  qed
qed

text \<open>Two parts, one after the other: the second sees the memory the first has left, and does not disturb its copy.\<close>

definition copyPair :: "('a, 'c) copier \<Rightarrow> ('b, 'c) copier \<Rightarrow> ('a \<times> 'b, 'c) copier" where
  "copyPair C D h p =
     do {
       (x, h1) \<leftarrow> C h (fst p);
       (y, h2) \<leftarrow> D h1 (snd p);
       Some ((x, y), h2)
     }"

definition viewPair :: "('a, 'c, 'v) view \<Rightarrow> ('b, 'c, 'w) view \<Rightarrow> ('a \<times> 'b, 'c, 'v \<times> 'w) view" where
  "viewPair V W h p = do { v \<leftarrow> V h (fst p); w \<leftarrow> W h (snd p); Some (v, w) }"

lemma deep_copy_pair:
  assumes "deep_copy V C" "deep_copy W D"
  shows "deep_copy (viewPair V W) (copyPair C D)"
proof (rule deep_copyI)
  fix h p v k
  assume "viewPair V W h p = Some v" and k: "prefix h k"
  then obtain v1 v2 where v: "V h (fst p) = Some v1" "W h (snd p) = Some v2" "v = (v1, v2)"
    by (auto simp: viewPair_def bind_eq_Some_conv)
  with deep_copy.stable [OF assms(1) v(1) k] deep_copy.stable [OF assms(2) v(2) k]
  show "viewPair V W k p = Some v" by (simp add: viewPair_def)
next
  fix h p v
  assume "viewPair V W h p = Some v"
  then obtain v1 v2 where v: "V h (fst p) = Some v1" "W h (snd p) = Some v2" "v = (v1, v2)"
    by (auto simp: viewPair_def bind_eq_Some_conv)
  from deep_copy.copies [OF assms(1) v(1)] obtain x h1
    where x: "C h (fst p) = Some (x, h1)" "prefix h h1" "\<forall>k. agrees h h1 k \<longrightarrow> V k x = Some v1" by blast
  from deep_copy.copies [OF assms(2) deep_copy.stable [OF assms(2) v(2) x(2)]] obtain y h2
    where y: "D h1 (snd p) = Some (y, h2)" "prefix h1 h2" "\<forall>k. agrees h1 h2 k \<longrightarrow> W k y = Some v2" by blast
  have "viewPair V W k (x, y) = Some v" if "agrees h h2 k" for k
    using x(3) y(3) v(3) agrees_first [OF x(2) y(2) that] agrees_second [OF x(2) y(2) that] by (simp add: viewPair_def)
  moreover have "copyPair C D h p = Some ((x, y), h2)" using x(1) y(1) by (simp add: copyPair_def)
  moreover have "prefix h h2" using x(2) y(2) by (rule prefix_order.trans)
  ultimately show "\<exists>y h'. copyPair C D h p = Some (y, h') \<and> prefix h h' \<and> (\<forall>k. agrees h h' k \<longrightarrow> viewPair V W k y = Some v)"
    by blast
qed

text \<open>
  A struct: the parts with pointers, \<open>get\<close>, are copied and put back with \<open>put\<close>; \<open>rest\<close>
  is what the assignment \<open>*out = *in\<close> copies by itself.
\<close>

lemma deep_copy_struct:
  assumes "deep_copy V C"
    and "\<And>h x. C' h x = map_option (\<lambda>(t, h'). (put x t, h')) (C h (get x))"
    and "\<And>h x. V' h x = map_option (mk (rest x)) (V h (get x))"
    and "\<And>x t. get (put x t) = t" "\<And>x t. rest (put x t) = rest x"
  shows "deep_copy V' C'"
proof (rule deep_copyI)
  fix h x v k
  assume "V' h x = Some v" and k: "prefix h k"
  then obtain w where w: "V h (get x) = Some w" "v = mk (rest x) w"
    unfolding assms(3) by (elim map_option_eq_Some [THEN iffD1, elim_format] exE conjE) simp
  with deep_copy.stable [OF assms(1) w(1) k] show "V' k x = Some v" unfolding assms(3) by simp
next
  fix h x v
  assume "V' h x = Some v"
  then obtain w where w: "V h (get x) = Some w" "v = mk (rest x) w"
    unfolding assms(3) by (elim map_option_eq_Some [THEN iffD1, elim_format] exE conjE) simp
  from deep_copy.copies [OF assms(1) w(1)] obtain t h1
    where t: "C h (get x) = Some (t, h1)" "prefix h h1" "\<forall>k. agrees h h1 k \<longrightarrow> V k t = Some w" by blast
  have "C' h x = Some (put x t, h1)" unfolding assms(2) t(1) by simp
  moreover have "V' k (put x t) = Some v" if "agrees h h1 k" for k
    using t(3) that unfolding assms(3-5) w(2) by simp
  ultimately show "\<exists>y h'. C' h x = Some (y, h') \<and> prefix h h' \<and> (\<forall>k. agrees h h' k \<longrightarrow> V' k y = Some v)"
    using t(2) by blast
qed

lemma deep_copy_list:
  assumes "deep_copy V C"
  shows "deep_copy (viewList V) (copyList C)"
proof -
  have mono: "viewList V k xs = Some vs" if "viewList V h xs = Some vs" "prefix h k" for h k xs vs
    using that
  proof (induction xs arbitrary: vs)
    case (Cons x xs)
    then obtain w ws where v: "V h x = Some w" "viewList V h xs = Some ws" "vs = w # ws"
      by (auto simp: bind_eq_Some_conv)
    with Cons.IH [OF v(2) Cons.prems(2)] deep_copy.stable [OF assms v(1) Cons.prems(2)] show ?case by simp
  qed simp
  have "\<exists>ys h'. copyList C h xs = Some (ys, h') \<and> prefix h h' \<and> (\<forall>k. agrees h h' k \<longrightarrow> viewList V k ys = Some vs)"
    if "viewList V h xs = Some vs" for h xs vs
    using that
  proof (induction xs arbitrary: h vs)
    case (Cons x xs)
    then obtain w ws where v: "V h x = Some w" "viewList V h xs = Some ws" "vs = w # ws"
      by (auto simp: bind_eq_Some_conv)
    from deep_copy.copies [OF assms v(1)] obtain y h1
      where y: "C h x = Some (y, h1)" "prefix h h1" "\<forall>k. agrees h h1 k \<longrightarrow> V k y = Some w" by blast
    from Cons.IH [OF mono [OF v(2) y(2)]] obtain ys h2
      where ys: "copyList C h1 xs = Some (ys, h2)" "prefix h1 h2" "\<forall>k. agrees h1 h2 k \<longrightarrow> viewList V k ys = Some ws" by blast
    have "viewList V k (y # ys) = Some vs" if "agrees h h2 k" for k
      using y(3) ys(3) v(3) agrees_first [OF y(2) ys(2) that] agrees_second [OF y(2) ys(2) that] by simp
    moreover have "prefix h h2" using y(2) ys(2) by (rule prefix_order.trans)
    ultimately show ?case using y(1) ys(1) by fastforce
  qed simp
  then show ?thesis using mono by (intro deep_copyI) blast+
qed

lemma deep_copy_slice:
  assumes "kind_ok K" "deep_copy V C"
  shows "deep_copy (viewSlice K V) (copyPtr K (copyList C))"
  by (rule deep_copy_struct [where get = id and put = "\<lambda>_ t. t" and rest = "\<lambda>_. ()"
      and mk = "\<lambda>_ r. case r of None \<Rightarrow> [] | Some vs \<Rightarrow> vs", OF deep_copy_ptr [OF assms(1) deep_copy_list [OF assms(2)]]])
    (simp_all add: viewSlice_def option.map_ident id_def)

end
