(* ===== verification/DeepCopy.thy ===== *)
theory DeepCopy
  imports GoHeap ApiTypes
begin

text \<open>
  \<open>api/v1alpha1/zz_generated.deepcopy.go\<close> and the copy functions of \<open>AllowResponsesSpec\<close>,
  written by hand, in \<open>natsuser_types.go\<close>. Here the resources are as Go has them, structs whose pointers,
  slices and maps are addresses in a heap; what such a struct denotes is the record of \<open>ApiTypes\<close> that
  the rest of the development works with. The metadata of a list is not part of the model.
\<close>

section \<open>The library's own copies\<close>

text \<open>
  Quantities, conditions and object metadata are types of the library with deep copies of their own. The library
  documents that they return an equal value.
\<close>

record copy_library =
  lib_quantity :: "quantity \<Rightarrow> quantity"
  lib_condition :: "condition \<Rightarrow> condition"
  lib_meta :: "object_meta \<Rightarrow> object_meta"

definition library_copies :: "copy_library \<Rightarrow> bool" where
  "library_copies lib \<longleftrightarrow> (\<forall>q. lib_quantity lib q = q) \<and> (\<forall>c. lib_condition lib c = c) \<and> (\<forall>m. lib_meta lib m = m)"

definition copyWith :: "('a \<Rightarrow> 'a) \<Rightarrow> ('a, 'c) copier" where
  "copyWith f h x = Some (f x, h)"

section \<open>Structs with pointers\<close>

record go_allow_responses =
  gar_bool_value :: "addr option"
  gar_max_msgs :: "addr option"
  gar_ttl :: "addr option"

record go_account_jetstream =
  gjs_max_memory :: "addr option"
  gjs_max_file :: "addr option"
  gjs_max_streams :: "addr option"
  gjs_max_consumers :: "addr option"
  gjs_max_bytes_required :: "addr option"
  gjs_memory_max_stream_bytes :: "addr option"
  gjs_disk_max_stream_bytes :: "addr option"
  gjs_max_ack_pending :: "addr option"

record go_account_limits =
  gli_max_connections :: "addr option"
  gli_max_subscriptions :: "addr option"
  gli_max_payload :: "addr option"
  gli_max_leafnodes :: "addr option"

record go_user_rule =
  gur_action :: string
  gur_namespace_regex :: "addr option"
  gur_namespace_labels :: "addr option"
  gur_same_namespace :: "addr option"

record go_account_spec =
  gas_cluster_ref :: string
  gas_user_rules :: "addr option"
  gas_jetstream :: "addr option"
  gas_limits :: "addr option"
  gas_system_account :: bool

record go_account_status =
  gast_conditions :: "addr option"
  gast_user_count :: nat
  gast_debug_command :: string

record go_account =
  gac_meta :: object_meta
  gac_spec :: go_account_spec
  gac_status :: go_account_status

record go_cluster_spec =
  gcs_server_ref :: "addr option"
  gcs_monitoring_port :: "addr option"
  gcs_external_urls :: "addr option"

record go_cluster_status =
  gcst_conditions :: "addr option"
  gcst_account_count :: nat
  gcst_user_count :: nat
  gcst_last_config_hash :: string

record go_cluster =
  gcl_meta :: object_meta
  gcl_spec :: go_cluster_spec
  gcl_status :: go_cluster_status

record go_permission_rule =
  gpr_allow :: "addr option"
  gpr_deny :: "addr option"

record go_permissions =
  gpm_publish :: "addr option"
  gpm_subscribe :: "addr option"
  gpm_allow_responses :: "addr option"

record go_user_spec =
  gus_account_ref :: namespaced_object_reference
  gus_inbox_prefix :: "addr option"
  gus_insecure_shared_inbox_prefix :: bool
  gus_permissions :: "addr option"

record go_user_status =
  gust_conditions :: "addr option"
  gust_nkey_public_key :: string
  gust_secret_ref :: "addr option"
  gust_debug_command :: string
  gust_connection_urls :: "addr option"
  gust_is_system_account :: bool

record go_user =
  gu_meta :: object_meta
  gu_spec :: go_user_spec
  gu_status :: go_user_status

record go_list =
  gl_items :: "addr option"

section \<open>Cells\<close>

datatype cell =
    Int64Cell int64
  | Int32Cell int32
  | BoolCell bool
  | StringCell string
  | QuantityCell quantity
  | StringsCell "string list"
  | LabelsCell "string gomap"
  | ConditionsCell "condition list"
  | WorkloadCell workload_reference
  | SecretRefCell string
  | LocalRefCell string
  | NamespacedRefCell namespaced_object_reference
  | AllowResponsesCell go_allow_responses
  | JetstreamCell go_account_jetstream
  | LimitsCell go_account_limits
  | PermissionRuleCell go_permission_rule
  | PermissionsCell go_permissions
  | UserRuleCell go_user_rule
  | AccountSpecCell go_account_spec
  | AccountStatusCell go_account_status
  | AccountCell go_account
  | ClusterSpecCell go_cluster_spec
  | ClusterStatusCell go_cluster_status
  | ClusterCell go_cluster
  | UserSpecCell go_user_spec
  | UserStatusCell go_user_status
  | UserCell go_user
  | UserRulesCell "go_user_rule list"
  | AccountsCell "go_account list"
  | ClustersCell "go_cluster list"
  | UsersCell "go_user list"
  | AccountListCell go_list
  | ClusterListCell go_list
  | UserListCell go_list

definition int64_cell :: "(int64, cell) cell_kind" where
  "int64_cell = \<lparr>ck_make = Int64Cell,
      ck_dest = (\<lambda>c. case c of Int64Cell x \<Rightarrow> Some x | _ \<Rightarrow> None)\<rparr>"

definition int32_cell :: "(int32, cell) cell_kind" where
  "int32_cell = \<lparr>ck_make = Int32Cell,
      ck_dest = (\<lambda>c. case c of Int32Cell x \<Rightarrow> Some x | _ \<Rightarrow> None)\<rparr>"

definition bool_cell :: "(bool, cell) cell_kind" where
  "bool_cell = \<lparr>ck_make = BoolCell,
      ck_dest = (\<lambda>c. case c of BoolCell x \<Rightarrow> Some x | _ \<Rightarrow> None)\<rparr>"

definition string_cell :: "(string, cell) cell_kind" where
  "string_cell = \<lparr>ck_make = StringCell,
      ck_dest = (\<lambda>c. case c of StringCell x \<Rightarrow> Some x | _ \<Rightarrow> None)\<rparr>"

definition quantity_cell :: "(quantity, cell) cell_kind" where
  "quantity_cell = \<lparr>ck_make = QuantityCell,
      ck_dest = (\<lambda>c. case c of QuantityCell x \<Rightarrow> Some x | _ \<Rightarrow> None)\<rparr>"

definition strings_cell :: "(string list, cell) cell_kind" where
  "strings_cell = \<lparr>ck_make = StringsCell,
      ck_dest = (\<lambda>c. case c of StringsCell x \<Rightarrow> Some x | _ \<Rightarrow> None)\<rparr>"

definition labels_cell :: "(string gomap, cell) cell_kind" where
  "labels_cell = \<lparr>ck_make = LabelsCell,
      ck_dest = (\<lambda>c. case c of LabelsCell x \<Rightarrow> Some x | _ \<Rightarrow> None)\<rparr>"

definition conditions_cell :: "(condition list, cell) cell_kind" where
  "conditions_cell = \<lparr>ck_make = ConditionsCell,
      ck_dest = (\<lambda>c. case c of ConditionsCell x \<Rightarrow> Some x | _ \<Rightarrow> None)\<rparr>"

definition workload_cell :: "(workload_reference, cell) cell_kind" where
  "workload_cell = \<lparr>ck_make = WorkloadCell,
      ck_dest = (\<lambda>c. case c of WorkloadCell x \<Rightarrow> Some x | _ \<Rightarrow> None)\<rparr>"

definition secret_ref_cell :: "(string, cell) cell_kind" where
  "secret_ref_cell = \<lparr>ck_make = SecretRefCell,
      ck_dest = (\<lambda>c. case c of SecretRefCell x \<Rightarrow> Some x | _ \<Rightarrow> None)\<rparr>"

definition local_ref_cell :: "(string, cell) cell_kind" where
  "local_ref_cell = \<lparr>ck_make = LocalRefCell,
      ck_dest = (\<lambda>c. case c of LocalRefCell x \<Rightarrow> Some x | _ \<Rightarrow> None)\<rparr>"

definition namespaced_ref_cell :: "(namespaced_object_reference, cell) cell_kind" where
  "namespaced_ref_cell = \<lparr>ck_make = NamespacedRefCell,
      ck_dest = (\<lambda>c. case c of NamespacedRefCell x \<Rightarrow> Some x | _ \<Rightarrow> None)\<rparr>"

definition allow_responses_cell :: "(go_allow_responses, cell) cell_kind" where
  "allow_responses_cell = \<lparr>ck_make = AllowResponsesCell,
      ck_dest = (\<lambda>c. case c of AllowResponsesCell x \<Rightarrow> Some x | _ \<Rightarrow> None)\<rparr>"

definition jetstream_cell :: "(go_account_jetstream, cell) cell_kind" where
  "jetstream_cell = \<lparr>ck_make = JetstreamCell,
      ck_dest = (\<lambda>c. case c of JetstreamCell x \<Rightarrow> Some x | _ \<Rightarrow> None)\<rparr>"

definition limits_cell :: "(go_account_limits, cell) cell_kind" where
  "limits_cell = \<lparr>ck_make = LimitsCell,
      ck_dest = (\<lambda>c. case c of LimitsCell x \<Rightarrow> Some x | _ \<Rightarrow> None)\<rparr>"

definition permission_rule_cell :: "(go_permission_rule, cell) cell_kind" where
  "permission_rule_cell = \<lparr>ck_make = PermissionRuleCell,
      ck_dest = (\<lambda>c. case c of PermissionRuleCell x \<Rightarrow> Some x | _ \<Rightarrow> None)\<rparr>"

definition permissions_cell :: "(go_permissions, cell) cell_kind" where
  "permissions_cell = \<lparr>ck_make = PermissionsCell,
      ck_dest = (\<lambda>c. case c of PermissionsCell x \<Rightarrow> Some x | _ \<Rightarrow> None)\<rparr>"

definition user_rule_cell :: "(go_user_rule, cell) cell_kind" where
  "user_rule_cell = \<lparr>ck_make = UserRuleCell,
      ck_dest = (\<lambda>c. case c of UserRuleCell x \<Rightarrow> Some x | _ \<Rightarrow> None)\<rparr>"

definition account_spec_cell :: "(go_account_spec, cell) cell_kind" where
  "account_spec_cell = \<lparr>ck_make = AccountSpecCell,
      ck_dest = (\<lambda>c. case c of AccountSpecCell x \<Rightarrow> Some x | _ \<Rightarrow> None)\<rparr>"

definition account_status_cell :: "(go_account_status, cell) cell_kind" where
  "account_status_cell = \<lparr>ck_make = AccountStatusCell,
      ck_dest = (\<lambda>c. case c of AccountStatusCell x \<Rightarrow> Some x | _ \<Rightarrow> None)\<rparr>"

definition account_cell :: "(go_account, cell) cell_kind" where
  "account_cell = \<lparr>ck_make = AccountCell,
      ck_dest = (\<lambda>c. case c of AccountCell x \<Rightarrow> Some x | _ \<Rightarrow> None)\<rparr>"

definition cluster_spec_cell :: "(go_cluster_spec, cell) cell_kind" where
  "cluster_spec_cell = \<lparr>ck_make = ClusterSpecCell,
      ck_dest = (\<lambda>c. case c of ClusterSpecCell x \<Rightarrow> Some x | _ \<Rightarrow> None)\<rparr>"

definition cluster_status_cell :: "(go_cluster_status, cell) cell_kind" where
  "cluster_status_cell = \<lparr>ck_make = ClusterStatusCell,
      ck_dest = (\<lambda>c. case c of ClusterStatusCell x \<Rightarrow> Some x | _ \<Rightarrow> None)\<rparr>"

definition cluster_cell :: "(go_cluster, cell) cell_kind" where
  "cluster_cell = \<lparr>ck_make = ClusterCell,
      ck_dest = (\<lambda>c. case c of ClusterCell x \<Rightarrow> Some x | _ \<Rightarrow> None)\<rparr>"

definition user_spec_cell :: "(go_user_spec, cell) cell_kind" where
  "user_spec_cell = \<lparr>ck_make = UserSpecCell,
      ck_dest = (\<lambda>c. case c of UserSpecCell x \<Rightarrow> Some x | _ \<Rightarrow> None)\<rparr>"

definition user_status_cell :: "(go_user_status, cell) cell_kind" where
  "user_status_cell = \<lparr>ck_make = UserStatusCell,
      ck_dest = (\<lambda>c. case c of UserStatusCell x \<Rightarrow> Some x | _ \<Rightarrow> None)\<rparr>"

definition user_cell :: "(go_user, cell) cell_kind" where
  "user_cell = \<lparr>ck_make = UserCell,
      ck_dest = (\<lambda>c. case c of UserCell x \<Rightarrow> Some x | _ \<Rightarrow> None)\<rparr>"

definition user_rules_cell :: "(go_user_rule list, cell) cell_kind" where
  "user_rules_cell = \<lparr>ck_make = UserRulesCell,
      ck_dest = (\<lambda>c. case c of UserRulesCell x \<Rightarrow> Some x | _ \<Rightarrow> None)\<rparr>"

definition accounts_cell :: "(go_account list, cell) cell_kind" where
  "accounts_cell = \<lparr>ck_make = AccountsCell,
      ck_dest = (\<lambda>c. case c of AccountsCell x \<Rightarrow> Some x | _ \<Rightarrow> None)\<rparr>"

definition clusters_cell :: "(go_cluster list, cell) cell_kind" where
  "clusters_cell = \<lparr>ck_make = ClustersCell,
      ck_dest = (\<lambda>c. case c of ClustersCell x \<Rightarrow> Some x | _ \<Rightarrow> None)\<rparr>"

definition users_cell :: "(go_user list, cell) cell_kind" where
  "users_cell = \<lparr>ck_make = UsersCell,
      ck_dest = (\<lambda>c. case c of UsersCell x \<Rightarrow> Some x | _ \<Rightarrow> None)\<rparr>"

definition account_list_cell :: "(go_list, cell) cell_kind" where
  "account_list_cell = \<lparr>ck_make = AccountListCell,
      ck_dest = (\<lambda>c. case c of AccountListCell x \<Rightarrow> Some x | _ \<Rightarrow> None)\<rparr>"

definition cluster_list_cell :: "(go_list, cell) cell_kind" where
  "cluster_list_cell = \<lparr>ck_make = ClusterListCell,
      ck_dest = (\<lambda>c. case c of ClusterListCell x \<Rightarrow> Some x | _ \<Rightarrow> None)\<rparr>"

definition user_list_cell :: "(go_list, cell) cell_kind" where
  "user_list_cell = \<lparr>ck_make = UserListCell,
      ck_dest = (\<lambda>c. case c of UserListCell x \<Rightarrow> Some x | _ \<Rightarrow> None)\<rparr>"

lemma kinds:
  shows "kind_ok int64_cell"
  and "kind_ok int32_cell"
  and "kind_ok bool_cell"
  and "kind_ok string_cell"
  and "kind_ok quantity_cell"
  and "kind_ok strings_cell"
  and "kind_ok labels_cell"
  and "kind_ok conditions_cell"
  and "kind_ok workload_cell"
  and "kind_ok secret_ref_cell"
  and "kind_ok local_ref_cell"
  and "kind_ok namespaced_ref_cell"
  and "kind_ok allow_responses_cell"
  and "kind_ok jetstream_cell"
  and "kind_ok limits_cell"
  and "kind_ok permission_rule_cell"
  and "kind_ok permissions_cell"
  and "kind_ok user_rule_cell"
  and "kind_ok account_spec_cell"
  and "kind_ok account_status_cell"
  and "kind_ok account_cell"
  and "kind_ok cluster_spec_cell"
  and "kind_ok cluster_status_cell"
  and "kind_ok cluster_cell"
  and "kind_ok user_spec_cell"
  and "kind_ok user_status_cell"
  and "kind_ok user_cell"
  and "kind_ok user_rules_cell"
  and "kind_ok accounts_cell"
  and "kind_ok clusters_cell"
  and "kind_ok users_cell"
  and "kind_ok account_list_cell"
  and "kind_ok cluster_list_cell"
  and "kind_ok user_list_cell"
  by (simp_all add: kind_ok_def int64_cell_def int32_cell_def bool_cell_def string_cell_def quantity_cell_def
      strings_cell_def labels_cell_def conditions_cell_def workload_cell_def secret_ref_cell_def local_ref_cell_def
      namespaced_ref_cell_def allow_responses_cell_def jetstream_cell_def limits_cell_def permission_rule_cell_def
      permissions_cell_def user_rule_cell_def account_spec_cell_def account_status_cell_def account_cell_def
      cluster_spec_cell_def cluster_status_cell_def cluster_cell_def user_spec_cell_def user_status_cell_def
      user_cell_def user_rules_cell_def accounts_cell_def clusters_cell_def users_cell_def account_list_cell_def
      cluster_list_cell_def user_list_cell_def)

section \<open>Leaves\<close>

lemma copies_int64: "deep_copy (viewPtr int64_cell viewValue) (copyPtr int64_cell copyValue)"
  and copies_int32: "deep_copy (viewPtr int32_cell viewValue) (copyPtr int32_cell copyValue)"
  and copies_bool: "deep_copy (viewPtr bool_cell viewValue) (copyPtr bool_cell copyValue)"
  and copies_string: "deep_copy (viewPtr string_cell viewValue) (copyPtr string_cell copyValue)"
  and copies_workload: "deep_copy (viewPtr workload_cell viewValue) (copyPtr workload_cell copyValue)"
  and copies_secret_ref: "deep_copy (viewPtr secret_ref_cell viewValue) (copyPtr secret_ref_cell copyValue)"
  by (intro deep_copy_ptr kinds deep_copy_value)+

lemma copies_strings: "deep_copy (viewSlice strings_cell viewValue) (copyPtr strings_cell (copyList copyValue))"
  by (intro deep_copy_slice kinds deep_copy_value)

lemma copies_labels: "deep_copy (viewPtr labels_cell viewMap) (copyPtr labels_cell copyMap)"
  by (intro deep_copy_ptr kinds deep_copy_map)

lemma copyWith_id: "(\<And>x. f x = x) \<Longrightarrow> copyWith f = copyValue"
  by (intro ext) (simp add: copyWith_def copyValue_def)

lemma library_copyWith:
  assumes "library_copies lib"
  shows "copyWith (lib_quantity lib) = copyValue" "copyWith (lib_condition lib) = copyValue" "copyWith (lib_meta lib) = copyValue"
  using assms by (auto simp: library_copies_def intro!: copyWith_id)

lemma copies_quantity: "library_copies lib \<Longrightarrow>
    deep_copy (viewPtr quantity_cell viewValue) (copyPtr quantity_cell (copyWith (lib_quantity lib)))"
  by (simp add: library_copyWith deep_copy_ptr kinds deep_copy_value)

lemma copies_conditions: "library_copies lib \<Longrightarrow>
    deep_copy (viewSlice conditions_cell viewValue) (copyPtr conditions_cell (copyList (copyWith (lib_condition lib))))"
  by (simp add: library_copyWith deep_copy_slice kinds deep_copy_value)

lemma copies_meta: "library_copies lib \<Longrightarrow> deep_copy viewValue (copyWith (lib_meta lib))"
  by (simp add: library_copyWith deep_copy_value)

text \<open>Running a copy or a view of a struct field by field is running it on the tuple of the fields.\<close>

named_theorems fieldwise

lemmas fieldwise_rules [fieldwise] = copyPair_def viewPair_def
    map_conv_bind_option Option.bind_assoc case_prod_unfold comp_def

section \<open>References: structs without pointers\<close>

definition LocalObjectReference_DeepCopyInto :: "(string, cell) copier" where
  "LocalObjectReference_DeepCopyInto = copyValue"

definition LocalObjectReference_DeepCopy :: "(addr option, cell) copier" where
  "LocalObjectReference_DeepCopy = copyPtr local_ref_cell LocalObjectReference_DeepCopyInto"

definition NamespacedObjectReference_DeepCopyInto :: "(namespaced_object_reference, cell) copier" where
  "NamespacedObjectReference_DeepCopyInto = copyValue"

definition NamespacedObjectReference_DeepCopy :: "(addr option, cell) copier" where
  "NamespacedObjectReference_DeepCopy = copyPtr namespaced_ref_cell NamespacedObjectReference_DeepCopyInto"

definition SecretReference_DeepCopyInto :: "(string, cell) copier" where
  "SecretReference_DeepCopyInto = copyValue"

definition SecretReference_DeepCopy :: "(addr option, cell) copier" where
  "SecretReference_DeepCopy = copyPtr secret_ref_cell SecretReference_DeepCopyInto"

definition WorkloadReference_DeepCopyInto :: "(workload_reference, cell) copier" where
  "WorkloadReference_DeepCopyInto = copyValue"

definition WorkloadReference_DeepCopy :: "(addr option, cell) copier" where
  "WorkloadReference_DeepCopy = copyPtr workload_cell WorkloadReference_DeepCopyInto"

section \<open>\<open>AllowResponsesSpec\<close>\<close>

definition AllowResponsesSpec_DeepCopyInto :: "(go_allow_responses, cell) copier" where
  "AllowResponsesSpec_DeepCopyInto h x =
     do {
       (a, h1) \<leftarrow> copyPtr bool_cell copyValue h (gar_bool_value x);
       (b, h2) \<leftarrow> copyPtr int64_cell copyValue h1 (gar_max_msgs x);
       (c, h3) \<leftarrow> copyPtr string_cell copyValue h2 (gar_ttl x);
       Some (x\<lparr>gar_bool_value := a, gar_max_msgs := b, gar_ttl := c\<rparr>, h3)
     }"

definition AllowResponsesSpec_DeepCopy :: "(addr option, cell) copier" where
  "AllowResponsesSpec_DeepCopy = copyPtr allow_responses_cell AllowResponsesSpec_DeepCopyInto"

definition view_allow_responses :: "(go_allow_responses, cell, allow_responses_spec) view" where
  "view_allow_responses h x =
     do {
       a \<leftarrow> viewPtr bool_cell viewValue h (gar_bool_value x);
       b \<leftarrow> viewPtr int64_cell viewValue h (gar_max_msgs x);
       c \<leftarrow> viewPtr string_cell viewValue h (gar_ttl x);
       Some \<lparr>ars_bool_value = a, ars_max_msgs = b, ars_ttl = c\<rparr>
     }"

lemma copies_AllowResponsesSpec:
  "deep_copy view_allow_responses AllowResponsesSpec_DeepCopyInto"
  by (rule deep_copy_struct [where get = "\<lambda>x. (gar_bool_value x, gar_max_msgs x, gar_ttl x)"
      and put = "\<lambda>x (a, b, c). x\<lparr>gar_bool_value := a, gar_max_msgs := b, gar_ttl := c\<rparr>"
      and rest = "\<lambda>x. ()" and mk = "\<lambda>_ (a, b, c). \<lparr>ars_bool_value = a, ars_max_msgs = b,
          ars_ttl = c\<rparr>",
      OF deep_copy_pair [OF copies_bool deep_copy_pair [OF copies_int64 copies_string]]])
    (simp_all add: AllowResponsesSpec_DeepCopyInto_def view_allow_responses_def fieldwise)

interpretation allow_responses: deep_copy view_allow_responses AllowResponsesSpec_DeepCopyInto
  by (rule copies_AllowResponsesSpec)

lemma copies_AllowResponsesSpec_DeepCopy:
  "deep_copy (viewPtr allow_responses_cell view_allow_responses) AllowResponsesSpec_DeepCopy"
  unfolding AllowResponsesSpec_DeepCopy_def by (intro deep_copy_ptr kinds copies_AllowResponsesSpec)

section \<open>\<open>AccountJetStream\<close>\<close>

definition AccountJetStream_DeepCopyInto :: "copy_library \<Rightarrow> (go_account_jetstream, cell) copier" where
  "AccountJetStream_DeepCopyInto lib h x =
     do {
       (a, h1) \<leftarrow> copyPtr quantity_cell (copyWith (lib_quantity lib)) h (gjs_max_memory x);
       (b, h2) \<leftarrow> copyPtr quantity_cell (copyWith (lib_quantity lib)) h1 (gjs_max_file x);
       (c, h3) \<leftarrow> copyPtr int64_cell copyValue h2 (gjs_max_streams x);
       (d, h4) \<leftarrow> copyPtr int64_cell copyValue h3 (gjs_max_consumers x);
       (e, h5) \<leftarrow> copyPtr bool_cell copyValue h4 (gjs_max_bytes_required x);
       (f, h6) \<leftarrow> copyPtr quantity_cell (copyWith (lib_quantity lib)) h5 (gjs_memory_max_stream_bytes x);
       (g, h7) \<leftarrow> copyPtr quantity_cell (copyWith (lib_quantity lib)) h6 (gjs_disk_max_stream_bytes x);
       (i, h8) \<leftarrow> copyPtr int64_cell copyValue h7 (gjs_max_ack_pending x);
       Some (x\<lparr>gjs_max_memory := a, gjs_max_file := b, gjs_max_streams := c, gjs_max_consumers := d,
           gjs_max_bytes_required := e, gjs_memory_max_stream_bytes := f, gjs_disk_max_stream_bytes := g,
           gjs_max_ack_pending := i\<rparr>, h8)
     }"

definition AccountJetStream_DeepCopy :: "copy_library \<Rightarrow> (addr option, cell) copier" where
  "AccountJetStream_DeepCopy lib = copyPtr jetstream_cell (AccountJetStream_DeepCopyInto lib)"

definition view_account_jetstream :: "(go_account_jetstream, cell, account_jetstream) view" where
  "view_account_jetstream h x =
     do {
       a \<leftarrow> viewPtr quantity_cell viewValue h (gjs_max_memory x);
       b \<leftarrow> viewPtr quantity_cell viewValue h (gjs_max_file x);
       c \<leftarrow> viewPtr int64_cell viewValue h (gjs_max_streams x);
       d \<leftarrow> viewPtr int64_cell viewValue h (gjs_max_consumers x);
       e \<leftarrow> viewPtr bool_cell viewValue h (gjs_max_bytes_required x);
       f \<leftarrow> viewPtr quantity_cell viewValue h (gjs_memory_max_stream_bytes x);
       g \<leftarrow> viewPtr quantity_cell viewValue h (gjs_disk_max_stream_bytes x);
       i \<leftarrow> viewPtr int64_cell viewValue h (gjs_max_ack_pending x);
       Some \<lparr>ajs_max_memory = a, ajs_max_file = b, ajs_max_streams = c, ajs_max_consumers = d,
           ajs_max_bytes_required = e, ajs_memory_max_stream_bytes = f, ajs_disk_max_stream_bytes = g,
           ajs_max_ack_pending = i\<rparr>
     }"

lemma copies_AccountJetStream:
  assumes "library_copies lib"
  shows "deep_copy view_account_jetstream (AccountJetStream_DeepCopyInto lib)"
  by (rule deep_copy_struct [where get = "\<lambda>x. (gjs_max_memory x, gjs_max_file x, gjs_max_streams x,
      gjs_max_consumers x, gjs_max_bytes_required x, gjs_memory_max_stream_bytes x, gjs_disk_max_stream_bytes x,
      gjs_max_ack_pending x)"
      and put = "\<lambda>x (a, b, c, d, e, f, g, i). x\<lparr>gjs_max_memory := a, gjs_max_file := b,
          gjs_max_streams := c, gjs_max_consumers := d, gjs_max_bytes_required := e,
          gjs_memory_max_stream_bytes := f, gjs_disk_max_stream_bytes := g, gjs_max_ack_pending := i\<rparr>"
      and rest = "\<lambda>x. ()" and mk = "\<lambda>_ (a, b, c, d, e, f, g, i). \<lparr>ajs_max_memory = a,
          ajs_max_file = b, ajs_max_streams = c, ajs_max_consumers = d, ajs_max_bytes_required = e,
          ajs_memory_max_stream_bytes = f, ajs_disk_max_stream_bytes = g, ajs_max_ack_pending = i\<rparr>",
      OF deep_copy_pair [OF copies_quantity [OF assms] deep_copy_pair [OF copies_quantity [OF assms]
          deep_copy_pair [OF copies_int64 deep_copy_pair [OF copies_int64
          deep_copy_pair [OF copies_bool deep_copy_pair [OF copies_quantity [OF assms]
          deep_copy_pair [OF copies_quantity [OF assms] copies_int64]]]]]]]])
    (simp_all add: AccountJetStream_DeepCopyInto_def view_account_jetstream_def fieldwise)

lemma pointer_AccountJetStream:
  "library_copies lib \<Longrightarrow> deep_copy (viewPtr jetstream_cell view_account_jetstream)
      (copyPtr jetstream_cell (AccountJetStream_DeepCopyInto lib))"
  by (intro deep_copy_ptr kinds copies_AccountJetStream)

section \<open>\<open>AccountLimits\<close>\<close>

definition AccountLimits_DeepCopyInto :: "copy_library \<Rightarrow> (go_account_limits, cell) copier" where
  "AccountLimits_DeepCopyInto lib h x =
     do {
       (a, h1) \<leftarrow> copyPtr int64_cell copyValue h (gli_max_connections x);
       (b, h2) \<leftarrow> copyPtr int64_cell copyValue h1 (gli_max_subscriptions x);
       (c, h3) \<leftarrow> copyPtr quantity_cell (copyWith (lib_quantity lib)) h2 (gli_max_payload x);
       (d, h4) \<leftarrow> copyPtr int64_cell copyValue h3 (gli_max_leafnodes x);
       Some (x\<lparr>gli_max_connections := a, gli_max_subscriptions := b, gli_max_payload := c,
           gli_max_leafnodes := d\<rparr>, h4)
     }"

definition AccountLimits_DeepCopy :: "copy_library \<Rightarrow> (addr option, cell) copier" where
  "AccountLimits_DeepCopy lib = copyPtr limits_cell (AccountLimits_DeepCopyInto lib)"

definition view_account_limits :: "(go_account_limits, cell, account_limits) view" where
  "view_account_limits h x =
     do {
       a \<leftarrow> viewPtr int64_cell viewValue h (gli_max_connections x);
       b \<leftarrow> viewPtr int64_cell viewValue h (gli_max_subscriptions x);
       c \<leftarrow> viewPtr quantity_cell viewValue h (gli_max_payload x);
       d \<leftarrow> viewPtr int64_cell viewValue h (gli_max_leafnodes x);
       Some \<lparr>al_max_connections = a, al_max_subscriptions = b, al_max_payload = c, al_max_leafnodes = d\<rparr>
     }"

lemma copies_AccountLimits:
  assumes "library_copies lib"
  shows "deep_copy view_account_limits (AccountLimits_DeepCopyInto lib)"
  by (rule deep_copy_struct [where get = "\<lambda>x. (gli_max_connections x, gli_max_subscriptions x,
      gli_max_payload x, gli_max_leafnodes x)"
      and put = "\<lambda>x (a, b, c, d). x\<lparr>gli_max_connections := a, gli_max_subscriptions := b,
          gli_max_payload := c, gli_max_leafnodes := d\<rparr>"
      and rest = "\<lambda>x. ()" and mk = "\<lambda>_ (a, b, c, d). \<lparr>al_max_connections = a,
          al_max_subscriptions = b, al_max_payload = c, al_max_leafnodes = d\<rparr>",
      OF deep_copy_pair [OF copies_int64 deep_copy_pair [OF copies_int64
          deep_copy_pair [OF copies_quantity [OF assms] copies_int64]]]])
    (simp_all add: AccountLimits_DeepCopyInto_def view_account_limits_def fieldwise)

lemma pointer_AccountLimits:
  "library_copies lib \<Longrightarrow> deep_copy (viewPtr limits_cell view_account_limits)
      (copyPtr limits_cell (AccountLimits_DeepCopyInto lib))"
  by (intro deep_copy_ptr kinds copies_AccountLimits)

section \<open>\<open>UserRule\<close>\<close>

definition UserRule_DeepCopyInto :: "(go_user_rule, cell) copier" where
  "UserRule_DeepCopyInto h x =
     do {
       (a, h1) \<leftarrow> copyPtr string_cell copyValue h (gur_namespace_regex x);
       (b, h2) \<leftarrow> copyPtr labels_cell copyMap h1 (gur_namespace_labels x);
       (c, h3) \<leftarrow> copyPtr bool_cell copyValue h2 (gur_same_namespace x);
       Some (x\<lparr>gur_namespace_regex := a, gur_namespace_labels := b, gur_same_namespace := c\<rparr>, h3)
     }"

definition UserRule_DeepCopy :: "(addr option, cell) copier" where
  "UserRule_DeepCopy = copyPtr user_rule_cell UserRule_DeepCopyInto"

definition view_user_rule :: "(go_user_rule, cell, user_rule) view" where
  "view_user_rule h x =
     do {
       a \<leftarrow> viewPtr string_cell viewValue h (gur_namespace_regex x);
       b \<leftarrow> viewPtr labels_cell viewMap h (gur_namespace_labels x);
       c \<leftarrow> viewPtr bool_cell viewValue h (gur_same_namespace x);
       Some \<lparr>ur_action = gur_action x, ur_namespace_regex = a, ur_namespace_labels = b,
           ur_same_namespace = c\<rparr>
     }"

lemma copies_UserRule:
  "deep_copy view_user_rule UserRule_DeepCopyInto"
  by (rule deep_copy_struct [where get = "\<lambda>x. (gur_namespace_regex x, gur_namespace_labels x,
      gur_same_namespace x)"
      and put = "\<lambda>x (a, b, c). x\<lparr>gur_namespace_regex := a, gur_namespace_labels := b,
          gur_same_namespace := c\<rparr>"
      and rest = "\<lambda>x. gur_action x" and mk = "\<lambda>r0 (a, b, c). \<lparr>ur_action = r0,
          ur_namespace_regex = a, ur_namespace_labels = b, ur_same_namespace = c\<rparr>",
      OF deep_copy_pair [OF copies_string deep_copy_pair [OF copies_labels copies_bool]]])
    (simp_all add: UserRule_DeepCopyInto_def view_user_rule_def fieldwise)

lemma slice_UserRule:
  "deep_copy (viewSlice user_rules_cell view_user_rule) (copyPtr user_rules_cell (copyList UserRule_DeepCopyInto))"
  by (intro deep_copy_slice kinds copies_UserRule)

section \<open>\<open>NatsAccountSpec\<close>\<close>

definition NatsAccountSpec_DeepCopyInto :: "copy_library \<Rightarrow> (go_account_spec, cell) copier" where
  "NatsAccountSpec_DeepCopyInto lib h x =
     do {
       (a, h1) \<leftarrow> copyPtr user_rules_cell (copyList UserRule_DeepCopyInto) h (gas_user_rules x);
       (b, h2) \<leftarrow> copyPtr jetstream_cell (AccountJetStream_DeepCopyInto lib) h1 (gas_jetstream x);
       (c, h3) \<leftarrow> copyPtr limits_cell (AccountLimits_DeepCopyInto lib) h2 (gas_limits x);
       Some (x\<lparr>gas_user_rules := a, gas_jetstream := b, gas_limits := c\<rparr>, h3)
     }"

definition NatsAccountSpec_DeepCopy :: "copy_library \<Rightarrow> (addr option, cell) copier" where
  "NatsAccountSpec_DeepCopy lib = copyPtr account_spec_cell (NatsAccountSpec_DeepCopyInto lib)"

definition view_account_spec :: "(go_account_spec, cell, nats_account_spec) view" where
  "view_account_spec h x =
     do {
       a \<leftarrow> viewSlice user_rules_cell view_user_rule h (gas_user_rules x);
       b \<leftarrow> viewPtr jetstream_cell view_account_jetstream h (gas_jetstream x);
       c \<leftarrow> viewPtr limits_cell view_account_limits h (gas_limits x);
       Some \<lparr>as_cluster_ref = gas_cluster_ref x, as_user_rules = a, as_jetstream = b, as_limits = c,
           as_system_account = gas_system_account x\<rparr>
     }"

lemma copies_NatsAccountSpec:
  assumes "library_copies lib"
  shows "deep_copy view_account_spec (NatsAccountSpec_DeepCopyInto lib)"
  by (rule deep_copy_struct [where get = "\<lambda>x. (gas_user_rules x, gas_jetstream x, gas_limits x)"
      and put = "\<lambda>x (a, b, c). x\<lparr>gas_user_rules := a, gas_jetstream := b, gas_limits := c\<rparr>"
      and rest = "\<lambda>x. (gas_cluster_ref x, gas_system_account x)" and mk = "\<lambda>(r0, r1) (a, b,
          c). \<lparr>as_cluster_ref = r0, as_user_rules = a, as_jetstream = b, as_limits = c,
          as_system_account = r1\<rparr>",
      OF deep_copy_pair [OF slice_UserRule
          deep_copy_pair [OF pointer_AccountJetStream [OF assms] pointer_AccountLimits [OF assms]]]])
    (simp_all add: NatsAccountSpec_DeepCopyInto_def view_account_spec_def fieldwise)

section \<open>\<open>NatsAccountStatus\<close>\<close>

definition NatsAccountStatus_DeepCopyInto :: "copy_library \<Rightarrow> (go_account_status, cell) copier" where
  "NatsAccountStatus_DeepCopyInto lib h x =
     do {
       (a, h1) \<leftarrow> copyPtr conditions_cell (copyList (copyWith (lib_condition lib))) h (gast_conditions x);
       Some (x\<lparr>gast_conditions := a\<rparr>, h1)
     }"

definition NatsAccountStatus_DeepCopy :: "copy_library \<Rightarrow> (addr option, cell) copier" where
  "NatsAccountStatus_DeepCopy lib = copyPtr account_status_cell (NatsAccountStatus_DeepCopyInto lib)"

definition view_account_status :: "(go_account_status, cell, nats_account_status) view" where
  "view_account_status h x =
     do {
       a \<leftarrow> viewSlice conditions_cell viewValue h (gast_conditions x);
       Some \<lparr>ast_conditions = a, ast_user_count = gast_user_count x,
           ast_debug_command = gast_debug_command x\<rparr>
     }"

lemma copies_NatsAccountStatus:
  assumes "library_copies lib"
  shows "deep_copy view_account_status (NatsAccountStatus_DeepCopyInto lib)"
  by (rule deep_copy_struct [where get = "\<lambda>x. gast_conditions x"
      and put = "\<lambda>x a. x\<lparr>gast_conditions := a\<rparr>"
      and rest = "\<lambda>x. (gast_user_count x, gast_debug_command x)" and mk = "\<lambda>(r0,
          r1) a. \<lparr>ast_conditions = a, ast_user_count = r0, ast_debug_command = r1\<rparr>",
      OF copies_conditions [OF assms]])
    (simp_all add: NatsAccountStatus_DeepCopyInto_def view_account_status_def fieldwise)

section \<open>\<open>NatsAccount\<close>\<close>

definition NatsAccount_DeepCopyInto :: "copy_library \<Rightarrow> (go_account, cell) copier" where
  "NatsAccount_DeepCopyInto lib h x =
     do {
       (a, h1) \<leftarrow> copyWith (lib_meta lib) h (gac_meta x);
       (b, h2) \<leftarrow> NatsAccountSpec_DeepCopyInto lib h1 (gac_spec x);
       (c, h3) \<leftarrow> NatsAccountStatus_DeepCopyInto lib h2 (gac_status x);
       Some (x\<lparr>gac_meta := a, gac_spec := b, gac_status := c\<rparr>, h3)
     }"

definition NatsAccount_DeepCopy :: "copy_library \<Rightarrow> (addr option, cell) copier" where
  "NatsAccount_DeepCopy lib = copyPtr account_cell (NatsAccount_DeepCopyInto lib)"

definition view_account :: "(go_account, cell, nats_account) view" where
  "view_account h x =
     do {
       a \<leftarrow> viewValue h (gac_meta x);
       b \<leftarrow> view_account_spec h (gac_spec x);
       c \<leftarrow> view_account_status h (gac_status x);
       Some \<lparr>ac_meta = a, ac_spec = b, ac_status = c\<rparr>
     }"

lemma copies_NatsAccount:
  assumes "library_copies lib"
  shows "deep_copy view_account (NatsAccount_DeepCopyInto lib)"
  by (rule deep_copy_struct [where get = "\<lambda>x. (gac_meta x, gac_spec x, gac_status x)"
      and put = "\<lambda>x (a, b, c). x\<lparr>gac_meta := a, gac_spec := b, gac_status := c\<rparr>"
      and rest = "\<lambda>x. ()" and mk = "\<lambda>_ (a, b, c). \<lparr>ac_meta = a, ac_spec = b,
          ac_status = c\<rparr>",
      OF deep_copy_pair [OF copies_meta [OF assms]
          deep_copy_pair [OF copies_NatsAccountSpec [OF assms] copies_NatsAccountStatus [OF assms]]]])
    (simp_all add: NatsAccount_DeepCopyInto_def view_account_def fieldwise)

text \<open>The value behind the interface; nil becomes the nil interface.\<close>

definition NatsAccount_DeepCopyObject :: "copy_library \<Rightarrow> (addr option, cell) copier" where
  "NatsAccount_DeepCopyObject lib h p =
     do { (c, h1) \<leftarrow> NatsAccount_DeepCopy lib h p;
       Some (case c of Some a \<Rightarrow> Some a | None \<Rightarrow> None, h1) }"

definition NatsAccountList_DeepCopyInto :: "copy_library \<Rightarrow> (go_list, cell) copier" where
  "NatsAccountList_DeepCopyInto lib h x =
     do {
       (a, h1) \<leftarrow> copyPtr accounts_cell (copyList (NatsAccount_DeepCopyInto lib)) h (gl_items x);
       Some (x\<lparr>gl_items := a\<rparr>, h1)
     }"

definition NatsAccountList_DeepCopy :: "copy_library \<Rightarrow> (addr option, cell) copier" where
  "NatsAccountList_DeepCopy lib = copyPtr account_list_cell (NatsAccountList_DeepCopyInto lib)"

definition NatsAccountList_DeepCopyObject :: "copy_library \<Rightarrow> (addr option, cell) copier" where
  "NatsAccountList_DeepCopyObject lib h p =
     do { (c, h1) \<leftarrow> NatsAccountList_DeepCopy lib h p;
       Some (case c of Some a \<Rightarrow> Some a | None \<Rightarrow> None, h1) }"

definition view_account_list :: "(go_list, cell, nats_account list) view" where
  "view_account_list h x = viewSlice accounts_cell view_account h (gl_items x)"

lemma copies_NatsAccountList:
  assumes "library_copies lib"
  shows "deep_copy view_account_list (NatsAccountList_DeepCopyInto lib)"
proof (rule deep_copy_struct [where get = gl_items and put = "\<lambda>x a. x\<lparr>gl_items := a\<rparr>"
    and rest = "\<lambda>_. ()" and mk = "\<lambda>_ vs. vs"])
  show "deep_copy (viewSlice accounts_cell view_account) (copyPtr accounts_cell (copyList (NatsAccount_DeepCopyInto lib)))"
    by (intro deep_copy_slice kinds copies_NatsAccount [OF assms])
qed (simp_all add: NatsAccountList_DeepCopyInto_def view_account_list_def fieldwise)

section \<open>\<open>NatsClusterSpec\<close>\<close>

definition NatsClusterSpec_DeepCopyInto :: "(go_cluster_spec, cell) copier" where
  "NatsClusterSpec_DeepCopyInto h x =
     do {
       (a, h1) \<leftarrow> copyPtr workload_cell copyValue h (gcs_server_ref x);
       (b, h2) \<leftarrow> copyPtr int32_cell copyValue h1 (gcs_monitoring_port x);
       (c, h3) \<leftarrow> copyPtr strings_cell (copyList copyValue) h2 (gcs_external_urls x);
       Some (x\<lparr>gcs_server_ref := a, gcs_monitoring_port := b, gcs_external_urls := c\<rparr>, h3)
     }"

definition NatsClusterSpec_DeepCopy :: "(addr option, cell) copier" where
  "NatsClusterSpec_DeepCopy = copyPtr cluster_spec_cell NatsClusterSpec_DeepCopyInto"

definition view_cluster_spec :: "(go_cluster_spec, cell, nats_cluster_spec) view" where
  "view_cluster_spec h x =
     do {
       a \<leftarrow> viewPtr workload_cell viewValue h (gcs_server_ref x);
       b \<leftarrow> viewPtr int32_cell viewValue h (gcs_monitoring_port x);
       c \<leftarrow> viewSlice strings_cell viewValue h (gcs_external_urls x);
       Some \<lparr>cs_server_ref = a, cs_monitoring_port = b, cs_external_urls = c\<rparr>
     }"

lemma copies_NatsClusterSpec:
  "deep_copy view_cluster_spec NatsClusterSpec_DeepCopyInto"
  by (rule deep_copy_struct [where get = "\<lambda>x. (gcs_server_ref x, gcs_monitoring_port x, gcs_external_urls x)"
      and put = "\<lambda>x (a, b, c). x\<lparr>gcs_server_ref := a, gcs_monitoring_port := b,
          gcs_external_urls := c\<rparr>"
      and rest = "\<lambda>x. ()" and mk = "\<lambda>_ (a, b, c). \<lparr>cs_server_ref = a, cs_monitoring_port = b,
          cs_external_urls = c\<rparr>",
      OF deep_copy_pair [OF copies_workload deep_copy_pair [OF copies_int32 copies_strings]]])
    (simp_all add: NatsClusterSpec_DeepCopyInto_def view_cluster_spec_def fieldwise)

section \<open>\<open>NatsClusterStatus\<close>\<close>

definition NatsClusterStatus_DeepCopyInto :: "copy_library \<Rightarrow> (go_cluster_status, cell) copier" where
  "NatsClusterStatus_DeepCopyInto lib h x =
     do {
       (a, h1) \<leftarrow> copyPtr conditions_cell (copyList (copyWith (lib_condition lib))) h (gcst_conditions x);
       Some (x\<lparr>gcst_conditions := a\<rparr>, h1)
     }"

definition NatsClusterStatus_DeepCopy :: "copy_library \<Rightarrow> (addr option, cell) copier" where
  "NatsClusterStatus_DeepCopy lib = copyPtr cluster_status_cell (NatsClusterStatus_DeepCopyInto lib)"

definition view_cluster_status :: "(go_cluster_status, cell, nats_cluster_status) view" where
  "view_cluster_status h x =
     do {
       a \<leftarrow> viewSlice conditions_cell viewValue h (gcst_conditions x);
       Some \<lparr>cst_conditions = a, cst_account_count = gcst_account_count x,
           cst_user_count = gcst_user_count x, cst_last_config_hash = gcst_last_config_hash x\<rparr>
     }"

lemma copies_NatsClusterStatus:
  assumes "library_copies lib"
  shows "deep_copy view_cluster_status (NatsClusterStatus_DeepCopyInto lib)"
  by (rule deep_copy_struct [where get = "\<lambda>x. gcst_conditions x"
      and put = "\<lambda>x a. x\<lparr>gcst_conditions := a\<rparr>"
      and rest = "\<lambda>x. (gcst_account_count x, gcst_user_count x,
          gcst_last_config_hash x)" and mk = "\<lambda>(r0, r1, r2) a. \<lparr>cst_conditions = a,
          cst_account_count = r0, cst_user_count = r1, cst_last_config_hash = r2\<rparr>",
      OF copies_conditions [OF assms]])
    (simp_all add: NatsClusterStatus_DeepCopyInto_def view_cluster_status_def fieldwise)

section \<open>\<open>NatsCluster\<close>\<close>

definition NatsCluster_DeepCopyInto :: "copy_library \<Rightarrow> (go_cluster, cell) copier" where
  "NatsCluster_DeepCopyInto lib h x =
     do {
       (a, h1) \<leftarrow> copyWith (lib_meta lib) h (gcl_meta x);
       (b, h2) \<leftarrow> NatsClusterSpec_DeepCopyInto h1 (gcl_spec x);
       (c, h3) \<leftarrow> NatsClusterStatus_DeepCopyInto lib h2 (gcl_status x);
       Some (x\<lparr>gcl_meta := a, gcl_spec := b, gcl_status := c\<rparr>, h3)
     }"

definition NatsCluster_DeepCopy :: "copy_library \<Rightarrow> (addr option, cell) copier" where
  "NatsCluster_DeepCopy lib = copyPtr cluster_cell (NatsCluster_DeepCopyInto lib)"

definition view_cluster :: "(go_cluster, cell, nats_cluster) view" where
  "view_cluster h x =
     do {
       a \<leftarrow> viewValue h (gcl_meta x);
       b \<leftarrow> view_cluster_spec h (gcl_spec x);
       c \<leftarrow> view_cluster_status h (gcl_status x);
       Some \<lparr>cl_meta = a, cl_spec = b, cl_status = c\<rparr>
     }"

lemma copies_NatsCluster:
  assumes "library_copies lib"
  shows "deep_copy view_cluster (NatsCluster_DeepCopyInto lib)"
  by (rule deep_copy_struct [where get = "\<lambda>x. (gcl_meta x, gcl_spec x, gcl_status x)"
      and put = "\<lambda>x (a, b, c). x\<lparr>gcl_meta := a, gcl_spec := b, gcl_status := c\<rparr>"
      and rest = "\<lambda>x. ()" and mk = "\<lambda>_ (a, b, c). \<lparr>cl_meta = a, cl_spec = b,
          cl_status = c\<rparr>",
      OF deep_copy_pair [OF copies_meta [OF assms]
          deep_copy_pair [OF copies_NatsClusterSpec copies_NatsClusterStatus [OF assms]]]])
    (simp_all add: NatsCluster_DeepCopyInto_def view_cluster_def fieldwise)

text \<open>The value behind the interface; nil becomes the nil interface.\<close>

definition NatsCluster_DeepCopyObject :: "copy_library \<Rightarrow> (addr option, cell) copier" where
  "NatsCluster_DeepCopyObject lib h p =
     do { (c, h1) \<leftarrow> NatsCluster_DeepCopy lib h p;
       Some (case c of Some a \<Rightarrow> Some a | None \<Rightarrow> None, h1) }"

definition NatsClusterList_DeepCopyInto :: "copy_library \<Rightarrow> (go_list, cell) copier" where
  "NatsClusterList_DeepCopyInto lib h x =
     do {
       (a, h1) \<leftarrow> copyPtr clusters_cell (copyList (NatsCluster_DeepCopyInto lib)) h (gl_items x);
       Some (x\<lparr>gl_items := a\<rparr>, h1)
     }"

definition NatsClusterList_DeepCopy :: "copy_library \<Rightarrow> (addr option, cell) copier" where
  "NatsClusterList_DeepCopy lib = copyPtr cluster_list_cell (NatsClusterList_DeepCopyInto lib)"

definition NatsClusterList_DeepCopyObject :: "copy_library \<Rightarrow> (addr option, cell) copier" where
  "NatsClusterList_DeepCopyObject lib h p =
     do { (c, h1) \<leftarrow> NatsClusterList_DeepCopy lib h p;
       Some (case c of Some a \<Rightarrow> Some a | None \<Rightarrow> None, h1) }"

definition view_cluster_list :: "(go_list, cell, nats_cluster list) view" where
  "view_cluster_list h x = viewSlice clusters_cell view_cluster h (gl_items x)"

lemma copies_NatsClusterList:
  assumes "library_copies lib"
  shows "deep_copy view_cluster_list (NatsClusterList_DeepCopyInto lib)"
proof (rule deep_copy_struct [where get = gl_items and put = "\<lambda>x a. x\<lparr>gl_items := a\<rparr>"
    and rest = "\<lambda>_. ()" and mk = "\<lambda>_ vs. vs"])
  show "deep_copy (viewSlice clusters_cell view_cluster) (copyPtr clusters_cell (copyList (NatsCluster_DeepCopyInto lib)))"
    by (intro deep_copy_slice kinds copies_NatsCluster [OF assms])
qed (simp_all add: NatsClusterList_DeepCopyInto_def view_cluster_list_def fieldwise)

section \<open>\<open>PermissionRule\<close>\<close>

definition PermissionRule_DeepCopyInto :: "(go_permission_rule, cell) copier" where
  "PermissionRule_DeepCopyInto h x =
     do {
       (a, h1) \<leftarrow> copyPtr strings_cell (copyList copyValue) h (gpr_allow x);
       (b, h2) \<leftarrow> copyPtr strings_cell (copyList copyValue) h1 (gpr_deny x);
       Some (x\<lparr>gpr_allow := a, gpr_deny := b\<rparr>, h2)
     }"

definition PermissionRule_DeepCopy :: "(addr option, cell) copier" where
  "PermissionRule_DeepCopy = copyPtr permission_rule_cell PermissionRule_DeepCopyInto"

definition view_permission_rule :: "(go_permission_rule, cell, permission_rule) view" where
  "view_permission_rule h x =
     do {
       a \<leftarrow> viewSlice strings_cell viewValue h (gpr_allow x);
       b \<leftarrow> viewSlice strings_cell viewValue h (gpr_deny x);
       Some \<lparr>pr_allow = a, pr_deny = b\<rparr>
     }"

lemma copies_PermissionRule:
  "deep_copy view_permission_rule PermissionRule_DeepCopyInto"
  by (rule deep_copy_struct [where get = "\<lambda>x. (gpr_allow x, gpr_deny x)"
      and put = "\<lambda>x (a, b). x\<lparr>gpr_allow := a, gpr_deny := b\<rparr>"
      and rest = "\<lambda>x. ()" and mk = "\<lambda>_ (a, b). \<lparr>pr_allow = a, pr_deny = b\<rparr>",
      OF deep_copy_pair [OF copies_strings copies_strings]])
    (simp_all add: PermissionRule_DeepCopyInto_def view_permission_rule_def fieldwise)

lemma pointer_PermissionRule:
  "deep_copy (viewPtr permission_rule_cell view_permission_rule)
      (copyPtr permission_rule_cell PermissionRule_DeepCopyInto)"
  by (intro deep_copy_ptr kinds copies_PermissionRule)

section \<open>\<open>Permissions\<close>\<close>

definition Permissions_DeepCopyInto :: "(go_permissions, cell) copier" where
  "Permissions_DeepCopyInto h x =
     do {
       (a, h1) \<leftarrow> copyPtr permission_rule_cell PermissionRule_DeepCopyInto h (gpm_publish x);
       (b, h2) \<leftarrow> copyPtr permission_rule_cell PermissionRule_DeepCopyInto h1 (gpm_subscribe x);
       (c, h3) \<leftarrow> AllowResponsesSpec_DeepCopy h2 (gpm_allow_responses x);
       Some (x\<lparr>gpm_publish := a, gpm_subscribe := b, gpm_allow_responses := c\<rparr>, h3)
     }"

definition Permissions_DeepCopy :: "(addr option, cell) copier" where
  "Permissions_DeepCopy = copyPtr permissions_cell Permissions_DeepCopyInto"

definition view_permissions :: "(go_permissions, cell, permissions) view" where
  "view_permissions h x =
     do {
       a \<leftarrow> viewPtr permission_rule_cell view_permission_rule h (gpm_publish x);
       b \<leftarrow> viewPtr permission_rule_cell view_permission_rule h (gpm_subscribe x);
       c \<leftarrow> viewPtr allow_responses_cell view_allow_responses h (gpm_allow_responses x);
       Some \<lparr>pm_publish = a, pm_subscribe = b, pm_allow_responses = c\<rparr>
     }"

lemma copies_Permissions:
  "deep_copy view_permissions Permissions_DeepCopyInto"
  by (rule deep_copy_struct [where get = "\<lambda>x. (gpm_publish x, gpm_subscribe x, gpm_allow_responses x)"
      and put = "\<lambda>x (a, b, c). x\<lparr>gpm_publish := a, gpm_subscribe := b,
          gpm_allow_responses := c\<rparr>"
      and rest = "\<lambda>x. ()" and mk = "\<lambda>_ (a, b, c). \<lparr>pm_publish = a, pm_subscribe = b,
          pm_allow_responses = c\<rparr>",
      OF deep_copy_pair [OF pointer_PermissionRule
          deep_copy_pair [OF pointer_PermissionRule copies_AllowResponsesSpec_DeepCopy]]])
    (simp_all add: Permissions_DeepCopyInto_def view_permissions_def fieldwise)

lemma pointer_Permissions:
  "deep_copy (viewPtr permissions_cell view_permissions) (copyPtr permissions_cell Permissions_DeepCopyInto)"
  by (intro deep_copy_ptr kinds copies_Permissions)

section \<open>\<open>NatsUserSpec\<close>\<close>

definition NatsUserSpec_DeepCopyInto :: "(go_user_spec, cell) copier" where
  "NatsUserSpec_DeepCopyInto h x =
     do {
       (a, h1) \<leftarrow> copyPtr string_cell copyValue h (gus_inbox_prefix x);
       (b, h2) \<leftarrow> copyPtr permissions_cell Permissions_DeepCopyInto h1 (gus_permissions x);
       Some (x\<lparr>gus_inbox_prefix := a, gus_permissions := b\<rparr>, h2)
     }"

definition NatsUserSpec_DeepCopy :: "(addr option, cell) copier" where
  "NatsUserSpec_DeepCopy = copyPtr user_spec_cell NatsUserSpec_DeepCopyInto"

definition view_user_spec :: "(go_user_spec, cell, nats_user_spec) view" where
  "view_user_spec h x =
     do {
       a \<leftarrow> viewPtr string_cell viewValue h (gus_inbox_prefix x);
       b \<leftarrow> viewPtr permissions_cell view_permissions h (gus_permissions x);
       Some \<lparr>us_account_ref = gus_account_ref x, us_inbox_prefix = a,
           us_insecure_shared_inbox_prefix = gus_insecure_shared_inbox_prefix x, us_permissions = b\<rparr>
     }"

lemma copies_NatsUserSpec:
  "deep_copy view_user_spec NatsUserSpec_DeepCopyInto"
  by (rule deep_copy_struct [where get = "\<lambda>x. (gus_inbox_prefix x, gus_permissions x)"
      and put = "\<lambda>x (a, b). x\<lparr>gus_inbox_prefix := a, gus_permissions := b\<rparr>"
      and rest = "\<lambda>x. (gus_account_ref x, gus_insecure_shared_inbox_prefix x)" and mk = "\<lambda>(r0,
          r1) (a, b). \<lparr>us_account_ref = r0, us_inbox_prefix = a, us_insecure_shared_inbox_prefix = r1,
          us_permissions = b\<rparr>",
      OF deep_copy_pair [OF copies_string pointer_Permissions]])
    (simp_all add: NatsUserSpec_DeepCopyInto_def view_user_spec_def fieldwise)

section \<open>\<open>NatsUserStatus\<close>\<close>

definition NatsUserStatus_DeepCopyInto :: "copy_library \<Rightarrow> (go_user_status, cell) copier" where
  "NatsUserStatus_DeepCopyInto lib h x =
     do {
       (a, h1) \<leftarrow> copyPtr conditions_cell (copyList (copyWith (lib_condition lib))) h (gust_conditions x);
       (b, h2) \<leftarrow> copyPtr secret_ref_cell copyValue h1 (gust_secret_ref x);
       (c, h3) \<leftarrow> copyPtr strings_cell (copyList copyValue) h2 (gust_connection_urls x);
       Some (x\<lparr>gust_conditions := a, gust_secret_ref := b, gust_connection_urls := c\<rparr>, h3)
     }"

definition NatsUserStatus_DeepCopy :: "copy_library \<Rightarrow> (addr option, cell) copier" where
  "NatsUserStatus_DeepCopy lib = copyPtr user_status_cell (NatsUserStatus_DeepCopyInto lib)"

definition view_user_status :: "(go_user_status, cell, nats_user_status) view" where
  "view_user_status h x =
     do {
       a \<leftarrow> viewSlice conditions_cell viewValue h (gust_conditions x);
       b \<leftarrow> viewPtr secret_ref_cell viewValue h (gust_secret_ref x);
       c \<leftarrow> viewSlice strings_cell viewValue h (gust_connection_urls x);
       Some \<lparr>ust_conditions = a, ust_nkey_public_key = gust_nkey_public_key x, ust_secret_ref = b,
           ust_debug_command = gust_debug_command x, ust_connection_urls = c,
           ust_is_system_account = gust_is_system_account x\<rparr>
     }"

lemma copies_NatsUserStatus:
  assumes "library_copies lib"
  shows "deep_copy view_user_status (NatsUserStatus_DeepCopyInto lib)"
  by (rule deep_copy_struct [where get = "\<lambda>x. (gust_conditions x, gust_secret_ref x, gust_connection_urls x)"
      and put = "\<lambda>x (a, b, c). x\<lparr>gust_conditions := a, gust_secret_ref := b,
          gust_connection_urls := c\<rparr>"
      and rest = "\<lambda>x. (gust_nkey_public_key x, gust_debug_command x,
          gust_is_system_account x)" and mk = "\<lambda>(r0, r1, r2) (a, b, c). \<lparr>ust_conditions = a,
          ust_nkey_public_key = r0, ust_secret_ref = b, ust_debug_command = r1, ust_connection_urls = c,
          ust_is_system_account = r2\<rparr>",
      OF deep_copy_pair [OF copies_conditions [OF assms] deep_copy_pair [OF copies_secret_ref copies_strings]]])
    (simp_all add: NatsUserStatus_DeepCopyInto_def view_user_status_def fieldwise)

section \<open>\<open>NatsUser\<close>\<close>

definition NatsUser_DeepCopyInto :: "copy_library \<Rightarrow> (go_user, cell) copier" where
  "NatsUser_DeepCopyInto lib h x =
     do {
       (a, h1) \<leftarrow> copyWith (lib_meta lib) h (gu_meta x);
       (b, h2) \<leftarrow> NatsUserSpec_DeepCopyInto h1 (gu_spec x);
       (c, h3) \<leftarrow> NatsUserStatus_DeepCopyInto lib h2 (gu_status x);
       Some (x\<lparr>gu_meta := a, gu_spec := b, gu_status := c\<rparr>, h3)
     }"

definition NatsUser_DeepCopy :: "copy_library \<Rightarrow> (addr option, cell) copier" where
  "NatsUser_DeepCopy lib = copyPtr user_cell (NatsUser_DeepCopyInto lib)"

definition view_user :: "(go_user, cell, nats_user) view" where
  "view_user h x =
     do {
       a \<leftarrow> viewValue h (gu_meta x);
       b \<leftarrow> view_user_spec h (gu_spec x);
       c \<leftarrow> view_user_status h (gu_status x);
       Some \<lparr>u_meta = a, u_spec = b, u_status = c\<rparr>
     }"

lemma copies_NatsUser:
  assumes "library_copies lib"
  shows "deep_copy view_user (NatsUser_DeepCopyInto lib)"
  by (rule deep_copy_struct [where get = "\<lambda>x. (gu_meta x, gu_spec x, gu_status x)"
      and put = "\<lambda>x (a, b, c). x\<lparr>gu_meta := a, gu_spec := b, gu_status := c\<rparr>"
      and rest = "\<lambda>x. ()" and mk = "\<lambda>_ (a, b, c). \<lparr>u_meta = a, u_spec = b,
          u_status = c\<rparr>",
      OF deep_copy_pair [OF copies_meta [OF assms]
          deep_copy_pair [OF copies_NatsUserSpec copies_NatsUserStatus [OF assms]]]])
    (simp_all add: NatsUser_DeepCopyInto_def view_user_def fieldwise)

text \<open>The value behind the interface; nil becomes the nil interface.\<close>

definition NatsUser_DeepCopyObject :: "copy_library \<Rightarrow> (addr option, cell) copier" where
  "NatsUser_DeepCopyObject lib h p =
     do { (c, h1) \<leftarrow> NatsUser_DeepCopy lib h p;
       Some (case c of Some a \<Rightarrow> Some a | None \<Rightarrow> None, h1) }"

definition NatsUserList_DeepCopyInto :: "copy_library \<Rightarrow> (go_list, cell) copier" where
  "NatsUserList_DeepCopyInto lib h x =
     do {
       (a, h1) \<leftarrow> copyPtr users_cell (copyList (NatsUser_DeepCopyInto lib)) h (gl_items x);
       Some (x\<lparr>gl_items := a\<rparr>, h1)
     }"

definition NatsUserList_DeepCopy :: "copy_library \<Rightarrow> (addr option, cell) copier" where
  "NatsUserList_DeepCopy lib = copyPtr user_list_cell (NatsUserList_DeepCopyInto lib)"

definition NatsUserList_DeepCopyObject :: "copy_library \<Rightarrow> (addr option, cell) copier" where
  "NatsUserList_DeepCopyObject lib h p =
     do { (c, h1) \<leftarrow> NatsUserList_DeepCopy lib h p;
       Some (case c of Some a \<Rightarrow> Some a | None \<Rightarrow> None, h1) }"

definition view_user_list :: "(go_list, cell, nats_user list) view" where
  "view_user_list h x = viewSlice users_cell view_user h (gl_items x)"

lemma copies_NatsUserList:
  assumes "library_copies lib"
  shows "deep_copy view_user_list (NatsUserList_DeepCopyInto lib)"
proof (rule deep_copy_struct [where get = gl_items and put = "\<lambda>x a. x\<lparr>gl_items := a\<rparr>"
    and rest = "\<lambda>_. ()" and mk = "\<lambda>_ vs. vs"])
  show "deep_copy (viewSlice users_cell view_user) (copyPtr users_cell (copyList (NatsUser_DeepCopyInto lib)))"
    by (intro deep_copy_slice kinds copies_NatsUser [OF assms])
qed (simp_all add: NatsUserList_DeepCopyInto_def view_user_list_def fieldwise)

section \<open>What a copy promises\<close>

text \<open>
  An object the API machinery can hold, as a pointer: \<open>V\<close> is what it denotes. A copy never follows an invalid pointer, changes no
  cell, and denotes the same in memory that any object of the kind could.
\<close>

definition total_copy :: "(addr option, cell, 'v) view \<Rightarrow> (addr option, cell) copier \<Rightarrow> bool" where
  "total_copy V C \<longleftrightarrow>
     (\<forall>h p v. V h p = Some v \<longrightarrow>
        (\<exists>q h'. C h p = Some (q, h') \<and> prefix h h' \<and> V h' q = Some v))"

text \<open>
  And the two share nothing: whatever is written to a cell that existed before, the copy still denotes the same, and
  whatever is written to a cell that was added, the original does.
\<close>

definition isolated_copy :: "(addr option, cell, 'v) view \<Rightarrow> (addr option, cell) copier \<Rightarrow> bool" where
  "isolated_copy V C \<longleftrightarrow>
     (\<forall>h p v q h' a c. V h p = Some v \<longrightarrow> C h p = Some (q, h') \<longrightarrow>
        (if a < length h then V (h'[a := c]) q = Some v else V (h'[a := c]) p = Some v))"

lemma deep_total: "deep_copy V C \<Longrightarrow> total_copy V C"
  unfolding total_copy_def by (meson deep_copy.same_value)

lemma deep_isolated: "deep_copy V C \<Longrightarrow> isolated_copy V C"
  unfolding isolated_copy_def using deep_copy.copy_survives deep_copy.original_survives by (metis not_le)

lemma through_interface: "do { (c, h1) \<leftarrow> m; Some (case c of Some a \<Rightarrow> Some a | None \<Rightarrow> None, h1) } = m"
proof -
  have "(case c of Some a \<Rightarrow> Some a | None \<Rightarrow> None) = c" for c :: "'a option" by (cases c) simp_all
  then show ?thesis by (cases m) (simp_all add: case_prod_unfold)
qed

lemma copies_objects:
  assumes "library_copies lib"
  shows "deep_copy (viewPtr account_cell view_account) (NatsAccount_DeepCopyObject lib)"
    and "deep_copy (viewPtr account_list_cell view_account_list) (NatsAccountList_DeepCopyObject lib)"
    and "deep_copy (viewPtr cluster_cell view_cluster) (NatsCluster_DeepCopyObject lib)"
    and "deep_copy (viewPtr cluster_list_cell view_cluster_list) (NatsClusterList_DeepCopyObject lib)"
    and "deep_copy (viewPtr user_cell view_user) (NatsUser_DeepCopyObject lib)"
    and "deep_copy (viewPtr user_list_cell view_user_list) (NatsUserList_DeepCopyObject lib)"
proof -
  have eq: "NatsAccount_DeepCopyObject lib = NatsAccount_DeepCopy lib" "NatsAccountList_DeepCopyObject lib = NatsAccountList_DeepCopy lib"
    "NatsCluster_DeepCopyObject lib = NatsCluster_DeepCopy lib" "NatsClusterList_DeepCopyObject lib = NatsClusterList_DeepCopy lib"
    "NatsUser_DeepCopyObject lib = NatsUser_DeepCopy lib" "NatsUserList_DeepCopyObject lib = NatsUserList_DeepCopy lib"
    by (intro ext, simp only: NatsAccount_DeepCopyObject_def NatsAccountList_DeepCopyObject_def
        NatsCluster_DeepCopyObject_def
        NatsClusterList_DeepCopyObject_def NatsUser_DeepCopyObject_def NatsUserList_DeepCopyObject_def
            through_interface)+
  show "deep_copy (viewPtr account_cell view_account) (NatsAccount_DeepCopyObject lib)"
    "deep_copy (viewPtr account_list_cell view_account_list) (NatsAccountList_DeepCopyObject lib)"
    "deep_copy (viewPtr cluster_cell view_cluster) (NatsCluster_DeepCopyObject lib)"
    "deep_copy (viewPtr cluster_list_cell view_cluster_list) (NatsClusterList_DeepCopyObject lib)"
    "deep_copy (viewPtr user_cell view_user) (NatsUser_DeepCopyObject lib)"
    "deep_copy (viewPtr user_list_cell view_user_list) (NatsUserList_DeepCopyObject lib)"
    unfolding eq NatsAccount_DeepCopy_def NatsAccountList_DeepCopy_def NatsCluster_DeepCopy_def
        NatsClusterList_DeepCopy_def
      NatsUser_DeepCopy_def NatsUserList_DeepCopy_def
    by (intro deep_copy_ptr kinds copies_NatsAccount copies_NatsAccountList copies_NatsCluster copies_NatsClusterList
        copies_NatsUser copies_NatsUserList assms)+
qed

text \<open>
  C27. Deep copies are well typed and equal. For each of the six kinds of objects the operator works with, copying an
  object whose pointers are valid never follows an invalid one; it leaves every existing cell as it is, and the copy
  has valid pointers and denotes exactly the same resource.
\<close>
theorem DeepCopy_well_typed:
  assumes "library_copies lib"
  shows "total_copy (viewPtr account_cell view_account) (NatsAccount_DeepCopyObject lib) \<and>
    total_copy (viewPtr account_list_cell view_account_list) (NatsAccountList_DeepCopyObject lib) \<and>
    total_copy (viewPtr cluster_cell view_cluster) (NatsCluster_DeepCopyObject lib) \<and>
    total_copy (viewPtr cluster_list_cell view_cluster_list) (NatsClusterList_DeepCopyObject lib) \<and>
    total_copy (viewPtr user_cell view_user) (NatsUser_DeepCopyObject lib) \<and>
    total_copy (viewPtr user_list_cell view_user_list) (NatsUserList_DeepCopyObject lib)"
  by (intro conjI deep_total copies_objects assms)

text \<open>
  C26. Deep copies share nothing. For each of the six kinds of objects, no write to memory that existed before the copy
  changes what the copy denotes, and no write to memory the copy added changes what the original denotes: an object
  taken from a cache can be modified through its copy.
\<close>
theorem DeepCopy_isolates:
  assumes "library_copies lib"
  shows "isolated_copy (viewPtr account_cell view_account) (NatsAccount_DeepCopyObject lib) \<and>
    isolated_copy (viewPtr account_list_cell view_account_list) (NatsAccountList_DeepCopyObject lib) \<and>
    isolated_copy (viewPtr cluster_cell view_cluster) (NatsCluster_DeepCopyObject lib) \<and>
    isolated_copy (viewPtr cluster_list_cell view_cluster_list) (NatsClusterList_DeepCopyObject lib) \<and>
    isolated_copy (viewPtr user_cell view_user) (NatsUser_DeepCopyObject lib) \<and>
    isolated_copy (viewPtr user_list_cell view_user_list) (NatsUserList_DeepCopyObject lib)"
  by (intro conjI deep_isolated copies_objects assms)

section \<open>An example\<close>

text \<open>A user with permissions, in the heap that holds its parts and then the user itself.\<close>

definition sample_user :: go_user where
  "sample_user =
     \<lparr>gu_meta = \<lparr>meta_name = ''x'', meta_namespace = ''prod'', meta_generation = 1\<rparr>,
      gu_spec = \<lparr>gus_account_ref = \<lparr>nor_name = ''a'', nor_namespace = []\<rparr>,
          gus_inbox_prefix = None,
        gus_insecure_shared_inbox_prefix = False, gus_permissions = Some 2\<rparr>,
      gu_status = \<lparr>gust_conditions = None, gust_nkey_public_key = ''UX'', gust_secret_ref = None,
        gust_debug_command = [], gust_connection_urls = None, gust_is_system_account = False\<rparr>\<rparr>"

definition sample_heap :: "cell heap" where
  "sample_heap =
     [StringsCell [''orders.*''], PermissionRuleCell \<lparr>gpr_allow = Some 0, gpr_deny = None\<rparr>,
      PermissionsCell \<lparr>gpm_publish = Some 1, gpm_subscribe = Some 1, gpm_allow_responses = None\<rparr>,
      UserCell sample_user]"

definition plain_library :: copy_library where
  "plain_library = \<lparr>lib_quantity = (\<lambda>q. q), lib_condition = (\<lambda>c. c),
      lib_meta = (\<lambda>m. m)\<rparr>"

lemma plain_library_copies: "library_copies plain_library"
  by (simp add: library_copies_def plain_library_def)

lemma sample_view:
  "\<exists>u. viewPtr user_cell view_user sample_heap (Some 3) = Some (Some u) \<and>
     us_permissions (u_spec u) = Some \<lparr>pm_publish = Some \<lparr>pr_allow = [''orders.*''],
         pr_deny = []\<rparr>,
       pm_subscribe = Some \<lparr>pr_allow = [''orders.*''], pr_deny = []\<rparr>, pm_allow_responses = None\<rparr>"
proof -
  let ?u = "\<lparr>u_meta = \<lparr>meta_name = ''x'', meta_namespace = ''prod'', meta_generation = 1\<rparr>,
      u_spec = \<lparr>us_account_ref = \<lparr>nor_name = ''a'', nor_namespace = []\<rparr>, us_inbox_prefix = None,
        us_insecure_shared_inbox_prefix = False,
        us_permissions = Some \<lparr>pm_publish = Some \<lparr>pr_allow = [''orders.*''], pr_deny = []\<rparr>,
          pm_subscribe = Some \<lparr>pr_allow = [''orders.*''], pr_deny = []\<rparr>,
              pm_allow_responses = None\<rparr>\<rparr>,
      u_status = \<lparr>ust_conditions = [], ust_nkey_public_key = ''UX'', ust_secret_ref = None,
        ust_debug_command = [], ust_connection_urls = [], ust_is_system_account = False\<rparr>\<rparr>"
  have "viewPtr user_cell view_user sample_heap (Some 3) = Some (Some ?u)" by code_simp
  then show ?thesis by (intro exI [of _ ?u]) simp
qed

theorem DeepCopy_well_typed_witness:
  "\<exists>q h' u. NatsUser_DeepCopyObject plain_library sample_heap (Some 3) = Some (q,
      h') \<and> prefix sample_heap h' \<and>
     viewPtr user_cell view_user h' q = Some (Some u) \<and> us_permissions (u_spec u) \<noteq> None"
proof -
  obtain u where u: "viewPtr user_cell view_user sample_heap (Some 3) = Some (Some u)" "us_permissions (u_spec u) \<noteq> None"
    using sample_view by auto
  have "total_copy (viewPtr user_cell view_user) (NatsUser_DeepCopyObject plain_library)"
    using DeepCopy_well_typed [OF plain_library_copies] by blast
  with u show ?thesis unfolding total_copy_def by blast
qed

text \<open>Emptying the list of the original's subjects leaves those of the copy.\<close>

theorem DeepCopy_isolates_witness:
  "\<exists>q h' u. NatsUser_DeepCopyObject plain_library sample_heap (Some 3) = Some (q, h') \<and>
     viewPtr user_cell view_user (h'[0 := StringsCell []]) q = Some (Some u) \<and>
     viewPtr user_cell view_user (h'[4 := StringsCell []]) (Some 3) = Some (Some u) \<and> us_permissions (u_spec u) \<noteq> None"
proof -
  obtain u where u: "viewPtr user_cell view_user sample_heap (Some 3) = Some (Some u)" "us_permissions (u_spec u) \<noteq> None"
    using sample_view by auto
  obtain q h' where run: "NatsUser_DeepCopyObject plain_library sample_heap (Some 3) = Some (q, h')"
    using deep_total [OF copies_objects(5) [OF plain_library_copies]] u(1) unfolding total_copy_def by blast
  have "isolated_copy (viewPtr user_cell view_user) (NatsUser_DeepCopyObject plain_library)"
    using DeepCopy_isolates [OF plain_library_copies] by blast
  then have iso: "if a < length sample_heap then viewPtr user_cell view_user (h'[a := c]) q = Some (Some u)
      else viewPtr user_cell view_user (h'[a := c]) (Some 3) = Some (Some u)" for a c
    using u(1) run unfolding isolated_copy_def by blast
  have "length sample_heap = 4" by (simp add: sample_heap_def)
  then show ?thesis using iso [of 0] iso [of 4] u(2) run by (intro exI conjI) simp_all
qed

end
