(* ===== verification/Cli.thy ===== *)
theory Cli
  imports NatsGenerate UserRules ReconcileUsers
begin

text \<open>
  \<open>cmd/cli/cmd\<close>: the command line tool that renders a configuration from YAML files and checks the
  files. The file system and the YAML decoder are parameters; the splitting into documents, the selection of accounts
  and users and the offline check of the rules are the tool's own.
\<close>

section \<open>Loading (loader.go)\<close>

record loaded_resources =
  lr_clusters :: "nats_cluster list"
  lr_accounts :: "nats_account list"
  lr_users :: "nats_user list"

text \<open>
  What the decoder makes of a document: the kind it found and an object. Whether a path is a directory, the files
  of a directory that match a pattern, and the content of a file.
\<close>

datatype decoded = ClusterDoc nats_cluster | AccountDoc nats_account | UserDoc nats_user | OtherDoc

record file_system =
  fs_is_dir :: "string \<Rightarrow> goerr + bool"
  fs_glob :: "string \<Rightarrow> string \<Rightarrow> goerr + string list"
  fs_read :: "string \<Rightarrow> goerr + string"
  fs_decode :: "string \<Rightarrow> goerr + string \<times> decoded"

text \<open>The loop over the bytes: \<open>line\<close> is what lies between \<open>start\<close> and the current byte.\<close>

fun split_lines_loop :: "string \<Rightarrow> string \<Rightarrow> string list" where
  "split_lines_loop line [] = (if line \<noteq> [] then [line] else [])"
| "split_lines_loop line (c # cs) =
     (if c = CHR 0x0A then line # split_lines_loop [] cs else split_lines_loop (line @ [c]) cs)"

definition splitLines :: "string \<Rightarrow> string list" where
  "splitLines data = split_lines_loop [] data"

fun split_documents :: "string \<Rightarrow> string list \<Rightarrow> string list" where
  "split_documents current [] = (if length current > 0 then [current] else [])"
| "split_documents current (line # ls) =
     (if line = ''---'' then
        (if length current > 0 then current # split_documents [] ls else split_documents current ls)
      else split_documents (current @ line @ NL) ls)"

definition splitYAMLDocuments :: "string \<Rightarrow> string list" where
  "splitYAMLDocuments data = split_documents [] (splitLines data)"

definition addDecoded :: "string \<Rightarrow> decoded \<Rightarrow> loaded_resources \<Rightarrow> loaded_resources" where
  "addDecoded kind obj res =
     (if kind = ''NatsCluster'' then
        (case obj of ClusterDoc c \<Rightarrow> res\<lparr>lr_clusters := lr_clusters res @ [c]\<rparr> | _ \<Rightarrow> res)
      else if kind = ''NatsAccount'' then
        (case obj of AccountDoc a \<Rightarrow> res\<lparr>lr_accounts := lr_accounts res @ [a]\<rparr> | _ \<Rightarrow> res)
      else if kind = ''NatsUser'' then
        (case obj of UserDoc u \<Rightarrow> res\<lparr>lr_users := lr_users res @ [u]\<rparr> | _ \<Rightarrow> res)
      else res)"

fun loadDocs :: "file_system \<Rightarrow> string list \<Rightarrow> loaded_resources \<Rightarrow> loaded_resources" where
  "loadDocs fs [] res = res"
| "loadDocs fs (doc # docs) res =
     (if length doc = 0 then loadDocs fs docs res
      else (case fs_decode fs doc of
        Inl err \<Rightarrow> loadDocs fs docs res
      | Inr (kind, obj) \<Rightarrow> loadDocs fs docs (addDecoded kind obj res)))"

definition loadFile :: "file_system \<Rightarrow> string \<Rightarrow> loaded_resources \<Rightarrow> goerr + loaded_resources" where
  "loadFile fs path res =
     (case fs_read fs path of
        Inl err \<Rightarrow> Inl (wrap (''reading '' @ path) err)
      | Inr data \<Rightarrow> Inr (loadDocs fs (splitYAMLDocuments data) res))"

fun loadFiles :: "file_system \<Rightarrow> string list \<Rightarrow> loaded_resources \<Rightarrow> goerr + loaded_resources" where
  "loadFiles fs [] res = Inr res"
| "loadFiles fs (f # fls) res =
     (case loadFile fs f res of Inl err \<Rightarrow> Inl err | Inr res' \<Rightarrow> loadFiles fs fls res')"

definition filesOf :: "file_system \<Rightarrow> string \<Rightarrow> goerr + string list" where
  "filesOf fs p =
     (case fs_is_dir fs p of
        Inl err \<Rightarrow> Inl (wrap (''stat '' @ p) err)
      | Inr False \<Rightarrow> Inr [p]
      | Inr True \<Rightarrow>
          (case fs_glob fs p ''*.yaml'' of
             Inl err \<Rightarrow> Inl (wrap (''glob '' @ p) err)
           | Inr files \<Rightarrow>
               (case fs_glob fs p ''*.yml'' of
                  Inl err \<Rightarrow> Inl (wrap (''glob '' @ p) err)
                | Inr ymlFiles \<Rightarrow> Inr (files @ ymlFiles))))"

fun loadPaths :: "file_system \<Rightarrow> string list \<Rightarrow> loaded_resources \<Rightarrow> goerr + loaded_resources" where
  "loadPaths fs [] res = Inr res"
| "loadPaths fs (p # ps) res =
     (case filesOf fs p of
        Inl err \<Rightarrow> Inl err
      | Inr files \<Rightarrow>
          (case loadFiles fs files res of Inl err \<Rightarrow> Inl err | Inr res' \<Rightarrow> loadPaths fs ps res'))"

definition loadFromPaths :: "file_system \<Rightarrow> string list \<Rightarrow> goerr + loaded_resources" where
  "loadFromPaths fs paths = loadPaths fs paths \<lparr>lr_clusters = [], lr_accounts = [], lr_users = []\<rparr>"

section \<open>Generating (generate.go)\<close>

definition cliAccountMatches :: "nats_cluster \<Rightarrow> nats_account \<Rightarrow> bool" where
  "cliAccountMatches cluster acct =
     (if as_cluster_ref (ac_spec acct) \<noteq> cluster_name cluster then False
      else if account_namespace acct \<noteq> [] \<and> cluster_namespace cluster \<noteq> [] \<and>
              account_namespace acct \<noteq> cluster_namespace cluster then False
      else True)"

definition cliUserMatches :: "nats_account \<Rightarrow> nats_user \<Rightarrow> bool" where
  "cliUserMatches acct user =
     (let accountNs = (if nor_namespace (us_account_ref (u_spec user)) = [] then user_namespace user
                       else nor_namespace (us_account_ref (u_spec user)))
      in if nor_name (us_account_ref (u_spec user)) \<noteq> account_name acct then False
         else if accountNs \<noteq> [] \<and> account_namespace acct \<noteq> [] \<and> accountNs \<noteq> account_namespace acct then False
         else True)"

definition cliUser :: "nats_user \<Rightarrow> user_with_public_key" where
  "cliUser user =
     \<lparr>uwk_user = user, uwk_public_key = ''<nkey-for:'' @ user_name user @ ''>'', uwk_inbox_prefix = []\<rparr>"

definition cliAccount :: "nats_user list \<Rightarrow> nats_account \<Rightarrow> account_with_users" where
  "cliAccount users acct =
     \<lparr>awu_account = acct,
      awu_users = sort_key (\<lambda>u. user_name (uwk_user u)) (map cliUser (filter (cliUserMatches acct) users))\<rparr>"

definition buildConfigForCluster :: "nats_cluster \<Rightarrow> loaded_resources \<Rightarrow> nats_config" where
  "buildConfigForCluster cluster res =
     ConvertToNatsConfig
       (map (cliAccount (lr_users res)) (filter (cliAccountMatches cluster) (lr_accounts res)))"

text \<open>The error and what has been printed.\<close>

definition runGenerate :: "(nat \<Rightarrow> bool) \<Rightarrow> file_system \<Rightarrow> string list \<Rightarrow> goerr option \<times> string" where
  "runGenerate ip fs args =
     (case loadFromPaths fs args of
        Inl err \<Rightarrow> (Some err, [])
      | Inr res \<Rightarrow>
          if length (lr_clusters res) = 0 then (Some (GoErr Other ''no NatsCluster resources found''), [])
          else (None, concat (map (\<lambda>cluster. Generate ip (buildConfigForCluster cluster res)) (lr_clusters res))))"

section \<open>Validating (validate.go)\<close>

record validation_error =
  ve_resource :: string
  ve_name :: string
  ve_message :: string

definition validation_error_String :: "validation_error \<Rightarrow> string" where
  "validation_error_String e = ''['' @ ve_resource e @ ''/'' @ ve_name e @ ''] '' @ ve_message e"

text \<open>The loop over the rules of an account, with the index for the message.\<close>

fun regexErrors :: "env \<Rightarrow> string \<Rightarrow> nat \<Rightarrow> user_rule list \<Rightarrow> validation_error list" where
  "regexErrors env name i [] = []"
| "regexErrors env name i (rule # rules) =
     (case ur_namespace_regex rule of
        None \<Rightarrow> []
      | Some re \<Rightarrow>
          (case e_regex env re of
             Inr _ \<Rightarrow> []
           | Inl err \<Rightarrow>
               [\<lparr>ve_resource = ''NatsAccount'', ve_name = name,
                 ve_message = ''userRules['' @ show_nat i @ ''].namespaceRegex '' @ Quote (e_printable env) re
                   @ '' is invalid: '' @ emsg err\<rparr>]))
     @ regexErrors env name (i + 1) rules"

definition validateAccount :: "env \<Rightarrow> loaded_resources \<Rightarrow> nats_account \<Rightarrow> validation_error list" where
  "validateAccount env res acct =
     (if as_cluster_ref (ac_spec acct) \<notin> set (map cluster_name (lr_clusters res)) then
        [\<lparr>ve_resource = ''NatsAccount'', ve_name = account_name acct,
          ve_message = ''clusterRef '' @ Quote (e_printable env) (as_cluster_ref (ac_spec acct)) @ '' not found''\<rparr>]
      else [])
     @ regexErrors env (account_name acct) 0 (as_user_rules (ac_spec acct))"

text \<open>The map from names to accounts: a later account of the same name wins.\<close>

definition accountsByName :: "nats_account list \<Rightarrow> string \<rightharpoonup> nats_account" where
  "accountsByName accts = map_of (rev (map (\<lambda>a. (account_name a, a)) accts))"

text \<open>The offline evaluation: rules that cannot be evaluated are skipped.\<close>

fun offlineOutcome :: "env \<Rightarrow> user_rule list \<Rightarrow> string \<Rightarrow> string \<Rightarrow> string" where
  "offlineOutcome env [] userNs acctNs = ''deny''"
| "offlineOutcome env (rule # rules) userNs acctNs =
     (if ur_same_namespace rule = Some True then
        (if userNs = acctNs then ur_action rule else offlineOutcome env rules userNs acctNs)
      else (case ur_namespace_regex rule of
        Some re \<Rightarrow>
          (case e_regex env re of
             Inl err \<Rightarrow> offlineOutcome env rules userNs acctNs
           | Inr matches \<Rightarrow> if matches userNs then ur_action rule else offlineOutcome env rules userNs acctNs)
      | None \<Rightarrow> offlineOutcome env rules userNs acctNs))"

definition validateUser :: "env \<Rightarrow> loaded_resources \<Rightarrow> nats_user \<Rightarrow> validation_error list" where
  "validateUser env res user =
     (let accountName = nor_name (us_account_ref (u_spec user)) in
      case accountsByName (lr_accounts res) accountName of
        None \<Rightarrow> [\<lparr>ve_resource = ''NatsUser'', ve_name = user_name user,
                  ve_message = ''accountRef '' @ Quote (e_printable env) accountName @ '' not found''\<rparr>]
      | Some acct \<Rightarrow>
          if user_namespace user \<noteq> [] \<and> account_namespace acct \<noteq> [] then
            if length (as_user_rules (ac_spec acct)) = 0 then
              [\<lparr>ve_resource = ''NatsUser'', ve_name = user_name user,
                ve_message = ''user (ns='' @ Quote (e_printable env) (user_namespace user) @ '') references account ''
                  @ Quote (e_printable env) (account_name acct) @ '' which has no userRules (access denied by default)''\<rparr>]
            else if offlineOutcome env (as_user_rules (ac_spec acct)) (user_namespace user) (account_namespace acct) = ''deny''
            then
              [\<lparr>ve_resource = ''NatsUser'', ve_name = user_name user,
                ve_message = ''namespace '' @ Quote (e_printable env) (user_namespace user) @ '' denied by account ''
                  @ Quote (e_printable env) (account_name acct) @ '' userRules (or no evaluable rule matched)''\<rparr>]
            else []
          else [])"

definition validationErrors :: "env \<Rightarrow> loaded_resources \<Rightarrow> validation_error list" where
  "validationErrors env res =
     concat (map (validateAccount env res) (lr_accounts res)) @ concat (map (validateUser env res) (lr_users res))"

text \<open>The error, what went to the standard output, and what went to the standard error.\<close>

definition runValidate :: "env \<Rightarrow> file_system \<Rightarrow> string list \<Rightarrow> goerr option \<times> string \<times> string" where
  "runValidate env fs args =
     (case loadFromPaths fs args of
        Inl err \<Rightarrow> (Some err, [], [])
      | Inr res \<Rightarrow>
          let errs = validationErrors env res in
          if length errs = 0 then
            (None, ''Validation passed: '' @ show_nat (length (lr_clusters res)) @ '' clusters, ''
                   @ show_nat (length (lr_accounts res)) @ '' accounts, ''
                   @ show_nat (length (lr_users res)) @ '' users'' @ NL, [])
          else
            (Some (GoErr Other (''validation failed with '' @ show_nat (length errs) @ '' error(s)'')), [],
             ''Validation found '' @ show_nat (length errs) @ '' error(s):'' @ NL
             @ concat (map (\<lambda>e. ''  - '' @ validation_error_String e @ NL) errs)))"

section \<open>Documents\<close>

definition text_of :: "string list \<Rightarrow> string" where
  "text_of ls = concat (map (\<lambda>l. l @ NL) ls)"

lemma text_of_Nil [simp]: "text_of [] = []"
  and text_of_Cons [simp]: "text_of (l # ls) = l @ NL @ text_of ls"
  and text_of_append [simp]: "text_of (ls @ ms) = text_of ls @ text_of ms"
  by (simp_all add: text_of_def)

lemma split_lines_text:
  assumes "CHR 0x0A \<notin> set l"
  shows "split_lines_loop acc (l @ NL @ rest) = (acc @ l) # split_lines_loop [] rest"
  using assms by (induction l arbitrary: acc) auto

lemma splitLines_text_of:
  assumes "\<forall>l\<in>set ls. CHR 0x0A \<notin> set l"
  shows "splitLines (text_of ls) = ls"
  using assms
proof (induction ls)
  case (Cons l ls)
  then show ?case by (simp add: splitLines_def split_lines_text [simplified])
qed (simp add: splitLines_def)

lemma split_documents_nonempty: "[] \<notin> set (split_documents current ls)"
  by (induction current ls rule: split_documents.induct) auto

lemma split_documents_concat:
  "concat (split_documents current ls) = current @ text_of (filter (\<lambda>l. l \<noteq> ''---'') ls)"
  by (induction current ls rule: split_documents.induct) auto

text \<open>The lines of a document: at least one, none of them a separator, none with a line break inside.\<close>

definition yaml_document :: "string list \<Rightarrow> bool" where
  "yaml_document ls \<longleftrightarrow> ls \<noteq> [] \<and> (\<forall>l\<in>set ls. l \<noteq> ''---'' \<and> CHR 0x0A \<notin> set l)"

lemma split_documents_lines:
  assumes "\<forall>l\<in>set ls. l \<noteq> ''---''"
  shows "split_documents current (ls @ ms) = split_documents (current @ text_of ls) ms"
  using assms by (induction ls arbitrary: current) auto

lemma split_documents_stream:
  assumes "list_all yaml_document docs"
  shows "split_documents current (concat (map (\<lambda>ls. ''---'' # ls) docs)) =
    (if current = [] then [] else [current]) @ map text_of docs"
  using assms
proof (induction docs arbitrary: current)
  case (Cons ls docs)
  then obtain l ls' where l: "ls = l # ls'" by (cases ls) (auto simp: yaml_document_def)
  from Cons.prems have ls: "\<forall>l\<in>set ls. l \<noteq> ''---''" by (auto simp: yaml_document_def)
  have ne: "text_of ls \<noteq> []" by (simp add: l)
  have "split_documents [] (ls @ concat (map (\<lambda>ls. ''---'' # ls) docs)) = text_of ls # map text_of docs"
    using Cons.IH [of "text_of ls"] Cons.prems ne by (simp add: split_documents_lines [OF ls])
  then show ?case by simp
qed simp

text \<open>
  A stream of YAML documents, each opened by a separator line, is split into exactly these documents.
\<close>
lemma splitYAMLDocuments_roundtrip:
  assumes "list_all yaml_document docs"
  shows "splitYAMLDocuments (text_of (concat (map (\<lambda>ls. ''---'' # ls) docs))) = map text_of docs"
proof -
  have "\<forall>l\<in>set (concat (map (\<lambda>ls. ''---'' # ls) docs)). CHR 0x0A \<notin> set l"
    using assms by (auto simp: list_all_iff yaml_document_def)
  then show ?thesis
    using split_documents_stream [OF assms, of "[]"] by (simp add: splitYAMLDocuments_def splitLines_text_of)
qed

lemma splitYAMLDocuments_roundtrip_witness:
  "splitYAMLDocuments (text_of [''---'', ''a: 1'', ''b: 2'', ''---'', ''c: 3'']) =
     [''a: 1'' @ NL @ ''b: 2'' @ NL, ''c: 3'' @ NL]"
  using splitYAMLDocuments_roundtrip [of "[[''a: 1'', ''b: 2''], [''c: 3'']]"] by (simp add: yaml_document_def)

text \<open>
  Nothing is lost and nothing is empty: whatever the input, the documents put one after the other are its lines
  without the separator lines, and none of them is empty.
\<close>
lemma splitYAMLDocuments_content:
  "concat (splitYAMLDocuments data) = text_of (filter (\<lambda>l. l \<noteq> ''---'') (splitLines data)) \<and>
   [] \<notin> set (splitYAMLDocuments data)"
  by (simp add: splitYAMLDocuments_def split_documents_concat split_documents_nonempty)

section \<open>The offline check of the rules\<close>

text \<open>The rules the tool can evaluate: those that look at labels only are left to the operator.\<close>

definition offline_rule :: "user_rule \<Rightarrow> bool" where
  "offline_rule rule \<longleftrightarrow>
     ur_same_namespace rule = Some True \<or> ur_namespace_regex rule \<noteq> None \<or> ur_namespace_labels rule = None"

lemma offline_matches:
  assumes "offline_rule rule"
    and "\<forall>re. ur_namespace_regex rule = Some re \<longrightarrow> (\<exists>f. e_regex env re = Inr f)"
  shows "\<exists>b. ruleMatchesUser env fetch rule un an = State_Monad.return (Inr b) \<and>
    offlineOutcome env (rule # rules) un an = (if b then ur_action rule else offlineOutcome env rules un an)"
proof (cases "ur_same_namespace rule = Some True")
  case True
  then show ?thesis by (intro exI [of _ "un = an"]) (simp add: ruleMatchesUser_def)
next
  case same: False
  show ?thesis
  proof (cases "ur_namespace_regex rule")
    case None
    with same assms(1) show ?thesis by (intro exI [of _ False]) (simp add: ruleMatchesUser_def offline_rule_def)
  next
    case (Some re)
    with assms(2) obtain f where "e_regex env re = Inr f" by blast
    with same Some show ?thesis by (intro exI [of _ "f un"]) (simp add: ruleMatchesUser_def)
  qed
qed

text \<open>
  On rules that compile and do not ask for labels, the operator grants an account to a namespace exactly when the
  outcome of \<open>validate\<close> is grant, whatever the cluster answers.
\<close>

lemma offlineOutcome_is_Evaluate:
  assumes "ValidateRegexRules env rules = None" "list_all offline_rule rules"
  shows "Evaluate env fetch rules un an = State_Monad.return (Inr (offlineOutcome env rules un an = UserRuleActionGrant))"
  using assms
proof (induction rules)
  case Nil
  then show ?case by (simp add: UserRuleActionGrant_def)
next
  case (Cons rule rules)
  then have r: "offline_rule rule" "\<forall>re. ur_namespace_regex rule = Some re \<longrightarrow> (\<exists>f. e_regex env re = Inr f)"
    and rest: "ValidateRegexRules env rules = None" "list_all offline_rule rules"
    unfolding ValidateRegexRules_None by simp_all
  obtain b where "ruleMatchesUser env fetch rule un an = State_Monad.return (Inr b)"
    "offlineOutcome env (rule # rules) un an = (if b then ur_action rule else offlineOutcome env rules un an)"
    using offline_matches [OF r] by blast
  then show ?case using Cons.IH [OF rest] by simp
qed

section \<open>What a passed validation promises\<close>

lemma regexErrors_Nil: "regexErrors env name i rules = [] \<longleftrightarrow> ValidateRegexRules env rules = None"
  by (induction rules arbitrary: i) (auto split: option.splits sum.splits)

lemma validateAccount_Nil:
  "validateAccount env res acct = [] \<longleftrightarrow>
     as_cluster_ref (ac_spec acct) \<in> cluster_name ` set (lr_clusters res) \<and>
     ValidateRegexRules env (as_user_rules (ac_spec acct)) = None"
  by (auto simp: validateAccount_def regexErrors_Nil)

lemma validateUser_Nil:
  "validateUser env res user = [] \<longleftrightarrow>
     (\<exists>acct. accountsByName (lr_accounts res) (nor_name (us_account_ref (u_spec user))) = Some acct \<and>
        (user_namespace user \<noteq> [] \<and> account_namespace acct \<noteq> [] \<longrightarrow>
           offlineOutcome env (as_user_rules (ac_spec acct)) (user_namespace user) (account_namespace acct) \<noteq> ''deny''))"
  by (auto simp: validateUser_def Let_def split: option.split)

lemma validationErrors_Nil:
  "validationErrors env res = [] \<longleftrightarrow>
     list_all (\<lambda>acct. as_cluster_ref (ac_spec acct) \<in> cluster_name ` set (lr_clusters res) \<and>
        ValidateRegexRules env (as_user_rules (ac_spec acct)) = None) (lr_accounts res) \<and>
     list_all (\<lambda>user. \<exists>acct. accountsByName (lr_accounts res) (nor_name (us_account_ref (u_spec user))) = Some acct \<and>
        (user_namespace user = [] \<or> account_namespace acct = [] \<or>
           offlineOutcome env (as_user_rules (ac_spec acct)) (user_namespace user) (account_namespace acct) \<noteq> ''deny''))
      (lr_users res)"
proof -
  have "validationErrors env res = [] \<longleftrightarrow>
      (\<forall>a\<in>set (lr_accounts res). validateAccount env res a = []) \<and> (\<forall>u\<in>set (lr_users res). validateUser env res u = [])"
    by (simp add: validationErrors_def)
  then show ?thesis unfolding validateAccount_Nil validateUser_Nil list_all_iff by (simp add: imp_conv_disj disj_ac)
qed

lemma offlineOutcome_action:
  "offlineOutcome env rules un an = ''deny'' \<or> (\<exists>r\<in>set rules. offlineOutcome env rules un an = ur_action r)"
  by (induction rules) (auto split: option.splits sum.splits)

lemma accountsByName_distinct:
  assumes "distinct (map account_name accts)" "acct \<in> set accts"
  shows "accountsByName accts (account_name acct) = Some acct"
proof -
  have "map fst (rev (map (\<lambda>a. (account_name a, a)) accts)) = rev (map account_name accts)"
    by (simp add: rev_map comp_def)
  with assms show ?thesis unfolding accountsByName_def by (intro map_of_is_SomeI) auto
qed


text \<open>A file with a cluster, an account that grants its own namespace, and a user of that namespace.\<close>

definition sample_files :: file_system where
  "sample_files =
     \<lparr>fs_is_dir = (\<lambda>_. Inr False), fs_glob = (\<lambda>_ _. Inr []),
      fs_read = (\<lambda>_. Inr (text_of [''---'', ''cluster'', ''---'', ''account'', ''---'', ''note'', ''---'', ''user''])),
      fs_decode = (\<lambda>doc.
        if doc = ''cluster'' @ NL then Inr (''NatsCluster'', ClusterDoc pass_cluster)
        else if doc = ''account'' @ NL then Inr (''NatsAccount'', AccountDoc (pass_account ''a'' False))
        else if doc = ''user'' @ NL then Inr (''NatsUser'', UserDoc (pass_user ''x'' ''prod''))
        else Inl (GoErr Other ''no kind''))\<rparr>"

definition sample_resources :: loaded_resources where
  "sample_resources = \<lparr>lr_clusters = [pass_cluster], lr_accounts = [pass_account ''a'' False],
     lr_users = [pass_user ''x'' ''prod'']\<rparr>"

lemma sample_loads: "loadFromPaths sample_files [''dir''] = Inr sample_resources"
  by code_simp

lemma sample_sel:
  "lr_clusters sample_resources = [pass_cluster]" "lr_accounts sample_resources = [pass_account ''a'' False]"
  "lr_users sample_resources = [pass_user ''x'' ''prod'']"
  by (simp_all add: sample_resources_def)

lemma sample_valid: "fst (runValidate null_env sample_files [''dir'']) = None"
proof -
  have "validationErrors null_env sample_resources = []" by code_simp
  then show ?thesis by (simp add: runValidate_def sample_loads)
qed




section \<open>The selection of accounts and users\<close>

lemma cliAccountMatches_iff:
  assumes "account_namespace acct \<noteq> []" "cluster_namespace cluster \<noteq> []"
  shows "cliAccountMatches cluster acct \<longleftrightarrow>
    as_cluster_ref (ac_spec acct) = cluster_name cluster \<and> account_namespace acct = cluster_namespace cluster"
  using assms by (auto simp: cliAccountMatches_def)

lemma cliUserMatches_iff:
  assumes "account_namespace acct \<noteq> []" "user_namespace user \<noteq> []"
  shows "cliUserMatches acct user \<longleftrightarrow> userReferencesAccount user acct"
  using assms by (auto simp: cliUserMatches_def userReferencesAccount_def effectiveAccountNamespace_def Let_def)

lemma cliUser_sel [simp]: "uwk_user (cliUser u) = u" "uwk_inbox_prefix (cliUser u) = []"
  by (simp_all add: cliUser_def)

lemma cliAccount_users:
  assumes "account_namespace acct \<noteq> []" "\<forall>u\<in>set users. user_namespace u \<noteq> []"
  shows "awu_users (cliAccount users acct) = map cliUser (sort_key user_name (filter (\<lambda>u. userReferencesAccount u acct) users))"
proof -
  have "filter (cliUserMatches acct) users = filter (\<lambda>u. userReferencesAccount u acct) users"
    using assms by (intro filter_cong refl cliUserMatches_iff) auto
  moreover have "sort_key (\<lambda>u. user_name (uwk_user u)) (map cliUser us) = map cliUser (sort_key user_name us)" for us
    by (simp add: sort_key_map)
  ultimately show ?thesis by (simp add: cliAccount_def)
qed

lemma cliAccount_covers_members:
  assumes "account_namespace acct \<noteq> []" "\<forall>u\<in>set users. user_namespace u \<noteq> []"
  shows "set (members env view users acct) \<subseteq> uwk_user ` set (awu_users (cliAccount users acct))"
  unfolding cliAccount_users [OF assms] by (auto simp: members_def granted_def intro: rev_image_eqI)

end
