(* ===== verification/NatsMonitor.thy ===== *)
theory NatsMonitor
  imports PodReload
begin

text \<open>
  \<open>internal/natsmonitor\<close>: the client for the monitoring endpoint of the NATS servers, the
  queries over all servers, and the filters. The HTTP transport and the JSON parser are parameters; which Go value
  a parsed document is decoded into is spelled out.
\<close>

section \<open>The documents (types.go)\<close>

type_synonym uint64 = "64 word"

record connection_info =
  ci_cid :: uint64
  ci_ip :: string
  ci_port :: int64
  ci_account :: string
  ci_nkey :: string
  ci_rtt :: string
  ci_subscriptions :: int64
  ci_in_msgs :: int64
  ci_out_msgs :: int64
  ci_in_bytes :: int64
  ci_out_bytes :: int64
  ci_uptime :: string
  ci_start :: string
  ci_stop :: string
  ci_reason :: string

record connz_result =
  cz_server_id :: string
  cz_num_connections :: int64
  cz_connections :: "connection_info list"

definition zero_connection :: connection_info where
  "zero_connection =
     \<lparr>ci_cid = 0, ci_ip = [], ci_port = 0, ci_account = [], ci_nkey = [], ci_rtt = [], ci_subscriptions = 0,
      ci_in_msgs = 0, ci_out_msgs = 0, ci_in_bytes = 0, ci_out_bytes = 0, ci_uptime = [], ci_start = [],
      ci_stop = [], ci_reason = []\<rparr>"

definition zero_connz :: connz_result where
  "zero_connz = \<lparr>cz_server_id = [], cz_num_connections = 0, cz_connections = []\<rparr>"

section \<open>Decoding\<close>

text \<open>
  How \<open>encoding/json\<close> fills a variable: \<open>null\<close> leaves it alone, a value of another kind or out of
  range is an error. A field of a struct is found by its name without regard to case, in the order of the members.
\<close>

definition type_error :: "string \<Rightarrow> goerr" where
  "type_error what = GoErr Other (''json: cannot unmarshal into Go value of type '' @ what)"

definition decode_string :: "json \<Rightarrow> string \<Rightarrow> goerr + string" where
  "decode_string j old =
     (case j of JString s \<Rightarrow> Inr s | JNull \<Rightarrow> Inr old | _ \<Rightarrow> Inl (type_error ''string''))"

definition decode_int64 :: "json \<Rightarrow> int64 \<Rightarrow> goerr + int64" where
  "decode_int64 j old =
     (case j of JNull \<Rightarrow> Inr old
      | JInt i \<Rightarrow> if - (2 ^ 63) \<le> i \<and> i < 2 ^ 63 then Inr (word_of_int i) else Inl (type_error ''int'')
      | _ \<Rightarrow> Inl (type_error ''int''))"

definition decode_uint64 :: "json \<Rightarrow> uint64 \<Rightarrow> goerr + uint64" where
  "decode_uint64 j old =
     (case j of JNull \<Rightarrow> Inr old
      | JInt i \<Rightarrow> if 0 \<le> i \<and> i < 2 ^ 64 then Inr (word_of_int i) else Inl (type_error ''uint64'')
      | _ \<Rightarrow> Inl (type_error ''uint64''))"

type_synonym 'r field = "string \<times> (json \<Rightarrow> 'r \<Rightarrow> goerr + 'r)"

fun find_field :: "string \<Rightarrow> 'r field list \<Rightarrow> (json \<Rightarrow> 'r \<Rightarrow> goerr + 'r) option" where
  "find_field k [] = None"
| "find_field k ((n, f) # fs) = (if ToLower k = ToLower n then Some f else find_field k fs)"

fun decode_members :: "'r field list \<Rightarrow> json gomap \<Rightarrow> 'r \<Rightarrow> goerr + 'r" where
  "decode_members fs [] r = Inr r"
| "decode_members fs ((k, v) # m) r =
     (case find_field k fs of
        None \<Rightarrow> decode_members fs m r
      | Some f \<Rightarrow> (case f v r of Inl e \<Rightarrow> Inl e | Inr r' \<Rightarrow> decode_members fs m r'))"

definition decode_struct :: "'r field list \<Rightarrow> json \<Rightarrow> 'r \<Rightarrow> goerr + 'r" where
  "decode_struct fs j r =
     (case j of JNull \<Rightarrow> Inr r | JObject m \<Rightarrow> decode_members fs m r | _ \<Rightarrow> Inl (type_error ''struct''))"

definition string_field :: "string \<Rightarrow> ('r \<Rightarrow> string) \<Rightarrow> (string \<Rightarrow> 'r \<Rightarrow> 'r) \<Rightarrow> 'r field" where
  "string_field n get set' = (n, \<lambda>j r. map_sum id (\<lambda>v. set' v r) (decode_string j (get r)))"

definition int_field :: "string \<Rightarrow> ('r \<Rightarrow> int64) \<Rightarrow> (int64 \<Rightarrow> 'r \<Rightarrow> 'r) \<Rightarrow> 'r field" where
  "int_field n get set' = (n, \<lambda>j r. map_sum id (\<lambda>v. set' v r) (decode_int64 j (get r)))"

definition connection_fields :: "connection_info field list" where
  "connection_fields =
     [(''cid'', \<lambda>j r. map_sum id (\<lambda>v. r\<lparr>ci_cid := v\<rparr>) (decode_uint64 j (ci_cid r))),
      string_field ''ip'' ci_ip (\<lambda>v r. r\<lparr>ci_ip := v\<rparr>),
      int_field ''port'' ci_port (\<lambda>v r. r\<lparr>ci_port := v\<rparr>),
      string_field ''account'' ci_account (\<lambda>v r. r\<lparr>ci_account := v\<rparr>),
      string_field ''nkey'' ci_nkey (\<lambda>v r. r\<lparr>ci_nkey := v\<rparr>),
      string_field ''rtt'' ci_rtt (\<lambda>v r. r\<lparr>ci_rtt := v\<rparr>),
      int_field ''subscriptions_list'' ci_subscriptions (\<lambda>v r. r\<lparr>ci_subscriptions := v\<rparr>),
      int_field ''in_msgs'' ci_in_msgs (\<lambda>v r. r\<lparr>ci_in_msgs := v\<rparr>),
      int_field ''out_msgs'' ci_out_msgs (\<lambda>v r. r\<lparr>ci_out_msgs := v\<rparr>),
      int_field ''in_bytes'' ci_in_bytes (\<lambda>v r. r\<lparr>ci_in_bytes := v\<rparr>),
      int_field ''out_bytes'' ci_out_bytes (\<lambda>v r. r\<lparr>ci_out_bytes := v\<rparr>),
      string_field ''uptime'' ci_uptime (\<lambda>v r. r\<lparr>ci_uptime := v\<rparr>),
      string_field ''start'' ci_start (\<lambda>v r. r\<lparr>ci_start := v\<rparr>),
      string_field ''stop'' ci_stop (\<lambda>v r. r\<lparr>ci_stop := v\<rparr>),
      string_field ''reason'' ci_reason (\<lambda>v r. r\<lparr>ci_reason := v\<rparr>)]"

fun decode_list :: "(json \<Rightarrow> goerr + 'a) \<Rightarrow> json list \<Rightarrow> goerr + 'a list" where
  "decode_list f [] = Inr []"
| "decode_list f (j # js) =
     (case f j of Inl e \<Rightarrow> Inl e | Inr x \<Rightarrow> map_sum id ((#) x) (decode_list f js))"

definition decode_connections :: "json \<Rightarrow> connection_info list \<Rightarrow> goerr + connection_info list" where
  "decode_connections j old =
     (case j of JNull \<Rightarrow> Inr []
      | JArray js \<Rightarrow> decode_list (\<lambda>x. decode_struct connection_fields x zero_connection) js
      | _ \<Rightarrow> Inl (type_error ''[]natsmonitor.ConnectionInfo''))"

definition connz_fields :: "connz_result field list" where
  "connz_fields =
     [string_field ''server_id'' cz_server_id (\<lambda>v r. r\<lparr>cz_server_id := v\<rparr>),
      int_field ''num_connections'' cz_num_connections (\<lambda>v r. r\<lparr>cz_num_connections := v\<rparr>),
      (''connections'', \<lambda>j r. map_sum id (\<lambda>v. r\<lparr>cz_connections := v\<rparr>) (decode_connections j (cz_connections r)))]"

definition decode_connz :: "json \<Rightarrow> goerr + connz_result" where
  "decode_connz j = decode_struct connz_fields j zero_connz"

section \<open>The client\<close>

text \<open>The interface of the source, and its implementation over HTTP.\<close>

record monitor_client =
  mc_connz :: "string \<Rightarrow> (goerr + connz_result) meth"
  mc_connz_closed :: "string \<Rightarrow> int \<Rightarrow> (goerr + connz_result) meth"

definition fetchConnz :: "env \<Rightarrow> string \<Rightarrow> (goerr + connz_result) meth" where
  "fetchConnz env url w =
     (case e_new_request env url of Some err \<Rightarrow> (Inl (wrap ''creating request'' err), [], 0)
      | None \<Rightarrow>
     (case e_http_get env w url of
        Inl err \<Rightarrow> (Inl (wrap (''querying '' @ url) err), [HttpGot url], e_latency env w)
      | Inr resp \<Rightarrow>
          ((if hr_status resp \<noteq> 200 then
              Inl (GoErr Other (''unexpected status '' @ show_int (hr_status resp) @ '' from '' @ url))
            else
              (case e_decode_json env (hr_body resp) of
                 Inl err \<Rightarrow> Inl (wrap (''decoding response from '' @ url) err)
               | Inr j \<Rightarrow> map_sum (wrap (''decoding response from '' @ url)) id (decode_connz j))),
           [HttpGot url], e_latency env w)))"

definition GetConnz :: "env \<Rightarrow> string \<Rightarrow> (goerr + connz_result) meth" where
  "GetConnz env baseURL = fetchConnz env (baseURL @ ''/connz'')"

definition GetConnzClosed :: "env \<Rightarrow> string \<Rightarrow> int \<Rightarrow> (goerr + connz_result) meth" where
  "GetConnzClosed env baseURL limit =
     fetchConnz env (baseURL @ ''/connz?state=closed&sort=stop&limit='' @ show_int limit)"

definition HTTPMonitorClient :: "env \<Rightarrow> monitor_client" where
  "HTTPMonitorClient env = \<lparr>mc_connz = GetConnz env, mc_connz_closed = GetConnzClosed env\<rparr>"

section \<open>All servers\<close>

record server_connections =
  sc_server_id :: string
  sc_server_name :: string
  sc_connections :: "connection_info list"
  sc_error :: "goerr option"

definition server_entry :: "string \<Rightarrow> goerr + connz_result \<Rightarrow> server_connections" where
  "server_entry name r =
     (case r of
        Inl err \<Rightarrow> \<lparr>sc_server_id = [], sc_server_name = name, sc_connections = [], sc_error = Some err\<rparr>
      | Inr connz \<Rightarrow> \<lparr>sc_server_id = cz_server_id connz, sc_server_name = name,
                       sc_connections = cz_connections connz, sc_error = None\<rparr>)"

text \<open>The map of URLs is a list whose order is the order in which the \<open>range\<close> loop visits it.\<close>

fun QueryAllServersClosed :: "monitor_client \<Rightarrow> string gomap \<Rightarrow> int \<Rightarrow> server_connections list io" where
  "QueryAllServersClosed client [] limit = State_Monad.return []"
| "QueryAllServersClosed client ((name, url) # urls) limit =
     do {
       r \<leftarrow> perform (mc_connz_closed client url limit);
       rest \<leftarrow> QueryAllServersClosed client urls limit;
       State_Monad.return (server_entry name r # rest)
     }"

fun QueryAllServers :: "monitor_client \<Rightarrow> string gomap \<Rightarrow> server_connections list io" where
  "QueryAllServers client [] = State_Monad.return []"
| "QueryAllServers client ((name, url) # urls) =
     do {
       r \<leftarrow> perform (mc_connz client url);
       rest \<leftarrow> QueryAllServers client urls;
       State_Monad.return (server_entry name r # rest)
     }"

section \<open>Filters\<close>

fun filterServers :: "(connection_info \<Rightarrow> bool) \<Rightarrow> server_connections list \<Rightarrow> server_connections list" where
  "filterServers P [] = []"
| "filterServers P (s # servers) =
     (if sc_error s \<noteq> None then s # filterServers P servers
      else
        let matching = filter P (sc_connections s) in
        if length matching > 0 then
          \<lparr>sc_server_id = sc_server_id s, sc_server_name = sc_server_name s, sc_connections = matching, sc_error = None\<rparr>
            # filterServers P servers
        else filterServers P servers)"

definition FilterByNKey :: "server_connections list \<Rightarrow> string \<Rightarrow> server_connections list" where
  "FilterByNKey servers nkey = filterServers (\<lambda>c. ci_nkey c = nkey) servers"

definition FilterByAccount :: "server_connections list \<Rightarrow> string \<Rightarrow> server_connections list" where
  "FilterByAccount servers account = filterServers (\<lambda>c. ci_account c = account) servers"

section \<open>Decoding reads what was written\<close>

text \<open>The document a server writes for a value, under the names of the struct tags.\<close>

definition encode_connection :: "connection_info \<Rightarrow> json" where
  "encode_connection c = JObject
     [(''cid'', JInt (uint (ci_cid c))), (''ip'', JString (ci_ip c)), (''port'', JInt (sint (ci_port c))),
      (''account'', JString (ci_account c)), (''nkey'', JString (ci_nkey c)), (''rtt'', JString (ci_rtt c)),
      (''subscriptions_list'', JInt (sint (ci_subscriptions c))),
      (''in_msgs'', JInt (sint (ci_in_msgs c))), (''out_msgs'', JInt (sint (ci_out_msgs c))),
      (''in_bytes'', JInt (sint (ci_in_bytes c))), (''out_bytes'', JInt (sint (ci_out_bytes c))),
      (''uptime'', JString (ci_uptime c)), (''start'', JString (ci_start c)), (''stop'', JString (ci_stop c)),
      (''reason'', JString (ci_reason c))]"

definition encode_connz :: "connz_result \<Rightarrow> json" where
  "encode_connz z = JObject
     [(''server_id'', JString (cz_server_id z)), (''num_connections'', JInt (sint (cz_num_connections z))),
      (''connections'', JArray (map encode_connection (cz_connections z)))]"

lemma decode_int64_sint [simp]: "decode_int64 (JInt (sint n)) old = Inr n"
  using sint_int64_range [of n] by (simp add: decode_int64_def)

lemma decode_uint64_uint [simp]: "decode_uint64 (JInt (uint n)) old = Inr n"
  using uint_lt2p [of n] by (simp add: decode_uint64_def)

lemma decode_string_JString [simp]: "decode_string (JString s) old = Inr s"
  by (simp add: decode_string_def)

lemma lower_names [simp]: "ToLower ''cid'' = ''cid''" "ToLower ''ip'' = ''ip''" "ToLower ''port'' = ''port''"
  "ToLower ''account'' = ''account''" "ToLower ''nkey'' = ''nkey''" "ToLower ''rtt'' = ''rtt''"
  "ToLower ''subscriptions_list'' = ''subscriptions_list''" "ToLower ''in_msgs'' = ''in_msgs''"
  "ToLower ''out_msgs'' = ''out_msgs''" "ToLower ''in_bytes'' = ''in_bytes''" "ToLower ''out_bytes'' = ''out_bytes''"
  "ToLower ''uptime'' = ''uptime''" "ToLower ''start'' = ''start''" "ToLower ''stop'' = ''stop''"
  "ToLower ''reason'' = ''reason''" "ToLower ''server_id'' = ''server_id''"
  "ToLower ''num_connections'' = ''num_connections''" "ToLower ''connections'' = ''connections''"
  by code_simp+

lemma decode_connection: "decode_struct connection_fields (encode_connection c) zero_connection = Inr c"
  by (simp add: decode_struct_def encode_connection_def connection_fields_def string_field_def int_field_def
      zero_connection_def)

lemma decode_connection_list:
  "decode_list (\<lambda>x. decode_struct connection_fields x zero_connection) (map encode_connection cs) = Inr cs"
  by (induction cs) (simp_all add: decode_connection)

lemma decode_connections_encode: "decode_connections (JArray (map encode_connection cs)) old = Inr cs"
  by (simp add: decode_connections_def decode_connection_list)

text \<open>
  The client reads a server's answer as it was written: decoding the document of any result, every field under
  the name the server uses, gives back that result, connections in order.
\<close>
lemma connz_roundtrip: "decode_connz (encode_connz z) = Inr z"
  by (simp add: decode_connz_def decode_struct_def encode_connz_def connz_fields_def string_field_def int_field_def
      decode_connections_encode zero_connz_def)

section \<open>Queries and filters\<close>

text \<open>The contract of the interface: a call only makes requests below the given URL.\<close>

definition request_below :: "string \<Rightarrow> event \<Rightarrow> bool" where
  "request_below url e = (\<exists>u. e = HttpGot (url @ u))"

locale monitor =
  fixes C :: monitor_client
  assumes connz_requests: "mc_connz C url w = (r, evs, d) \<Longrightarrow> list_all (request_below url) evs"
    and closed_requests: "mc_connz_closed C url n w = (r, evs, d) \<Longrightarrow> list_all (request_below url) evs"
begin

text \<open>One entry per server, in order, each the answer for that server alone; nothing but these requests is made.\<close>

definition answered :: "(string \<Rightarrow> (goerr + connz_result) meth) \<Rightarrow> string gomap \<Rightarrow> server_connections list \<Rightarrow> bool" where
  "answered m urls rs = list_all2 (\<lambda>(name, url) s. \<exists>w. s = server_entry name (fst (m url w))) urls rs"

definition only_requests :: "string gomap \<Rightarrow> world \<Rightarrow> world \<Rightarrow> bool" where
  "only_requests urls w w' = (\<exists>evs. w_trace w' = evs @ w_trace w \<and>
     list_all (\<lambda>e. \<exists>(n, url)\<in>set urls. request_below url e) evs)"

lemma wp_perform: "wp (perform m) Q w = (case m w of (r, evs, d) \<Rightarrow>
    Q r (w\<lparr>w_trace := evs @ w_trace w, w_clock := w_clock w + d\<rparr>))"
  by (simp add: perform_def split: prod.split)

lemma only_requests_Cons:
  assumes "list_all (request_below url) evs" "w_trace w1 = evs @ w_trace w" "only_requests urls w1 w2"
  shows "only_requests ((name, url) # urls) w w2"
proof -
  obtain es where "w_trace w2 = es @ w_trace w1" "list_all (\<lambda>e. \<exists>(n, url)\<in>set urls. request_below url e) es"
    using assms(3) by (auto simp: only_requests_def)
  with assms(1,2) show ?thesis
    unfolding only_requests_def by (intro exI [of _ "es @ evs"]) (auto simp: list_all_iff)
qed

lemma QueryAllServers_answered:
  "wp (QueryAllServers C urls) (\<lambda>rs w'. answered (mc_connz C) urls rs \<and> only_requests urls w w') w"
proof (induction urls arbitrary: w)
  case Nil
  then show ?case by (simp add: answered_def only_requests_def)
next
  case (Cons p urls)
  obtain name url where p: "p = (name, url)" by force
  obtain r evs d where m: "mc_connz C url w = (r, evs, d)" by (metis prod_cases3)
  let ?w1 = "w\<lparr>w_trace := evs @ w_trace w, w_clock := w_clock w + d\<rparr>"
  have r: "server_entry name r = server_entry name (fst (mc_connz C url w))" using m by simp
  show ?case
    unfolding p QueryAllServers.simps wp_bind wp_perform m prod.case wp_return
    by (rule wp_mono [OF Cons.IH])
      (use r connz_requests [OF m] in \<open>auto simp: answered_def intro: only_requests_Cons [where ?w1.0 = ?w1]\<close>)
qed

lemma QueryAllServersClosed_answered:
  "wp (QueryAllServersClosed C urls n)
     (\<lambda>rs w'. answered (\<lambda>url. mc_connz_closed C url n) urls rs \<and> only_requests urls w w') w"
proof (induction urls arbitrary: w)
  case Nil
  then show ?case by (simp add: answered_def only_requests_def)
next
  case (Cons p urls)
  obtain name url where p: "p = (name, url)" by force
  obtain r evs d where m: "mc_connz_closed C url n w = (r, evs, d)" by (metis prod_cases3)
  let ?w1 = "w\<lparr>w_trace := evs @ w_trace w, w_clock := w_clock w + d\<rparr>"
  have r: "server_entry name r = server_entry name (fst (mc_connz_closed C url n w))" using m by simp
  show ?case
    unfolding p QueryAllServersClosed.simps wp_bind wp_perform m prod.case wp_return
    by (rule wp_mono [OF Cons.IH])
      (use r closed_requests [OF m] in \<open>auto simp: answered_def intro: only_requests_Cons [where ?w1.0 = ?w1]\<close>)
qed

end

interpretation http: monitor "HTTPMonitorClient env" for env
  by unfold_locales
    (auto simp: HTTPMonitorClient_def GetConnz_def GetConnzClosed_def fetchConnz_def request_below_def
      split: option.splits sum.splits)


lemma filterServers_eq:
  "filterServers P servers =
     filter (\<lambda>s. sc_error s \<noteq> None \<or> sc_connections s \<noteq> [])
       (map (\<lambda>s. if sc_error s = None then s\<lparr>sc_connections := filter P (sc_connections s)\<rparr> else s) servers)"
proof (induction servers)
  case (Cons s servers)
  have "\<lparr>sc_server_id = sc_server_id s, sc_server_name = sc_server_name s, sc_connections = cs, sc_error = None\<rparr> =
      s\<lparr>sc_connections := cs\<rparr>" if "sc_error s = None" for cs
    using that by (cases s) simp
  with Cons show ?case by (auto simp: Let_def)
qed simp

text \<open>
  Filters are exact and lose no error: filtering by key keeps, server by server, exactly the connections with the
  key, in order; it drops a server only when it could be read and has none of them, and keeps every server that
  could not be read. Filtering by account does the same, and the two filters commute.
\<close>
lemma filters_exact:
  "FilterByNKey servers nkey =
     filter (\<lambda>s. sc_error s \<noteq> None \<or> sc_connections s \<noteq> [])
       (map (\<lambda>s. if sc_error s = None then s\<lparr>sc_connections := filter (\<lambda>c. ci_nkey c = nkey) (sc_connections s)\<rparr> else s) servers)
   \<and> FilterByAccount servers account =
     filter (\<lambda>s. sc_error s \<noteq> None \<or> sc_connections s \<noteq> [])
       (map (\<lambda>s. if sc_error s = None then s\<lparr>sc_connections := filter (\<lambda>c. ci_account c = account) (sc_connections s)\<rparr> else s) servers)
   \<and> FilterByNKey (FilterByAccount servers account) nkey = FilterByAccount (FilterByNKey servers nkey) account"
proof -
  have fused: "filterServers P (filterServers Q servers) = filterServers (\<lambda>c. Q c \<and> P c) servers" for P Q
    by (induction servers) (auto simp: Let_def filter_empty_conv)
  have "filterServers P (filterServers Q servers) = filterServers Q (filterServers P servers)" for P Q
    unfolding fused by (rule arg_cong [where f = "\<lambda>f. filterServers f servers"]) auto
  then show ?thesis
    by (simp add: FilterByNKey_def FilterByAccount_def filterServers_eq [of _ servers])
qed

end
