(* ===== verification/DebugCli.thy ===== *)
theory DebugCli
  imports NatsMonitor ReloadPods NatsGenerate
begin

text \<open>
  \<open>cmd/nats-debug/main.go\<close>: the tool that an administrator runs inside the operator's pod to
  see who is connected and why a user is not. What it prints is the value of its functions, what it asks the cluster and the
  servers is in the trace. The client is made from the kubeconfig by the library: \<open>newClient\<close> is an argument, the
  error if it cannot be made.
\<close>

section \<open>Flags\<close>

record debug_flags =
  df_cluster :: string
  df_namespace :: string
  df_nkey :: string
  df_account :: string

definition no_flags :: debug_flags where
  "no_flags = \<lparr>df_cluster = [], df_namespace = [], df_nkey = [], df_account = []\<rparr>"

definition setFlag :: "string \<Rightarrow> (string \<Rightarrow> debug_flags \<Rightarrow> debug_flags) option" where
  "setFlag a =
     (if a = ''--cluster'' then Some (\<lambda>v f. f\<lparr>df_cluster := v\<rparr>)
      else if a = ''--namespace'' then Some (\<lambda>v f. f\<lparr>df_namespace := v\<rparr>)
      else if a = ''--nkey'' then Some (\<lambda>v f. f\<lparr>df_nkey := v\<rparr>)
      else if a = ''--account'' then Some (\<lambda>v f. f\<lparr>df_account := v\<rparr>)
      else None)"

fun parseFlagsFrom :: "string list \<Rightarrow> debug_flags \<Rightarrow> goerr + debug_flags" where
  "parseFlagsFrom [] f = Inr f"
| "parseFlagsFrom [a] f =
     (case setFlag a of
        None \<Rightarrow> Inl (GoErr Other (''unknown flag: '' @ a))
      | Some set' \<Rightarrow> Inl (GoErr Other (a @ '' requires a value'')))"
| "parseFlagsFrom (a # v # rest) f =
     (case setFlag a of
        None \<Rightarrow> Inl (GoErr Other (''unknown flag: '' @ a))
      | Some set' \<Rightarrow> parseFlagsFrom rest (set' v f))"

definition parseFlags :: "string list \<Rightarrow> goerr + debug_flags" where
  "parseFlags args = parseFlagsFrom args no_flags"

section \<open>The servers\<close>

text \<open>The loop over the pods: a map from the name of a pod to its URL, which the last pod of a name wins.\<close>

fun podURLs :: "int32 \<Rightarrow> pod list \<Rightarrow> string gomap \<Rightarrow> string gomap" where
  "podURLs port [] urls = urls"
| "podURLs port (p # ps) urls =
     (if pod_phase p \<noteq> PodRunning then podURLs port ps urls
      else if pod_ip p = [] then podURLs port ps urls
      else podURLs port ps (AList.update (pod_name p) (''http://'' @ pod_ip p @ '':'' @ show_int (sint port)) urls))"

definition monitoringPort :: "nats_cluster \<Rightarrow> int32" where
  "monitoringPort cluster = (case cs_monitoring_port (cl_spec cluster) of None \<Rightarrow> 8222 | Some p \<Rightarrow> p)"

definition discoverPodURLs :: "env \<Rightarrow> string \<Rightarrow> string \<Rightarrow> (goerr + string gomap) io" where
  "discoverPodURLs env clusterName namespace =
     do {
       r \<leftarrow> GetCluster env (namespace, clusterName);
       (case r of
          Inl err \<Rightarrow> State_Monad.return (Inl (wrap (''getting NatsCluster '' @ namespace @ ''/'' @ clusterName) err))
        | Inr cluster \<Rightarrow>
            (case cs_server_ref (cl_spec cluster) of
               None \<Rightarrow> State_Monad.return (Inl (GoErr Other
                  (''NatsCluster '' @ namespace @ ''/'' @ clusterName @ '' has no serverRef configured'')))
             | Some ref \<Rightarrow> do {
                 s \<leftarrow> podSelectorOf env ref namespace;
                 (case s of
                    Inl err \<Rightarrow> State_Monad.return (Inl err)
                  | Inr podSelector \<Rightarrow>
                      (case e_selector env podSelector of
                         Inl err \<Rightarrow> State_Monad.return (Inl (wrap ''parsing label selector'' err))
                       | Inr selector \<Rightarrow> do {
                           l \<leftarrow> ListPods env namespace selector;
                           State_Monad.return
                             (case l of
                                Inl err \<Rightarrow> Inl (wrap ''listing pods'' err)
                              | Inr pods \<Rightarrow>
                                  let urls = podURLs (monitoringPort cluster) pods [] in
                                  if length urls = 0 then
                                    Inl (GoErr Other (''no running pods found for '' @ wr_kind ref @ '' '' @ namespace
                                      @ ''/'' @ wr_name ref))
                                  else Inr urls)
                         }))
               }))
     }"

definition sortedServers :: "server_connections list \<Rightarrow> server_connections list" where
  "sortedServers servers = sort_key sc_server_name servers"

text \<open>The set of items seen is the set of those already in the result.\<close>

fun uniqueItems :: "string list \<Rightarrow> string list \<Rightarrow> string list" where
  "uniqueItems [] result = result"
| "uniqueItems (item # items) result =
     (if item \<notin> set result then uniqueItems items (result @ [item]) else uniqueItems items result)"

definition uniqueSorted :: "string list \<Rightarrow> string list" where
  "uniqueSorted items = sort (uniqueItems items [])"

section \<open>Diagnostics\<close>

definition reasonOrUnknown :: "string \<Rightarrow> string" where
  "reasonOrUnknown reason = (if reason = [] then ''(unknown)'' else reason)"

record closed_conn_summary =
  cc_server :: string
  cc_conn :: connection_info

text \<open>The two loops over the servers that answered, for one of the two lists.\<close>

definition closedMatching :: "(connection_info \<Rightarrow> bool) \<Rightarrow> server_connections list \<Rightarrow> closed_conn_summary list" where
  "closedMatching P results =
     concat (map (\<lambda>s. if sc_error s \<noteq> None then []
       else map (\<lambda>c. \<lparr>cc_server = sc_server_name s, cc_conn = c\<rparr>) (filter P (sc_connections s))) results)"

abbreviation authorization_violation :: string where
  "authorization_violation \<equiv> ''Authorization Violation''"

definition closedAt :: "connection_info \<Rightarrow> string" where
  "closedAt c = (if ci_stop c \<noteq> [] then '' | Closed: '' @ ci_stop c else [])"

definition recentClosedLine :: "closed_conn_summary \<Rightarrow> string" where
  "recentClosedLine s =
     ''      Server: '' @ cc_server s @ '' | Reason: '' @ reasonOrUnknown (ci_reason (cc_conn s))
     @ '' | IP: '' @ ci_ip (cc_conn s) @ '':'' @ show_int64 (ci_port (cc_conn s)) @ closedAt (cc_conn s) @ NL"

definition violationLine :: "closed_conn_summary \<Rightarrow> string" where
  "violationLine s =
     ''      Server: '' @ cc_server s @ '' | IP: '' @ ci_ip (cc_conn s) @ '':'' @ show_int64 (ci_port (cc_conn s))
     @ (if ci_nkey (cc_conn s) \<noteq> [] then '' | NKey: '' @ ci_nkey (cc_conn s) else []) @ closedAt (cc_conn s) @ NL"

text \<open>The last five, the latest first.\<close>

definition latest :: "'a list \<Rightarrow> 'a list" where
  "latest xs = take 5 (rev xs)"

text \<open>The source also counts the closed connections of the key once more and does not use the number.\<close>

definition closedReport :: "server_connections list \<Rightarrow> string \<Rightarrow> string" where
  "closedReport closedResults nkey =
     (let recentClosed = closedMatching (\<lambda>c. ci_nkey c = nkey) closedResults;
          authViolations = closedMatching (\<lambda>c. ci_reason c = authorization_violation) closedResults in
      (if length recentClosed > 0 then
         ''  [!] Found '' @ show_nat (length recentClosed) @ '' recently closed connection(s) for this NKey:'' @ NL
         @ concat (map recentClosedLine (latest recentClosed)) @ NL
       else [])
      @ (if length authViolations > 0 then
         ''  [!] Found '' @ show_nat (length authViolations) @ '' recent '' @ [CHR 0x22] @ authorization_violation @ [CHR 0x22]
         @ '' across all users:'' @ NL
         @ concat (map violationLine (latest authViolations)) @ NL
       else [])
      @ (if length recentClosed = 0 \<and> length authViolations = 0 then
         ''  [ok] No recently closed connections or auth violations found'' @ NL
         @ ''       (client may not have attempted to connect yet)'' @ NL @ NL
       else []))"

definition checkClosedConnections :: "monitor_client \<Rightarrow> string gomap \<Rightarrow> string \<Rightarrow> string io" where
  "checkClosedConnections monClient serverURLs nkey =
     do {
       closedResults \<leftarrow> QueryAllServersClosed monClient serverURLs 100;
       State_Monad.return (closedReport closedResults nkey)
     }"

definition readyLine :: "condition list \<Rightarrow> string" where
  "readyLine conditions =
     (case find (\<lambda>c. cond_type c = ConditionReady) conditions of
        None \<Rightarrow> []
      | Some c \<Rightarrow>
          if cond_status c = ''True'' then ''  Ready:    True ('' @ cond_message c @ '')'' @ NL
          else ''  [!] Ready: '' @ cond_status c @ '' | Reason: '' @ cond_reason c @ '' | '' @ cond_message c @ NL)"

definition secretReport :: "env \<Rightarrow> nats_user \<Rightarrow> string \<Rightarrow> string io" where
  "secretReport env user nkey =
     (case ust_secret_ref (u_status user) of
        None \<Rightarrow> State_Monad.return []
      | Some secretName \<Rightarrow> do {
          r \<leftarrow> GetSecret env (user_namespace user, secretName);
          State_Monad.return
            (case r of
               Inl err \<Rightarrow> ''  [!] Secret '' @ secretName @ '' not found: '' @ emsg err @ NL
             | Inr sec \<Rightarrow>
                 let storedPubKey = (case sec_data sec of None \<Rightarrow> [] | Some d \<Rightarrow> map_get [] d ''nkey-public'') in
                 if storedPubKey \<noteq> nkey then
                   ''  [!] NKey MISMATCH: Secret has '' @ storedPubKey @ '', expected '' @ nkey @ NL
                   @ ''      The secret was likely regenerated. Restart the client to pick up the new seed.'' @ NL
                 else ''  Secret:   '' @ user_namespace user @ ''/'' @ secretName @ '' (nkey-public matches)'' @ NL)
        })"

definition maxConnectionsOf :: "nats_account \<Rightarrow> int64 option" where
  "maxConnectionsOf acct = (case as_limits (ac_spec acct) of None \<Rightarrow> None | Some l \<Rightarrow> al_max_connections l)"

definition userLimitReport :: "env \<Rightarrow> nats_user \<Rightarrow> string io" where
  "userLimitReport env user =
     do {
       r \<leftarrow> GetAccount env (nor_namespace (us_account_ref (u_spec user)), nor_name (us_account_ref (u_spec user)));
       State_Monad.return
         (case r of
            Inl err \<Rightarrow> []
          | Inr acct \<Rightarrow>
              (case maxConnectionsOf acct of
                 None \<Rightarrow> []
               | Some maxConn \<Rightarrow>
                   ''  Account limit: maxConnections='' @ show_int64 maxConn
                   @ '' (check account-connections to see current count)'' @ NL @ NL))
     }"

definition checkNatsUserStatus :: "env \<Rightarrow> string \<Rightarrow> bool \<Rightarrow> string io" where
  "checkNatsUserStatus env nkey nkeyInConfig =
     do {
       r \<leftarrow> ListUsers env;
       (case r of
          Inl err \<Rightarrow> State_Monad.return (''  [?] Could not list NatsUsers: '' @ emsg err @ NL @ NL)
        | Inr users \<Rightarrow>
            (case find (\<lambda>u. ust_nkey_public_key (u_status u) = nkey) users of
               None \<Rightarrow> State_Monad.return
                 (''  [!] No NatsUser found with NKey '' @ nkey @ NL
                  @ ''      The user CR may have been deleted or not yet reconciled.'' @ NL @ NL)
             | Some user \<Rightarrow> do {
                 secretText \<leftarrow> secretReport env user nkey;
                 limitText \<leftarrow> (if \<not> nkeyInConfig then State_Monad.return [] else userLimitReport env user);
                 State_Monad.return
                   (''  NatsUser: '' @ user_namespace user @ ''/'' @ user_name user @ NL
                    @ ''  Account:  '' @ nor_namespace (us_account_ref (u_spec user)) @ ''/''
                    @ nor_name (us_account_ref (u_spec user)) @ NL
                    @ readyLine (ust_conditions (u_status user)) @ secretText @ NL @ limitText)
               }))
     }"

section \<open>The configured permissions of a key\<close>

fun nkeyLine :: "string \<Rightarrow> nat \<Rightarrow> string list \<Rightarrow> nat option" where
  "nkeyLine nkey i [] = None"
| "nkeyLine nkey i (line # lines) =
     (if Contains line (''nkey: '' @ nkey) then Some i else nkeyLine nkey (i + 1) lines)"

fun walkBack :: "string list \<Rightarrow> nat \<Rightarrow> nat" where
  "walkBack lines 0 = 0"
| "walkBack lines (Suc i) = (if \<not> Contains (lines ! Suc i) ''{'' then walkBack lines i else Suc i)"

definition braces :: "string \<Rightarrow> int" where
  "braces line = int (count_list line (CHR ''{'')) - int (count_list line (CHR ''}''))"

text \<open>The walk forward from line \<open>i\<close>; the list holds the lines from there on.\<close>

fun walkForward :: "int \<Rightarrow> nat \<Rightarrow> string list \<Rightarrow> nat" where
  "walkForward depth i [] = i"
| "walkForward depth i (line # lines) =
     (if depth + braces line \<le> 0 then i else walkForward (depth + braces line) (i + 1) lines)"

definition permissionBlock :: "string list \<Rightarrow> string \<Rightarrow> string list option" where
  "permissionBlock lines nkey =
     (case nkeyLine nkey 0 lines of
        None \<Rightarrow> None
      | Some nkeyLineIdx \<Rightarrow>
          let startIdx = walkBack lines nkeyLineIdx;
              endIdx = walkForward 0 startIdx (drop startIdx lines)
          in Some (drop startIdx (take (endIdx + 1) lines)))"

definition showConfiguredPermissions :: "string \<Rightarrow> string \<Rightarrow> string" where
  "showConfiguredPermissions authConf nkey =
     (case permissionBlock (Split authConf (CHR 0x0A)) nkey of
        None \<Rightarrow> []
      | Some lines \<Rightarrow>
          ''  Configured permissions (from auth.conf):'' @ NL
          @ concat (map (\<lambda>line. ''    '' @ TrimRight line (CHR '' '') @ NL) lines) @ NL)"

definition showHelpfulCommands :: "nats_cluster \<Rightarrow> string \<Rightarrow> string \<Rightarrow> string" where
  "showHelpfulCommands cluster configMapName namespace =
     ''  Useful commands:'' @ NL
     @ ''    View auth config:  kubectl get configmap '' @ configMapName @ '' -n '' @ namespace
     @ '' -o jsonpath='' @ [CHR 0x27] @ ''{.data.auth'' @ [CHR 0x5C] @ ''.conf}'' @ [CHR 0x27] @ NL
     @ (case cs_server_ref (cl_spec cluster) of
          None \<Rightarrow> []
        | Some ref \<Rightarrow>
            ''    View NATS logs:    kubectl logs '' @ ToLower (wr_kind ref) @ ''/'' @ wr_name ref @ '' -n '' @ namespace
            @ '' --tail=50 | grep -i auth'' @ NL)
     @ NL"

definition helpfulCommands :: "env \<Rightarrow> string \<Rightarrow> string \<Rightarrow> string io" where
  "helpfulCommands env clusterName namespace =
     do {
       r \<leftarrow> GetCluster env (namespace, clusterName);
       State_Monad.return
         (case r of Inl err \<Rightarrow> []
          | Inr cluster \<Rightarrow> showHelpfulCommands cluster (clusterName @ ''-nats-config'') namespace)
     }"

definition authConfOf :: "config_map \<Rightarrow> string" where
  "authConfOf cm = map_get [] (cm_data cm) ''auth.conf''"

definition keyReport :: "goerr + config_map \<Rightarrow> string \<Rightarrow> string \<Rightarrow> string" where
  "keyReport cm configMapName nkey =
     (case cm of
        Inl err \<Rightarrow> ''  [?] Could not read ConfigMap '' @ configMapName @ '': '' @ emsg err @ NL
      | Inr cm \<Rightarrow>
          if \<not> (authConfOf cm \<noteq> [] \<and> Contains (authConfOf cm) nkey) then
            ''  [!] NKey '' @ nkey @ '' NOT FOUND in auth.conf (ConfigMap '' @ configMapName @ '')'' @ NL
            @ ''      This user'' @ [CHR 0x27] @ ''s NKey is not in the NATS server config.'' @ NL
            @ ''      Likely causes:'' @ NL
            @ ''        - User denied by account'' @ [CHR 0x27] @ ''s userRules (namespace not allowed)'' @ NL
            @ ''        - NatsUser not yet reconciled'' @ NL @ NL
          else ''  [ok] NKey '' @ nkey @ '' is present in auth.conf'' @ NL @ NL)"

definition nkeyConfigured :: "goerr + config_map \<Rightarrow> string \<Rightarrow> bool" where
  "nkeyConfigured cm nkey =
     (let authConf = (case cm of Inl err \<Rightarrow> [] | Inr c \<Rightarrow> authConfOf c) in authConf \<noteq> [] \<and> Contains authConf nkey)"

definition runUserDiagnostics ::
  "env \<Rightarrow> monitor_client \<Rightarrow> string gomap \<Rightarrow> string \<Rightarrow> string \<Rightarrow> string \<Rightarrow> string io" where
  "runUserDiagnostics env monClient serverURLs clusterName namespace nkey =
     do {
       closedText \<leftarrow> checkClosedConnections monClient serverURLs nkey;
       cm \<leftarrow> GetConfigMap env (namespace, clusterName @ ''-nats-config'');
       statusText \<leftarrow> checkNatsUserStatus env nkey (nkeyConfigured cm nkey);
       helpText \<leftarrow> helpfulCommands env clusterName namespace;
       State_Monad.return
         (''Diagnostics:'' @ NL @ NL @ closedText
          @ keyReport cm (clusterName @ ''-nats-config'') nkey @ statusText
          @ (if nkeyConfigured cm nkey
             then showConfiguredPermissions (case cm of Inl err \<Rightarrow> [] | Inr c \<Rightarrow> authConfOf c) nkey else [])
          @ helpText)
     }"

section \<open>The connections of a user\<close>

definition totalConnections :: "server_connections list \<Rightarrow> nat" where
  "totalConnections servers =
     sum_list (map (\<lambda>s. if sc_error s \<noteq> None then 0 else length (sc_connections s)) servers)"

definition serverErrors :: "server_connections list \<Rightarrow> string list" where
  "serverErrors servers =
     concat (map (\<lambda>s. case sc_error s of None \<Rightarrow> [] | Some err \<Rightarrow> [''  '' @ sc_server_name s @ '': '' @ emsg err]) servers)"

definition connectedServers :: "server_connections list \<Rightarrow> server_connections list" where
  "connectedServers servers = filter (\<lambda>s. sc_error s = None \<and> length (sc_connections s) > 0) servers"

definition connectionText :: "nat \<Rightarrow> string \<Rightarrow> connection_info \<Rightarrow> string" where
  "connectionText connNum server conn =
     ''  Connection #'' @ show_nat connNum @ '' (server: '' @ server @ ''):'' @ NL
     @ ''    CID:            '' @ show_nat (unat (ci_cid conn)) @ NL
     @ ''    Remote:         '' @ ci_ip conn @ '':'' @ show_int64 (ci_port conn) @ NL
     @ (if ci_uptime conn \<noteq> [] then ''    Uptime:         '' @ ci_uptime conn @ NL else [])
     @ (if ci_rtt conn \<noteq> [] then ''    RTT:            '' @ ci_rtt conn @ NL else [])
     @ ''    Subscriptions:  '' @ show_int64 (ci_subscriptions conn) @ NL
     @ ''    Msgs In/Out:    '' @ show_int64 (ci_in_msgs conn) @ '' / '' @ show_int64 (ci_out_msgs conn) @ NL @ NL"

text \<open>The two loops, with the number of the last connection shown.\<close>

fun connectionsText :: "nat \<Rightarrow> string \<Rightarrow> connection_info list \<Rightarrow> string" where
  "connectionsText connNum server [] = []"
| "connectionsText connNum server (conn # conns) =
     connectionText (connNum + 1) server conn @ connectionsText (connNum + 1) server conns"

fun serversText :: "nat \<Rightarrow> server_connections list \<Rightarrow> string" where
  "serversText connNum [] = []"
| "serversText connNum (s # servers) =
     connectionsText connNum (sc_server_name s) (sc_connections s)
     @ serversText (connNum + length (sc_connections s)) servers"

definition userReport :: "server_connections list \<Rightarrow> string" where
  "userReport filtered =
     ''Status: CONNECTED ('' @ show_nat (totalConnections filtered) @ '' active connection(s) across ''
     @ show_nat (length (connectedServers filtered)) @ '' server(s))'' @ NL @ NL
     @ serversText 0 (sortedServers filtered)"

definition errorsText :: "string list \<Rightarrow> string" where
  "errorsText errors =
     (if length errors > 0 then ''Server errors:'' @ NL @ concat (map (\<lambda>e. e @ NL) errors) else [])"

text \<open>The result and what has been printed; the flags are checked before anything else happens.\<close>

definition runUserConnections :: "env \<Rightarrow> goerr option \<Rightarrow> string list \<Rightarrow> (goerr option \<times> string) io" where
  "runUserConnections env newClient args =
     (case parseFlags args of
        Inl err \<Rightarrow> State_Monad.return (Some err, [])
      | Inr f \<Rightarrow>
          if df_cluster f = [] \<or> df_namespace f = [] \<or> df_nkey f = [] then
            State_Monad.return (Some (GoErr Other ''--cluster, --namespace, and --nkey are required''), [])
          else (case newClient of
            Some err \<Rightarrow> State_Monad.return (Some err, [])
          | None \<Rightarrow> do {
              u \<leftarrow> discoverPodURLs env (df_cluster f) (df_namespace f);
              (case u of
                 Inl err \<Rightarrow> State_Monad.return (Some err, [])
               | Inr urls \<Rightarrow> do {
                   allResults \<leftarrow> QueryAllServers (HTTPMonitorClient env) urls;
                   let filtered = FilterByNKey allResults (df_nkey f);
                   body \<leftarrow>
                     (if totalConnections filtered > 0 then State_Monad.return (userReport filtered)
                      else do {
                        d \<leftarrow> runUserDiagnostics env (HTTPMonitorClient env) urls (df_cluster f) (df_namespace f) (df_nkey f);
                        State_Monad.return
                          (''Status: NOT CONNECTED (queried '' @ show_nat (length urls)
                           @ '' server(s), 0 connections found)'' @ NL @ NL @ d)
                      });
                   State_Monad.return
                     (None, ''User: '' @ df_nkey f @ NL @ body @ errorsText (serverErrors filtered))
                 })
            }))"

section \<open>The connections of an account\<close>

text \<open>The map from keys to the servers of their connections, as the loops fill it.\<close>

fun addConnections :: "string \<Rightarrow> connection_info list \<Rightarrow> string list gomap \<Rightarrow> string list gomap" where
  "addConnections server [] userConns = userConns"
| "addConnections server (conn # conns) userConns =
     addConnections server conns
       (AList.update (ci_nkey conn) (map_get [] userConns (ci_nkey conn) @ [server]) userConns)"

fun userConnections :: "server_connections list \<Rightarrow> string list gomap \<Rightarrow> string list gomap" where
  "userConnections [] userConns = userConns"
| "userConnections (s # servers) userConns =
     (if sc_error s \<noteq> None then userConnections servers userConns
      else userConnections servers (addConnections (sc_server_name s) (sc_connections s) userConns))"

definition accountReport :: "server_connections list \<Rightarrow> string" where
  "accountReport filtered =
     (let userConns = userConnections filtered [];
          serverSet = remdups (map sc_server_name (connectedServers filtered)) in
      ''Active Connections: '' @ show_nat (totalConnections filtered) @ '' (across '' @ show_nat (length userConns)
      @ '' user(s), '' @ show_nat (length serverSet) @ '' server(s))'' @ NL @ NL
      @ concat (map (\<lambda>nkey. ''  User '' @ nkey @ '' : '' @ show_nat (length (map_get [] userConns nkey))
          @ '' connection(s) ('' @ Join (uniqueSorted (map_get [] userConns nkey)) '', '' @ '')'' @ NL)
        (sort (map_keys userConns))))"

definition violationCount :: "server_connections list \<Rightarrow> nat" where
  "violationCount closedResults =
     length (closedMatching (\<lambda>c. ci_reason c = authorization_violation) closedResults)"

definition accountPresence :: "env \<Rightarrow> goerr + config_map \<Rightarrow> string \<Rightarrow> string \<Rightarrow> string" where
  "accountPresence env cm configMapName account =
     (case cm of
        Inl err \<Rightarrow> ''  [?] Could not read ConfigMap '' @ configMapName @ '': '' @ emsg err @ NL @ NL
      | Inr c \<Rightarrow>
          if \<not> Contains (authConfOf c) (account @ '' {'') then
            ''  [!] Account '' @ Quote (e_printable env) account @ '' NOT FOUND in auth.conf'' @ NL
            @ ''      The account may not have any allowed users, or may not reference this cluster.'' @ NL @ NL
          else ''  [ok] Account '' @ Quote (e_printable env) account @ '' is present in auth.conf'' @ NL @ NL)"

definition accountLimitText :: "goerr + nats_account \<Rightarrow> string" where
  "accountLimitText r =
     (case r of
        Inl err \<Rightarrow> []
      | Inr acct \<Rightarrow>
          (case maxConnectionsOf acct of
             None \<Rightarrow> []
           | Some maxConn \<Rightarrow> ''  Account limit: maxConnections='' @ show_int64 maxConn @ NL @ NL)
          @ ''  Configured users: '' @ show_nat (ast_user_count (ac_status acct)) @ NL @ NL)"

definition runAccountDiagnostics ::
  "env \<Rightarrow> monitor_client \<Rightarrow> string gomap \<Rightarrow> string \<Rightarrow> string \<Rightarrow> string \<Rightarrow> string io" where
  "runAccountDiagnostics env monClient serverURLs clusterName namespace account =
     do {
       closedResults \<leftarrow> QueryAllServersClosed monClient serverURLs 100;
       cm \<leftarrow> GetConfigMap env (namespace, clusterName @ ''-nats-config'');
       acct \<leftarrow> GetAccount env (namespace, account);
       helpText \<leftarrow> helpfulCommands env clusterName namespace;
       State_Monad.return
         (''Diagnostics:'' @ NL @ NL
          @ (if violationCount closedResults > 0 then
               ''  [!] Found '' @ show_nat (violationCount closedResults) @ '' recent '' @ [CHR 0x22]
               @ authorization_violation @ [CHR 0x22] @ '' in closed connections'' @ NL @ NL
             else [])
          @ accountPresence env cm (clusterName @ ''-nats-config'') account @ accountLimitText acct @ helpText)
     }"

definition runAccountConnections :: "env \<Rightarrow> goerr option \<Rightarrow> string list \<Rightarrow> (goerr option \<times> string) io" where
  "runAccountConnections env newClient args =
     (case parseFlags args of
        Inl err \<Rightarrow> State_Monad.return (Some err, [])
      | Inr f \<Rightarrow>
          if df_cluster f = [] \<or> df_namespace f = [] \<or> df_account f = [] then
            State_Monad.return (Some (GoErr Other ''--cluster, --namespace, and --account are required''), [])
          else (case newClient of
            Some err \<Rightarrow> State_Monad.return (Some err, [])
          | None \<Rightarrow> do {
              u \<leftarrow> discoverPodURLs env (df_cluster f) (df_namespace f);
              (case u of
                 Inl err \<Rightarrow> State_Monad.return (Some err, [])
               | Inr urls \<Rightarrow> do {
                   allResults \<leftarrow> QueryAllServers (HTTPMonitorClient env) urls;
                   let filtered = FilterByAccount allResults (df_account f);
                   body \<leftarrow>
                     (if totalConnections filtered > 0 then State_Monad.return (accountReport filtered)
                      else do {
                        d \<leftarrow> runAccountDiagnostics env (HTTPMonitorClient env) urls (df_cluster f) (df_namespace f)
                          (df_account f);
                        State_Monad.return
                          (''Active Connections: 0 (queried '' @ show_nat (length urls) @ '' server(s))'' @ NL @ NL @ d)
                      });
                   State_Monad.return (None, ''Account: '' @ df_account f @ NL @ body)
                 })
            }))"

section \<open>All connections, and the program\<close>

definition serverLine :: "server_connections \<Rightarrow> string" where
  "serverLine s =
     (case sc_error s of
        Some err \<Rightarrow> ''  '' @ sc_server_name s @ '': ERROR - '' @ emsg err @ NL
      | None \<Rightarrow> ''  '' @ sc_server_name s @ '': '' @ show_nat (length (sc_connections s)) @ '' connection(s)'' @ NL)"

definition connectionsReport :: "server_connections list \<Rightarrow> string" where
  "connectionsReport allResults =
     concat (map serverLine (sortedServers allResults))
     @ NL @ ''Total: '' @ show_nat (totalConnections (sortedServers allResults)) @ '' connection(s)'' @ NL"

definition runConnections :: "env \<Rightarrow> goerr option \<Rightarrow> string list \<Rightarrow> (goerr option \<times> string) io" where
  "runConnections env newClient args =
     (case parseFlags args of
        Inl err \<Rightarrow> State_Monad.return (Some err, [])
      | Inr f \<Rightarrow>
          if df_cluster f = [] \<or> df_namespace f = [] then
            State_Monad.return (Some (GoErr Other ''--cluster and --namespace are required''), [])
          else (case newClient of
            Some err \<Rightarrow> State_Monad.return (Some err, [])
          | None \<Rightarrow> do {
              u \<leftarrow> discoverPodURLs env (df_cluster f) (df_namespace f);
              (case u of
                 Inl err \<Rightarrow> State_Monad.return (Some err, [])
               | Inr urls \<Rightarrow> do {
                   allResults \<leftarrow> QueryAllServers (HTTPMonitorClient env) urls;
                   State_Monad.return
                     (None, ''Cluster: '' @ df_namespace f @ ''/'' @ df_cluster f @ NL
                            @ ''Servers queried: '' @ show_nat (length urls) @ NL @ NL @ connectionsReport allResults)
                 })
            }))"

text \<open>The exit status, the standard output and the standard error.\<close>

definition printUsage :: string where
  "printUsage =
     ''Usage: nats-debug <command> [flags]'' @ NL @ NL @ ''Commands:'' @ NL
     @ ''  user-connections       Check connections for a specific user by nkey'' @ NL
     @ ''  account-connections    Check connections for an account'' @ NL
     @ ''  connections            Overview of all connections'' @ NL"

definition exitWith :: "goerr option \<times> string \<Rightarrow> nat \<times> string \<times> string" where
  "exitWith r =
     (case fst r of None \<Rightarrow> (0, snd r, []) | Some err \<Rightarrow> (1, snd r, ''Error: '' @ emsg err @ NL))"

text \<open>The arguments are those after the name of the program.\<close>

definition nats_debug :: "env \<Rightarrow> goerr option \<Rightarrow> string list \<Rightarrow> (nat \<times> string \<times> string) io" where
  "nats_debug env newClient args =
     (case args of
        [] \<Rightarrow> State_Monad.return (1, [], printUsage)
      | cmd # rest \<Rightarrow>
          if cmd = ''user-connections'' then
            do { r \<leftarrow> runUserConnections env newClient rest; State_Monad.return (exitWith r) }
          else if cmd = ''account-connections'' then
            do { r \<leftarrow> runAccountConnections env newClient rest; State_Monad.return (exitWith r) }
          else if cmd = ''connections'' then
            do { r \<leftarrow> runConnections env newClient rest; State_Monad.return (exitWith r) }
          else State_Monad.return (1, [], ''Unknown command: '' @ cmd @ NL @ printUsage))"

section \<open>The tool changes nothing\<close>

text \<open>The requests a run may make: reads of the cluster, and requests to the monitoring endpoint of a running pod.\<close>

definition monitor_url :: "env \<Rightarrow> string \<Rightarrow> bool" where
  "monitor_url env url \<longleftrightarrow>
     (\<exists>w ns sel pods p port. e_list_pods env w ns sel = Inr pods \<and> p \<in> set pods \<and> pod_phase p = PodRunning \<and>
        pod_ip p \<noteq> [] \<and> url = ''http://'' @ pod_ip p @ '':'' @ show_int (sint (port :: int32)))"

definition inspects :: "env \<Rightarrow> event \<Rightarrow> bool" where
  "inspects env e \<longleftrightarrow> reads e \<or> (\<exists>url. monitor_url env url \<and> request_below url e)"

lemma emits_bind_wp:
  assumes "emits P m" "\<And>w. wp m (\<lambda>r _. Q r) w" "\<And>x. Q x \<Longrightarrow> emits P (f x)"
  shows "emits P (State_Monad.bind m f)"
  unfolding emits_def
proof
  fix w
  obtain x w1 where m: "run_state m w = (x, w1)" by force
  obtain evs1 where 1: "w_trace w1 = evs1 @ w_trace w" "list_all P evs1" "w_clock w \<le> w_clock w1"
    using assms(1) m by (rule emits_trace)
  have "Q x" using assms(2) [of w] m by (simp add: wp_def)
  obtain y w2 where f: "run_state (f x) w1 = (y, w2)" by force
  obtain evs2 where 2: "w_trace w2 = evs2 @ w_trace w1" "list_all P evs2" "w_clock w1 \<le> w_clock w2"
    using assms(3) [OF \<open>Q x\<close>] f by (rule emits_trace)
  show "\<exists>evs. w_trace (snd (run_state (State_Monad.bind m f) w)) = evs @ w_trace w \<and>
      list_all P evs \<and> w_clock w \<le> w_clock (snd (run_state (State_Monad.bind m f) w))"
    using m f 1 2 by (intro exI [of _ "evs2 @ evs1"]) simp
qed

definition urls_ok :: "env \<Rightarrow> string gomap \<Rightarrow> bool" where
  "urls_ok env urls \<longleftrightarrow> (\<forall>(n, url)\<in>set urls. monitor_url env url)"

lemma request_inspects: "monitor_url env url \<Longrightarrow> list_all (request_below url) evs \<Longrightarrow> list_all (inspects env) evs"
  by (auto simp: inspects_def list_all_iff)

lemma QueryAllServers_inspects:
  "urls_ok env urls \<Longrightarrow> emits (inspects env) (QueryAllServers (HTTPMonitorClient env) urls)"
proof (induction urls)
  case (Cons p urls)
  obtain name url where p: "p = (name, url)" by force
  from Cons.prems have ok: "monitor_url env url" "urls_ok env urls" by (auto simp: urls_ok_def p)
  show ?case
    unfolding p QueryAllServers.simps
    by (intro emits_bind emits_return Cons.IH [OF ok(2)] emits_perform) (rule request_inspects [OF ok(1) http.connz_requests])
qed simp

lemma QueryAllServersClosed_inspects:
  "urls_ok env urls \<Longrightarrow> emits (inspects env) (QueryAllServersClosed (HTTPMonitorClient env) urls n)"
proof (induction urls)
  case (Cons p urls)
  obtain name url where p: "p = (name, url)" by force
  from Cons.prems have ok: "monitor_url env url" "urls_ok env urls" by (auto simp: urls_ok_def p)
  show ?case
    unfolding p QueryAllServersClosed.simps
    by (intro emits_bind emits_return Cons.IH [OF ok(2)] emits_perform) (rule request_inspects [OF ok(1) http.closed_requests])
qed simp

lemma reads_inspects: "emits reads m \<Longrightarrow> emits (inspects env) m"
  by (erule emits_mono) (simp add: inspects_def)

lemma inspects_simps [simp]: "inspects env (Got k n)" "inspects env (Listed k ns)"
  by (simp_all add: inspects_def)

lemma podURLs_set:
  "set (podURLs port ps urls) \<subseteq>
     set urls \<union> (\<lambda>p. (pod_name p, ''http://'' @ pod_ip p @ '':'' @ show_int (sint port))) `
       {p \<in> set ps. pod_phase p = PodRunning \<and> pod_ip p \<noteq> []}"
proof (induction port ps urls rule: podURLs.induct)
  case (2 port p ps urls)
  have upd: "set (AList.update k v m) \<subseteq> insert (k, v) (set m)" for k v and m :: "string gomap"
    by (induction m) auto
  show ?case
  proof (cases "pod_phase p \<noteq> PodRunning \<or> pod_ip p = []")
    case True
    with 2 show ?thesis by auto
  next
    case False
    let ?u = "''http://'' @ pod_ip p @ '':'' @ show_int (sint port)"
    have "set (podURLs port ps (AList.update (pod_name p) ?u urls)) \<subseteq>
        insert (pod_name p, ?u) (set urls) \<union> (\<lambda>p. (pod_name p, ''http://'' @ pod_ip p @ '':'' @ show_int (sint port))) `
       {p \<in> set ps. pod_phase p = PodRunning \<and> pod_ip p \<noteq> []}"
      using 2(3) False upd [of "pod_name p" ?u urls] by blast
    with False show ?thesis by auto
  qed
qed simp

lemma discoverPodURLs_inspects: "emits (inspects env) (discoverPodURLs env c ns)"
  unfolding discoverPodURLs_def GetCluster_def ListPods_def
  by (intro emits_bind emits_call emits_sum emits_option emits_return reads_inspects [OF podSelectorOf_reads]) simp_all

lemma discoverPodURLs_ok:
  "wp (discoverPodURLs env c ns) (\<lambda>r _. case r of Inl err \<Rightarrow> True | Inr urls \<Rightarrow> urls_ok env urls) w"
proof -
  have ok: "urls_ok env (podURLs port pods [])" if "e_list_pods env v n sel = Inr pods" for port pods v n sel
    using that podURLs_set [of port pods "[]"] unfolding urls_ok_def monitor_url_def by fastforce
  have listed: "wp (case s of Inl err \<Rightarrow> State_Monad.return (Inl err) | Inr podSelector \<Rightarrow> f podSelector)
      (\<lambda>r _. case r of Inl err \<Rightarrow> True | Inr urls \<Rightarrow> urls_ok env urls) v"
    if "\<And>x v. wp (f x) (\<lambda>r _. case r of Inl err \<Rightarrow> True | Inr urls \<Rightarrow> urls_ok env urls) v" for s f v
    using that by (intro wp_sum) simp_all
  show ?thesis
    unfolding discoverPodURLs_def GetCluster_def ListPods_def wp_bind wp_call
    apply (intro wp_sum wp_option)
      apply simp
     apply simp
    unfolding wp_bind
    by (rule wp_mono [OF wp_True]) (intro listed wp_sum, simp_all add: Let_def ok split: sum.split)
qed

lemma helpfulCommands_inspects: "emits (inspects env) (helpfulCommands env c ns)"
  unfolding helpfulCommands_def GetCluster_def by (intro emits_bind emits_call emits_return) simp

lemma checkNatsUserStatus_inspects: "emits (inspects env) (checkNatsUserStatus env nkey b)"
  unfolding checkNatsUserStatus_def secretReport_def userLimitReport_def ListUsers_def GetSecret_def GetAccount_def
  by (intro emits_bind emits_call emits_return emits_sum emits_option emits_if) simp_all

lemma runUserDiagnostics_inspects:
  assumes "urls_ok env urls"
  shows "emits (inspects env) (runUserDiagnostics env (HTTPMonitorClient env) urls c ns nkey)"
  unfolding runUserDiagnostics_def checkClosedConnections_def GetConfigMap_def
  by (intro emits_bind emits_call emits_return QueryAllServersClosed_inspects [OF assms] checkNatsUserStatus_inspects
      helpfulCommands_inspects) simp

lemma runAccountDiagnostics_inspects:
  assumes "urls_ok env urls"
  shows "emits (inspects env) (runAccountDiagnostics env (HTTPMonitorClient env) urls c ns account)"
  unfolding runAccountDiagnostics_def GetConfigMap_def GetAccount_def
  by (intro emits_bind emits_call emits_return QueryAllServersClosed_inspects [OF assms] helpfulCommands_inspects) simp_all

lemma emits_discovered:
  assumes "\<And>urls. urls_ok env urls \<Longrightarrow> emits (inspects env) (f urls)"
  shows "emits (inspects env) (do {
     u \<leftarrow> discoverPodURLs env c ns;
     (case u of Inl err \<Rightarrow> State_Monad.return (g err) | Inr urls \<Rightarrow> f urls) })"
  by (rule emits_bind_wp [OF discoverPodURLs_inspects discoverPodURLs_ok])
    (use assms in \<open>auto intro!: emits_sum\<close>)

lemma runUserConnections_inspects: "emits (inspects env) (runUserConnections env nc args)"
  unfolding runUserConnections_def Let_def
  by (intro emits_sum emits_option emits_if emits_return emits_discovered emits_bind QueryAllServers_inspects
      runUserDiagnostics_inspects)

lemma runAccountConnections_inspects: "emits (inspects env) (runAccountConnections env nc args)"
  unfolding runAccountConnections_def Let_def
  by (intro emits_sum emits_option emits_if emits_return emits_discovered emits_bind QueryAllServers_inspects
      runAccountDiagnostics_inspects)

lemma runConnections_inspects: "emits (inspects env) (runConnections env nc args)"
  unfolding runConnections_def
  by (intro emits_sum emits_option emits_if emits_return emits_discovered emits_bind QueryAllServers_inspects)

text \<open>
  C40. The tool only looks: whatever the command line and the cluster, a run creates, updates and executes nothing. It
  reads objects, and every HTTP request it makes goes to the monitoring endpoint of a pod that the API server listed as
  running, with an address.
\<close>
theorem nats_debug_only_inspects:
  "case run_state (nats_debug env newClient args) w of (r, w') \<Rightarrow>
     \<exists>evs. w_trace w' = evs @ w_trace w \<and>
       list_all (\<lambda>e. reads e \<or> (\<exists>url. monitor_url env url \<and> request_below url e)) evs"
proof -
  have "emits (inspects env) (nats_debug env newClient args)"
    unfolding nats_debug_def
    by (cases args) (auto intro!: emits_if emits_bind emits_return runUserConnections_inspects
        runAccountConnections_inspects runConnections_inspects)
  then obtain evs where "w_trace (snd (run_state (nats_debug env newClient args) w)) = evs @ w_trace w"
    "list_all (inspects env) evs"
    unfolding emits_def by blast
  then show ?thesis by (auto simp: inspects_def case_prod_beta list_all_iff)
qed

section \<open>The permissions shown are those of the key\<close>

text \<open>Trees whose blocks end where the braces say so: an entry opens as many braces as it closes.\<close>

primrec balanced :: "node \<Rightarrow> bool" where
  "balanced (Leaf s) = (braces s = 0)"
| "balanced (Block h ns) = (braces h + braces (closer h) = 0 \<and> 0 \<le> braces h \<and> list_all balanced ns)"

lemma braces_append [simp]: "braces (s @ t) = braces s + braces t"
  by (simp add: braces_def)

lemma braces_Nil [simp]: "braces [] = 0"
  by (simp add: braces_def)

lemma braces_Cons [simp]:
  "braces (c # s) = (if c = CHR ''{'' then 1 else if c = CHR ''}'' then - 1 else 0) + braces s"
  by (simp add: braces_def)

lemma braces_none: "CHR ''{'' \<notin> set s \<Longrightarrow> CHR ''}'' \<notin> set s \<Longrightarrow> braces s = 0"
  by (simp add: braces_def count_notin)

lemma braces_indentation [simp]: "braces (indentation n) = 0"
  by (induction n) (simp_all add: indentation_def Repeat_def braces_def)

lemma walk_node:
  assumes "balanced t" "0 < d"
  shows "walkForward d i (node_lines n t @ ls) = walkForward d (i + length (node_lines n t)) ls"
  using assms
proof (induction t arbitrary: n d i ls)
  case (Leaf s)
  then show ?case by simp
next
  case (Block h ns)
  have kids: "walkForward e j (concat (map (node_lines (Suc n)) ms) @ ls) =
      walkForward e (j + length (concat (map (node_lines (Suc n)) ms))) ls"
    if "set ms \<subseteq> set ns" "0 < e" for ms e j ls
    using that
  proof (induction ms arbitrary: j)
    case (Cons m ms)
    then have "balanced m" using Block.prems(1) by (auto simp: list_all_iff)
    with Block.IH [of m] Cons show ?case by (simp add: add.assoc)
  qed simp
  have h: "braces h + braces (closer h) = 0" "0 \<le> braces h" using Block.prems(1) by simp_all
  have "walkForward d i (node_lines n (Block h ns) @ ls) =
      walkForward (d + braces h) (i + 1 + length (concat (map (node_lines (Suc n)) ns))) ((indentation n @ closer h) # ls)"
    using Block.prems(2) h kids [of ns "d + braces h"] by simp
  also have "\<dots> = walkForward d (i + 1 + length (concat (map (node_lines (Suc n)) ns)) + 1) ls"
    using Block.prems(2) h by (simp add: add.assoc)
  finally show ?case by (simp add: add.assoc)
qed

lemma walk_nodes:
  assumes "list_all balanced ns" "0 < d"
  shows "walkForward d i (concat (map (node_lines n) ns) @ ls) =
    walkForward d (i + length (concat (map (node_lines n) ns))) ls"
  using assms by (induction ns arbitrary: i) (simp_all add: walk_node add.assoc)

lemma walk_block:
  assumes "list_all balanced ns" "braces h = 1" "closer h = ''}''"
  shows "walkForward 0 i (node_lines n (Block h ns) @ ls) + 1 = i + length (node_lines n (Block h ns))"
proof -
  have "braces ''}'' = -1" by (simp add: braces_def)
  then show ?thesis using assms walk_nodes [OF assms(1), of 1 "i + 1" "Suc n"] by simp
qed

lemma nkeyLine_skip:
  assumes "list_all (\<lambda>l. \<not> Contains l (''nkey: '' @ k)) pre"
  shows "nkeyLine k i (pre @ ls) = nkeyLine k (i + length pre) ls"
  using assms by (induction pre arbitrary: i) simp_all

lemma Contains_self: "Contains (a @ p @ b) p"
  unfolding Contains_iff by blast

lemma Contains_char: "Contains s [c] \<longleftrightarrow> c \<in> set s"
  unfolding Contains_iff by (auto simp: in_set_conv_decomp)

lemma no_nkey_in_blanks: "\<not> Contains (indentation n @ ''{'') (''nkey: '' @ k)"
proof
  assume "Contains (indentation n @ ''{'') (''nkey: '' @ k)"
  then obtain a b where "indentation n @ ''{'' = a @ (''nkey: '' @ k) @ b" unfolding Contains_iff by blast
  then have "CHR ''n'' \<in> set (indentation n @ ''{'')" by simp
  then show False using set_Repeat [of "''  ''" n] by (auto simp: indentation_def)
qed

lemma permissionBlock_user:
  assumes lines: "lines = pre @ node_lines n (Block ''{'' (Leaf (''nkey: '' @ k) # ns)) @ post"
    and first: "list_all (\<lambda>l. \<not> Contains l (''nkey: '' @ k)) pre"
    and key: "CHR ''{'' \<notin> set k" "CHR ''}'' \<notin> set k" and ns: "list_all balanced ns"
  shows "permissionBlock lines k = Some (node_lines n (Block ''{'' (Leaf (''nkey: '' @ k) # ns)))"
proof -
  let ?t = "Block ''{'' (Leaf (''nkey: '' @ k) # ns)"
  let ?ls = "node_lines n ?t"
  have ls: "?ls = (indentation n @ ''{'') # (indentation (Suc n) @ ''nkey: '' @ k) # tl (tl ?ls)" by simp
  have "nkeyLine k (length pre) (?ls @ post) = Some (length pre + 1)"
    using no_nkey_in_blanks [of n k] Contains_self [of "indentation (Suc n)" "''nkey: '' @ k" "[]"] by simp
  then have idx: "nkeyLine k 0 lines = Some (Suc (length pre))"
    unfolding lines using nkeyLine_skip [OF first, of 0] by simp
  have "lines ! Suc (length pre) = indentation (Suc n) @ ''nkey: '' @ k"
    unfolding lines by (subst ls) (simp add: nth_append)
  moreover have "CHR ''{'' \<notin> set (indentation (Suc n) @ ''nkey: '' @ k)"
    using key(1) set_Repeat [of "''  ''" "Suc n"] by (auto simp: indentation_def)
  moreover have "lines ! length pre = indentation n @ ''{''"
    unfolding lines by (subst ls) (simp add: nth_append)
  ultimately have start: "walkBack lines (Suc (length pre)) = length pre"
    by (cases "length pre") (simp_all add: Contains_char)
  have "braces (''nkey: '' @ k) = 0" "braces ''{'' = 1"
    using key by (simp_all add: braces_def)
  then have "walkForward 0 (length pre) (?ls @ post) + 1 = length pre + length ?ls"
    using ns by (intro walk_block) (simp_all only: list.pred_inject balanced.simps closer_lits simp_thms)
  then have stop: "walkForward 0 (length pre) (drop (length pre) lines) + 1 = length pre + length ?ls"
    unfolding lines by simp
  show ?thesis
    unfolding permissionBlock_def idx option.case start Let_def stop unfolding lines by (simp del: node_lines.simps)
qed

text \<open>What an entry quotes: the subjects of its rules and the lifetime of its responses.\<close>

definition rule_subjects :: "permission_rule_config option \<Rightarrow> string list" where
  "rule_subjects r = (case r of None \<Rightarrow> [] | Some x \<Rightarrow> prc_allow x @ prc_deny x)"

definition quoted_of :: "user_config \<Rightarrow> string list" where
  "quoted_of u =
     (case uc_permissions u of None \<Rightarrow> []
      | Some p \<Rightarrow> rule_subjects (pc_publish p) @ rule_subjects (pc_subscribe p)
          @ (case pc_allow_responses p of None \<Rightarrow> []
             | Some r \<Rightarrow> (case rp_ttl r of None \<Rightarrow> [] | Some ttl \<Rightarrow> [ttl])))"

lemma braces_Join: "list_all (\<lambda>s. braces s = 0) ss \<Longrightarrow> braces (Join ss '', '') = 0"
  by (induction ss "'', ''" rule: Join.induct) (simp_all add: braces_def)

lemma braces_quotes:
  assumes "list_all (\<lambda>s. braces (Quote ip s) = 0) ss"
  shows "braces (quoteStrings ip ss) = 0"
  unfolding quoteStrings_def by (rule braces_Join) (use assms in \<open>simp add: list.pred_map comp_def\<close>)

lemma braces_number: "braces (show_int64 n) = 0"
proof -
  have "c \<noteq> CHR ''{'' \<and> c \<noteq> CHR ''}''" if "c \<in> set (show_int64 n)" for c
    using that by (auto simp: show_int64_def show_int_def is_digit_def dest!: show_nat_digits split: if_splits)
  then show ?thesis by (intro braces_none) blast+
qed

lemma balanced_rule:
  assumes "list_all (\<lambda>s. braces (Quote ip s) = 0) (rule_subjects r)" "name \<in> {''publish'', ''subscribe''}"
  shows "list_all balanced (rule_nodes ip name r)"
proof (cases r)
  case None
  then show ?thesis by (simp add: rule_nodes_def)
next
  case (Some x)
  then have "braces (quoteStrings ip (prc_allow x)) = 0" "braces (quoteStrings ip (prc_deny x)) = 0"
    using assms(1) by (simp_all add: rule_subjects_def braces_quotes)
  with Some assms(2) show ?thesis by (auto simp: rule_nodes_def list_entry_def closer_def)
qed

lemma balanced_responses:
  assumes "\<And>r ttl. ar = Some r \<Longrightarrow> rp_ttl r = Some ttl \<Longrightarrow> braces (Quote ip ttl) = 0"
  shows "list_all balanced (responses_nodes ip ar)"
  using assms by (auto simp: responses_nodes_def opt_entry_def braces_number split: option.split)

lemma balanced_permissions:
  assumes "list_all (\<lambda>s. braces (Quote ip s) = 0) (quoted_of u)"
  shows "list_all balanced (permissions_nodes ip (uc_permissions u))"
proof (cases "uc_permissions u")
  case None
  then show ?thesis by (simp add: permissions_nodes_def)
next
  case (Some p)
  have "list_all balanced (rule_nodes ip ''publish'' (pc_publish p))" "list_all balanced (rule_nodes ip ''subscribe'' (pc_subscribe p))"
    "list_all balanced (responses_nodes ip (pc_allow_responses p))"
    using assms Some by (auto simp: quoted_of_def intro!: balanced_rule balanced_responses split: option.splits)
  then show ?thesis by (simp add: permissions_nodes_def Some)
qed

lemma Split_text:
  assumes "list_all (\<lambda>l. CHR 0x0A \<notin> set l) ls"
  shows "Split (concat (map (\<lambda>l. l @ NL) ls) @ t) CHR 0x0A = ls @ Split t CHR 0x0A"
  using assms by (induction ls) (simp_all add: Split_line)

text \<open>
  C39. The permissions shown for a key are its own. In a configuration file as the operator writes it, with the key's
  entry at any place and any depth, the tool prints exactly the lines of this entry, from its opening brace to the brace that
  closes it, whatever precedes and follows, as long as no earlier line names the key and quoted texts do not open
  braces they leave open.
\<close>
theorem showConfiguredPermissions_exact:
  assumes "list_all (\<lambda>l. CHR 0x0A \<notin> set l \<and> \<not> Contains l (''nkey: '' @ uc_nkey u)) pre"
    and "CHR 0x0A \<notin> set (uc_nkey u)" "CHR ''{'' \<notin> set (uc_nkey u)" "CHR ''}'' \<notin> set (uc_nkey u)" "\<not> opens (uc_nkey u)"
    and "list_all (\<lambda>s. braces (Quote ip s) = 0) (quoted_of u)"
  shows "\<exists>ls. concat (map (\<lambda>l. l @ NL) ls) =
      indentation n @ ''{'' @ NL @ writeUser ip u (n + 1) @ indentation n @ ''}'' @ NL \<and>
    showConfiguredPermissions (concat (map (\<lambda>l. l @ NL) (pre @ ls)) @ post) (uc_nkey u) =
      ''  Configured permissions (from auth.conf):'' @ NL
      @ concat (map (\<lambda>l. ''    '' @ TrimRight l (CHR '' '') @ NL) ls) @ NL"
proof (intro exI conjI)
  let ?ls = "node_lines n (user_node ip u)"
  show "concat (map (\<lambda>l. l @ NL) ?ls) =
      indentation n @ ''{'' @ NL @ writeUser ip u (n + 1) @ indentation n @ ''}'' @ NL"
    unfolding layout_user [symmetric] by (simp add: layout_def)
  have "node_ok (user_node ip u)" using assms(2,5) by (intro user_ok) (simp add: value_ok_def)
  then have "list_all (\<lambda>l. CHR 0x0A \<notin> set l) (pre @ ?ls)"
    using assms(1) node_lines_closed [of "user_node ip u"] by (auto simp: list_all_iff)
  then have "Split (concat (map (\<lambda>l. l @ NL) (pre @ ?ls)) @ post) CHR 0x0A = pre @ ?ls @ Split post CHR 0x0A"
    by (simp add: Split_text del: map_append concat_append)
  moreover have "list_all (\<lambda>l. \<not> Contains l (''nkey: '' @ uc_nkey u)) pre"
    using assms(1) by (rule list.pred_mono_strong) blast
  ultimately have "permissionBlock (Split (concat (map (\<lambda>l. l @ NL) (pre @ ?ls)) @ post) CHR 0x0A) (uc_nkey u) = Some ?ls"
    unfolding user_node_def by (rule permissionBlock_user [OF _ _ assms(3,4) balanced_permissions [OF assms(6)]])
  then show "showConfiguredPermissions (concat (map (\<lambda>l. l @ NL) (pre @ ?ls)) @ post) (uc_nkey u) =
      ''  Configured permissions (from auth.conf):'' @ NL
      @ concat (map (\<lambda>l. ''    '' @ TrimRight l (CHR '' '') @ NL) ?ls) @ NL"
    by (simp only: showConfiguredPermissions_def option.case)
qed

definition sample_entry :: user_config where
  "sample_entry = \<lparr>uc_nkey = ''UAB'', uc_permissions = Some
     \<lparr>pc_publish = Some \<lparr>prc_allow = [''orders.{id}''], prc_deny = []\<rparr>, pc_subscribe = None, pc_allow_responses = None\<rparr>\<rparr>"

lemma sample_entry_text:
  "indentation 1 @ ''{'' @ NL @ writeUser (\<lambda>_. True) sample_entry 2 @ indentation 1 @ ''}'' @ NL = concat (map (\<lambda>l. l @ NL)
     [''  {'', ''    nkey: UAB'', ''    permissions {'', ''      publish {'',
      ''        allow: ['' @ [CHR 0x22] @ ''orders.{id}'' @ [CHR 0x22, CHR 0x5D], ''      }'', ''    }'', ''  }''])"
  by code_simp

theorem showConfiguredPermissions_exact_witness:
  "\<exists>ls. concat (map (\<lambda>l. l @ NL) ls) = concat (map (\<lambda>l. l @ NL)
     [''  {'', ''    nkey: UAB'', ''    permissions {'', ''      publish {'',
      ''        allow: ['' @ [CHR 0x22] @ ''orders.{id}'' @ [CHR 0x22, CHR 0x5D], ''      }'', ''    }'', ''  }'']) \<and>
    showConfiguredPermissions (concat (map (\<lambda>l. l @ NL) ([''users = ['', ''nkey: UAA''] @ ls)) @ '']'') ''UAB'' =
      ''  Configured permissions (from auth.conf):'' @ NL
      @ concat (map (\<lambda>l. ''    '' @ TrimRight l (CHR '' '') @ NL) ls) @ NL"
proof -
  have key: "uc_nkey sample_entry = ''UAB''" by (simp add: sample_entry_def)
  have "list_all (\<lambda>s. braces (Quote (\<lambda>_. True) s) = 0) (quoted_of sample_entry)" by code_simp
  moreover have "list_all (\<lambda>l. CHR 0x0A \<notin> set l \<and> \<not> Contains l (''nkey: '' @ ''UAB'')) [''users = ['', ''nkey: UAA'']"
    by code_simp
  ultimately show ?thesis
    using showConfiguredPermissions_exact [of sample_entry "[''users = ['', ''nkey: UAA'']" "\<lambda>_. True" 1 "'']''"]
    unfolding one_add_one sample_entry_text key by (simp add: opens_def)
qed

end
