(* ===== verification/E2EUtils.thy ===== *)
theory E2EUtils
  imports GoPrelude GoStrings GoQuote "HOL-Library.Sublist"
begin

text \<open>
  \<open>test/utils/utils.go\<close>, what the end-to-end tests use to prepare a cluster: commands run in the project directory, and a
  function that uncomments a piece of a file. The commands, the file system and the environment variables are parameters.
\<close>

section \<open>Strings\<close>

text \<open>\<open>strings.ReplaceAll\<close>, for a text to be replaced that is not empty: its first character is given apart.\<close>

function ReplaceAll :: "string \<Rightarrow> char \<Rightarrow> string \<Rightarrow> string \<Rightarrow> string" where
  "ReplaceAll s c old new =
     (case s of
        [] \<Rightarrow> []
      | x # s' \<Rightarrow>
          if prefix (c # old) s then new @ ReplaceAll (drop (length (c # old)) s) c old new
          else x # ReplaceAll s' c old new)"
  by auto
termination by (relation "measure (\<lambda>(s, c, old, new). length s)") auto

declare ReplaceAll.simps [simp del]

text \<open>\<open>strings.Index\<close>, no result standing for -1.\<close>

fun Index :: "string \<Rightarrow> string \<Rightarrow> nat option" where
  "Index [] p = (if p = [] then Some 0 else None)"
| "Index (x # s) p = (if prefix p (x # s) then Some 0 else map_option Suc (Index s p))"

lemma Index_Some: "Index s p = Some i \<Longrightarrow> s = take i s @ p @ drop (i + length p) s"
  by (induction s arbitrary: i) (auto simp: prefix_def split: if_splits)

lemma Index_None: "Index s p = None \<longleftrightarrow> \<not> Contains s p"
proof (induction s)
  case Nil
  then show ?case by (simp add: Contains_iff)
next
  case (Cons x s)
  have "Contains (x # s) p \<longleftrightarrow> prefix p (x # s) \<or> Contains s p"
    unfolding Contains_iff prefix_def by (auto simp: Cons_eq_append_conv)
  with Cons show ?case by simp
qed

text \<open>
  \<open>bufio.Scanner\<close> over lines: a carriage return at the end of a line is dropped, a last line needs no line feed but
  is not empty, and a line that does not fit into the buffer of 64 kB ends the scan silently.
\<close>

definition dropCR :: "string \<Rightarrow> string" where
  "dropCR l = (if l \<noteq> [] \<and> last l = CHR 0x0D then butlast l else l)"

definition scanLines :: "string \<Rightarrow> string list" where
  "scanLines s =
     (let pieces = Split s (CHR 0x0A); raw = (if last pieces = [] then butlast pieces else pieces)
      in map dropCR (takeWhile (\<lambda>l. length l < 64 * 1024) raw))"

section \<open>Commands\<close>

record command =
  cm_args :: "string list"
  cm_dir :: string
  cm_env :: "string list"

text \<open>The state of a test: its working directory, and the commands run so far, newest first.\<close>

record test_state =
  ts_cwd :: string
  ts_commands :: "command list"

record shell =
  sh_getwd :: "test_state \<Rightarrow> goerr option"
  sh_chdir :: "test_state \<Rightarrow> string \<Rightarrow> goerr option"
  sh_environ :: "string list"
  sh_lookup :: "string \<Rightarrow> string option"
  sh_run :: "test_state \<Rightarrow> command \<Rightarrow> string \<times> goerr option"
  sh_printable :: "nat \<Rightarrow> bool"

type_synonym 'a test = "(test_state, 'a) state"

definition GetProjectDir :: "shell \<Rightarrow> (string \<times> goerr option) test" where
  "GetProjectDir sh =
     do {
       st \<leftarrow> State_Monad.get;
       State_Monad.return
         (case sh_getwd sh st of
            Some err \<Rightarrow> ([], Some (wrap ''failed to get current working directory'' err))
          | None \<Rightarrow> (ReplaceAll (ts_cwd st) (CHR ''/'') ''test/e2e'' [], None))
     }"

text \<open>The directory is changed if possible; failing to find or to enter it is not an error of the command.\<close>

definition Run :: "shell \<Rightarrow> string list \<Rightarrow> (string \<times> goerr option) test" where
  "Run sh args =
     do {
       (dir, _) \<leftarrow> GetProjectDir sh;
       st \<leftarrow> State_Monad.get;
       _ \<leftarrow> State_Monad.set (if sh_chdir sh st dir = None then st\<lparr>ts_cwd := dir\<rparr> else st);
       st \<leftarrow> State_Monad.get;
       let cmd = \<lparr>cm_args = args, cm_dir = dir, cm_env = sh_environ sh @ [''GO111MODULE=on'']\<rparr>;
       _ \<leftarrow> State_Monad.set (st\<lparr>ts_commands := cmd # ts_commands st\<rparr>);
       State_Monad.return
         (case sh_run sh st cmd of
            (output, None) \<Rightarrow> (output, None)
          | (output, Some err) \<Rightarrow>
              (output, Some (wrap (Quote (sh_printable sh) (Join args '' '') @ '' failed with error ''
                                   @ Quote (sh_printable sh) output) err)))
     }"

definition prometheusOperatorURL :: string where
  "prometheusOperatorURL =
     ''https://github.com/prometheus-operator/prometheus-operator/releases/download/v0.77.1/bundle.yaml''"

definition certmanagerURL :: string where
  "certmanagerURL = ''https://github.com/cert-manager/cert-manager/releases/download/v1.16.3/cert-manager.yaml''"

definition InstallPrometheusOperator :: "shell \<Rightarrow> goerr option test" where
  "InstallPrometheusOperator sh =
     do { (_, err) \<leftarrow> Run sh [''kubectl'', ''create'', ''-f'', prometheusOperatorURL]; State_Monad.return err }"

definition UninstallPrometheusOperator :: "shell \<Rightarrow> unit test" where
  "UninstallPrometheusOperator sh =
     do { _ \<leftarrow> Run sh [''kubectl'', ''delete'', ''-f'', prometheusOperatorURL]; State_Monad.return () }"

definition UninstallCertManager :: "shell \<Rightarrow> unit test" where
  "UninstallCertManager sh =
     do { _ \<leftarrow> Run sh [''kubectl'', ''delete'', ''-f'', certmanagerURL]; State_Monad.return () }"

definition InstallCertManager :: "shell \<Rightarrow> goerr option test" where
  "InstallCertManager sh =
     do {
       (_, err) \<leftarrow> Run sh [''kubectl'', ''apply'', ''-f'', certmanagerURL];
       (case err of
          Some e \<Rightarrow> State_Monad.return (Some e)
        | None \<Rightarrow> do {
            (_, err) \<leftarrow> Run sh [''kubectl'', ''wait'', ''deployment.apps/cert-manager-webhook'', ''--for'',
              ''condition=Available'', ''--namespace'', ''cert-manager'', ''--timeout'', ''5m''];
            State_Monad.return err
          })
     }"

definition GetNonEmptyLines :: "string \<Rightarrow> string list" where
  "GetNonEmptyLines output = filter (\<lambda>element. element \<noteq> []) (Split output (CHR 0x0A))"

text \<open>The two nested loops that return true at the first line that mentions one of the names.\<close>

definition mentionsCRD :: "string list \<Rightarrow> string \<Rightarrow> bool" where
  "mentionsCRD crds output = list_ex (\<lambda>crd. list_ex (\<lambda>line. Contains line crd) (GetNonEmptyLines output)) crds"

definition prometheusCRDs :: "string list" where
  "prometheusCRDs =
     [''prometheuses.monitoring.coreos.com'', ''prometheusrules.monitoring.coreos.com'',
      ''prometheusagents.monitoring.coreos.com'']"

definition certManagerCRDs :: "string list" where
  "certManagerCRDs =
     [''certificates.cert-manager.io'', ''issuers.cert-manager.io'', ''clusterissuers.cert-manager.io'',
      ''certificaterequests.cert-manager.io'', ''orders.acme.cert-manager.io'', ''challenges.acme.cert-manager.io'']"

definition IsPrometheusCRDsInstalled :: "shell \<Rightarrow> bool test" where
  "IsPrometheusCRDsInstalled sh =
     do {
       (output, err) \<leftarrow> Run sh [''kubectl'', ''get'', ''crds'', ''-o'', ''custom-columns=NAME:.metadata.name''];
       State_Monad.return (err = None \<and> mentionsCRD prometheusCRDs output)
     }"

definition IsCertManagerCRDsInstalled :: "shell \<Rightarrow> bool test" where
  "IsCertManagerCRDsInstalled sh =
     do {
       (output, err) \<leftarrow> Run sh [''kubectl'', ''get'', ''crds''];
       State_Monad.return (err = None \<and> mentionsCRD certManagerCRDs output)
     }"

definition LoadImageToKindClusterWithName :: "shell \<Rightarrow> string \<Rightarrow> goerr option test" where
  "LoadImageToKindClusterWithName sh name =
     do {
       let cluster = (case sh_lookup sh ''KIND_CLUSTER'' of None \<Rightarrow> ''kind'' | Some v \<Rightarrow> v);
       (_, err) \<leftarrow> Run sh [''kind'', ''load'', ''docker-image'', name, ''--name'', cluster];
       State_Monad.return err
     }"

section \<open>Uncommenting\<close>

text \<open>What is to be written to the file, if anything; the buffer never refuses a write.\<close>

definition uncommented :: "(nat \<Rightarrow> bool) \<Rightarrow> string \<Rightarrow> string \<Rightarrow> string \<Rightarrow> goerr + string option" where
  "uncommented pr content target pfx =
     (case Index content target of
        None \<Rightarrow> Inl (GoErr Other (''unable to find the code '' @ Quote pr target @ '' to be uncomment''))
      | Some idx \<Rightarrow>
          Inr (if scanLines target = [] then None
               else Some (take idx content @ Join (map (\<lambda>l. TrimPrefix l pfx) (scanLines target)) [CHR 0x0A]
                          @ drop (idx + length target) content)))"

definition UncommentCode ::
  "(nat \<Rightarrow> bool) \<Rightarrow> (string \<Rightarrow> goerr + string) \<Rightarrow> (string \<Rightarrow> string \<Rightarrow> goerr option) \<Rightarrow>
     string \<Rightarrow> string \<Rightarrow> string \<Rightarrow> goerr option \<times> (string \<times> string) option" where
  "UncommentCode pr ReadFile WriteFile filename target pfx =
     (case ReadFile filename of
        Inl err \<Rightarrow> (Some (wrap (''failed to read file '' @ Quote pr filename) err), None)
      | Inr content \<Rightarrow>
          (case uncommented pr content target pfx of
             Inl err \<Rightarrow> (Some err, None)
           | Inr None \<Rightarrow> (None, None)
           | Inr (Some out) \<Rightarrow>
               (map_option (wrap (''failed to write file '' @ Quote pr filename)) (WriteFile filename out),
                Some (filename, out))))"

section \<open>What the helpers do\<close>

lemma ReplaceAll_none: "\<not> Contains s (c # old) \<Longrightarrow> ReplaceAll s c old new = s"
proof (induction s)
  case (Cons x s)
  then have "\<not> prefix (c # old) (x # s)" "\<not> Contains s (c # old)"
    using Cons.prems unfolding Contains_iff prefix_def by (metis append_Cons append_Nil)+
  with Cons.IH show ?case by (subst ReplaceAll.simps) auto
qed (simp add: ReplaceAll.simps)

text \<open>Every command runs in the project directory and is the newest one of the test.\<close>

lemma Run_in_project:
  assumes "sh_getwd sh st = None"
  shows "wp (Run sh args) (\<lambda>_ st'. \<exists>cmd. ts_commands st' = cmd # ts_commands st \<and> cm_args cmd = args \<and>
      cm_dir cmd = ReplaceAll (ts_cwd st) (CHR ''/'') ''test/e2e'' [] \<and> ''GO111MODULE=on'' \<in> set (cm_env cmd)) st"
  using assms by (simp add: Run_def GetProjectDir_def Let_def split: prod.splits option.splits)

text \<open>The definitions of a custom resource are found exactly if the list could be read and one of its lines has one of the names.\<close>

lemma mentionsCRD_iff:
  assumes "\<forall>crd\<in>set crds. crd \<noteq> []"
  shows "mentionsCRD crds output \<longleftrightarrow> (\<exists>crd\<in>set crds. \<exists>line\<in>set (Split output (CHR 0x0A)). Contains line crd)"
proof -
  have "line \<noteq> []" if "Contains line crd" "crd \<in> set crds" for line crd
    using that assms by (auto simp: Contains_iff)
  then show ?thesis
    by (fastforce simp: mentionsCRD_def list_ex_iff GetNonEmptyLines_def)
qed

lemma Split_Join: "ls \<noteq> [] \<Longrightarrow> \<forall>l\<in>set ls. c \<notin> set l \<Longrightarrow> Split (Join ls [c]) c = ls"
  by (induction ls "[c]" rule: Join.induct) (simp_all add: Split_line Split_no_sep)

lemma scanLines_Join:
  assumes "ls \<noteq> []" "last ls \<noteq> []" "\<forall>l\<in>set ls. CHR 0x0A \<notin> set l \<and> length l < 64 * 1024 \<and> dropCR l = l"
  shows "scanLines (Join ls [CHR 0x0A]) = ls"
proof -
  have "Split (Join ls [CHR 0x0A]) (CHR 0x0A) = ls" using assms by (intro Split_Join) auto
  moreover have "takeWhile (\<lambda>l. length l < 64 * 1024) ls = ls" using assms(3) by (simp add: takeWhile_eq_all_conv)
  moreover have "map dropCR ls = ls" using assms(3) by (simp add: map_idI)
  ultimately show ?thesis using assms(2) unfolding scanLines_def Let_def by (simp only: if_False)
qed

text \<open>
  Commenting lines out and uncommenting them gives back the file, as long as no line is too long for the scanner or ends in a carriage
  return, which it drops.
\<close>

definition commented :: "string \<Rightarrow> string list \<Rightarrow> string" where
  "commented pfx ls = Join (map (\<lambda>l. pfx @ l) ls) [CHR 0x0A]"

lemma uncommented_commented:
  assumes "ls \<noteq> []" "pfx @ last ls \<noteq> []"
    and "\<forall>l\<in>set ls. CHR 0x0A \<notin> set (pfx @ l) \<and> length (pfx @ l) < 64 * 1024 \<and> dropCR (pfx @ l) = pfx @ l"
    and "Index (a @ commented pfx ls @ b) (commented pfx ls) = Some (length a)"
  shows "uncommented pr (a @ commented pfx ls @ b) (commented pfx ls) pfx = Inr (Some (a @ Join ls [CHR 0x0A] @ b))"
proof -
  have "scanLines (commented pfx ls) = map (\<lambda>l. pfx @ l) ls"
    unfolding commented_def using assms(1-3) by (intro scanLines_Join) (auto simp: last_map)
  then show ?thesis
    using assms(1,4) by (simp add: uncommented_def comp_def)
qed

lemma uncommented_example:
  "uncommented (\<lambda>_. True) (''a: 1'' @ NL @ ''#b: 2'' @ NL @ ''#c: 3'' @ NL) (''#b: 2'' @ NL @ ''#c: 3'') ''#'' =
     Inr (Some (''a: 1'' @ NL @ ''b: 2'' @ NL @ ''c: 3'' @ NL))"
  by (simp add: uncommented_def scanLines_def dropCR_def TrimPrefix_def HasPrefix_def)

text \<open>A line feed at the end of the target is lost: the line after it is joined to the last line that was uncommented.\<close>

lemma uncommented_joins_lines:
  "uncommented (\<lambda>_. True) (''#b: 2'' @ NL @ ''c: 3'') (''#b: 2'' @ NL) ''#'' = Inr (Some ''b: 2c: 3'')"
  by (simp add: uncommented_def scanLines_def dropCR_def TrimPrefix_def HasPrefix_def)

end
