(* ===== verification/Spec2Isabelle.thy ===== *)
theory Spec2Isabelle
  imports Process DeepCopy Cli DebugCli E2EUtils
begin

text \<open>
  A verification development for the NATS auth operator: a Kubernetes operator that turns NatsCluster, NatsAccount and
  NatsUser resources into the \<open>auth.conf\<close> of a NATS server and has the server reload it, and the two
  command line tools that come with it.

  \<^bold>\<open>How the program works.\<close> A pass of the controller (\<open>Reconcile\<close> in
  \<open>internal/controller/natscluster_controller.go\<close>) reads a cluster, its accounts and all users; evaluates
  the rules of each account (\<open>user_rule_evaluator.go\<close>); makes or adopts the Secret with the key pair and
  the inbox prefix of every user it admits (\<open>nkey_secret_manager.go\<close>,
  \<open>internal/nkeys/manager.go\<close>); converts accounts and users to a configuration
  (\<open>internal/natsconfig/convert.go\<close>), renders it (\<open>generate.go\<close>), puts the hash of the text
  in front and writes the ConfigMap; then it looks into every pod until the mounted file carries this hash and sends
  SIGHUP (\<open>pod_reloader.go\<close>); and it records the hash in the status when all pods took it. Changes of
  accounts and users are mapped to the clusters they concern. The tool \<open>cmd/cli\<close> previews and checks
  resources from files, the tool \<open>cmd/nats-debug\<close> asks the servers through
  \<open>internal/natsmonitor\<close> who is connected.

  \<^bold>\<open>The theories\<close>, from the bottom up. Definitions carry the names of the source.
  \<^item> \<open>GoPrelude\<close>: Go errors with the kinds the program asks about, Go maps as association lists,
    the state monad with its \<open>wp\<close> calculus. \<open>GoStrings\<close>, \<open>GoQuote\<close>,
    \<open>GoSha256\<close>: the parts of \<open>strings\<close>, \<open>strconv\<close> and
    \<open>crypto/sha256\<close> that the program uses, byte by byte.
  \<^item> \<open>ApiTypes\<close>: \<open>api/v1alpha1\<close>, the resources field by field and the JSON methods of
    \<open>AllowResponsesSpec\<close>.
  \<^item> \<open>NatsConvert\<close>, \<open>NatsGenerate\<close>: \<open>internal/natsconfig\<close>. A
    specification of what a server makes of permissions (\<open>permits\<close>) and of a file
    (\<open>server_reads\<close>, a reader that knows nothing of the writer) gives these theories their meaning.
  \<^item> \<open>KubeEnv\<close>: everything outside the repository as a record of functions of the
    \<open>world\<close>, which is the trace of all calls made so far and a clock. The answers may depend on the whole
    past, so that failures, races with other writers and stale reads are covered. \<open>emits\<close> says which
    events a computation may add.
  \<^item> \<open>UserRules\<close>, \<open>NKeys\<close>, \<open>NKeySecrets\<close>, \<open>PodReload\<close>,
    \<open>ReloadPods\<close>: the parts of a pass.
  \<^item> \<open>ReconcileUsers\<close>, \<open>ReconcileCluster\<close>: the pass, with every early return.
    \<open>EventMapping\<close>: the event handlers and \<open>operator_identity.go\<close>.
  \<^item> \<open>GoFlags\<close>, \<open>Manager\<close>: \<open>cmd/main.go\<close>, from the command line to the
    start of the manager, over a model of package \<open>flag\<close> and of slices that share their array;
    \<open>SetupWithManager\<close>, the list of watches of the controller.
  \<^item> \<open>Process\<close>: the passes a process makes from its start on, as an inductive relation with the
    history of the passes.
  \<^item> \<open>GoHeap\<close>, \<open>DeepCopy\<close>: \<open>zz_generated.deepcopy.go\<close> over a heap of
    cells. Only here the resources have pointers; \<open>view_\<close> functions say which record of
    \<open>ApiTypes\<close> such a struct denotes.
  \<^item> \<open>NatsMonitor\<close>, \<open>Cli\<close>, \<open>DebugCli\<close>: the monitoring client and the two
    tools. What the tools print is the value of their functions.
  \<^item> \<open>E2EUtils\<close>: \<open>test/utils/utils.go\<close>, the helpers of the end-to-end tests.

  The interfaces of the source (\<open>NamespaceFetcher\<close>, \<open>PodReloader\<close>,
  \<open>MonitorClient\<close>) are records or arguments of the model and locales for their contract, interpreted on
  the implementations of the source. The contract of a deep copy is the locale \<open>deep_copy\<close>, proved for
  each type from the copies of its fields.

  \<^bold>\<open>What is shown.\<close> The theorem below composes the parts: when a pass ends without error, the
  published file makes the server admit exactly the users the resources entitle, under their keys and with exactly the
  permissions written, and with an inbox of their own. The theorems on the pass state which hash is recorded, when it
  reloads and when it does not, that it comes back after a failure, what a process has done for a cluster since it was
  started, and that a failure of one user is reported on this user and does not reach another. The reload never
  signals a pod whose file is not the expected one, and signals all of them when it reports success. Keys and prefixes
  stay the same over passes. The theorems on the tools relate them to the operator: what validation promises, what the
  preview shows, that the diagnosis raises no false alarm and changes nothing. A deep copy denotes the same resource
  and shares no cell with the original, which is why the rest of the development may treat resources as values. The
  start of the manager is all or nothing, and its two servers get their own certificates although their options grow
  from one slice.

  \<^bold>\<open>Bounds.\<close> Waiting for a file takes at most \<open>configSyncTimeout\<close> plus one look: the
  loop recurs on the time that remains until the deadline and ends because every round sleeps a positive time; no fuel
  is used anywhere. Integers are words of their width; JSON numbers out of range are errors, as in Go. Counts of list
  lengths are natural numbers.

  \<^bold>\<open>Assumptions.\<close> \<open>sort.Slice\<close> is modelled by the stable sort: users and accounts of
  one name keep the order in which they were read. Strings are byte strings. Which code points Go prints without
  escape, regular expressions, the file system, YAML and JSON parsing, HTTP and the Kubernetes client are parameters.
  A map the program ranges over is a list whose order is the order of the visit, so that a statement for all lists is
  one for all orders.

  \<^bold>\<open>Not modelled\<close>: \<open>groupversion_info.go\<close> and \<open>init\<close> of
  \<open>cmd/main.go\<close> (registration of the types with a library), \<open>cmd/cli/main.go\<close> and
  \<open>cmd/cli/cmd/root.go\<close> (registration of the subcommands with cobra), \<open>newClient\<close> of the
  debug tool (the kubeconfig), log messages, the metadata of lists, and the manifests of the end-to-end tests.
\<close>

section \<open>Policies\<close>

text \<open>
  What a NatsUser resource entitles its owner to, in the terms of the resource: the subjects it allows and does
  not deny, and the subjects below its own inbox prefix instead of the shared inbox space.
\<close>

definition may_publish :: "nats_user \<Rightarrow> string \<Rightarrow> bool" where
  "may_publish u s \<longleftrightarrow>
     (\<exists>a\<in>set (spec_allow pm_publish (us_permissions (u_spec u))). subject_match a s) \<and>
     \<not> (\<exists>d\<in>set (spec_deny pm_publish (us_permissions (u_spec u))). subject_match d s)"

definition may_subscribe :: "nats_user \<Rightarrow> string \<Rightarrow> string \<Rightarrow> bool" where
  "may_subscribe u pfx s \<longleftrightarrow>
     ((\<exists>a\<in>set (spec_allow pm_subscribe (us_permissions (u_spec u))). subject_match a s) \<or>
      pfx \<noteq> [] \<and> subject_match (pfx @ ''.>'') s) \<and>
     \<not> (\<exists>d\<in>set (spec_deny pm_subscribe (us_permissions (u_spec u))). subject_match d s) \<and>
     \<not> (pfx \<noteq> [] \<and> subject_match ''_INBOX.>'' s)"

text \<open>An entry of the server's user list that grants what the resource entitles to, no less and no more.\<close>

definition grants_exactly :: "user_with_public_key \<Rightarrow> user_config \<Rightarrow> bool" where
  "grants_exactly u c \<longleftrightarrow>
     uc_nkey c = uwk_public_key u \<and>
     (\<exists>p. uc_permissions c = Some p \<and>
        (\<forall>s. permits subject_match (pc_publish p) s = may_publish (uwk_user u) s \<and>
             permits subject_match (pc_subscribe p) s = may_subscribe (uwk_user u) (uwk_inbox_prefix u) s))"

lemma converted_grants: "grants_exactly u (effective_user (convertUser u))"
  by (simp add: grants_exactly_def effective_user_def convertUser_def permits_publish permits_subscribe
      may_publish_def may_subscribe_def)

section \<open>The converted configuration can be rendered\<close>

lemma value_ok_show_int: "value_ok (show_int n)"
  by (rule value_ok_digits) (auto simp: show_int_def dest: show_nat_digits)

lemma value_ok_size: "value_ok (quantityToNATSSize q)"
proof -
  have "value_ok (show_int n @ u)" if "u \<in> {''TI'', ''GI'', ''MI'', ''KI''}" for n u
    using that value_ok_show_int [of n] by (auto simp: value_ok_def opens_def)
  then show ?thesis
    using value_ok_show_int by (simp add: quantityToNATSSize_def Let_def)
qed

lemma value_ok_opt_size: "value_ok (opt_size q)"
proof (cases q)
  case None
  then show ?thesis by (simp add: opt_size_def value_ok_def opens_def)
next
  case (Some v)
  then show ?thesis using value_ok_size [of v] by (simp add: opt_size_def)
qed

text \<open>
  Names of Kubernetes objects are not empty and hold neither blanks nor line breaks; public keys are
  one line that does not end in an opening bracket.
\<close>

definition renderable :: "account_with_users list \<Rightarrow> bool" where
  "renderable awus \<longleftrightarrow>
     list_all (\<lambda>a. line_ok (awu_name a) \<and> list_all (\<lambda>u. value_ok (uwk_public_key u)) (awu_users a)) awus"

lemma convertAccount_ok:
  assumes "list_all (\<lambda>u. value_ok (uwk_public_key u)) (awu_users a)"
  shows "account_ok (convertAccount a)"
  using assms
  by (auto simp: account_ok_def convertAccount_def convertJetStream_def convertLimits_def value_ok_opt_size
      convertUser_def list_all_iff)

lemma renderable_ok: "renderable awus \<Longrightarrow> config_ok (ConvertToNatsConfig awus)"
proof -
  assume r: "renderable awus"
  have "line_ok k \<and> account_ok c" if "(k, c) \<in> set (nc_accounts (ConvertToNatsConfig awus))" for k c
  proof -
    have "map_of (nc_accounts (ConvertToNatsConfig awus)) k = Some c"
      using that nc_accounts_wf by simp
    then obtain awu where "awu \<in> set awus" "awu_name awu = k" "convertAccount awu = c"
      by (rule nc_accounts_in)
    with r show ?thesis
      by (auto simp: renderable_def list_all_iff intro!: convertAccount_ok)
  qed
  then show ?thesis
    using nc_accounts_wf by (auto simp: config_ok_def list_all_iff)
qed

section \<open>From the resources to the server\<close>

lemma header_line:
  "FormatHashHeader h @ Generate ip cfg = layout 0 (Leaf (''# hash: '' @ h) # config_nodes ip cfg)"
  unfolding FormatHashHeader_def Generate_layout layout_Leaf
  by (simp only: append_assoc indentation_0 append_Nil)

lemma read_config_header: "read_config (Leaf (''# hash: '' @ h) # ns) = read_config ns"
  by (simp add: read_config_def read_quoted_def)

lemma hash_leaf_ok: "node_ok (Leaf (''# hash: '' @ sha256_hex t))"
proof -
  have "c \<noteq> CHR 0x0A \<and> c \<noteq> CHR ''{'' \<and> c \<noteq> CHR ''[''" if "c \<in> set (sha256_hex t)" for c
  proof -
    have "hexd d \<noteq> CHR 0x0A \<and> hexd d \<noteq> CHR ''{'' \<and> hexd d \<noteq> CHR ''[''" if "d < 16" for d
      using that ord_hexd [of d] by (auto split: if_splits)
    with that show ?thesis by (auto simp: sha256_hex_def dest!: set_hex_digits)
  qed
  moreover have "sha256_hex t \<noteq> []" "last (sha256_hex t) \<in> set (sha256_hex t)"
    using last_in_set [OF sha256_hex_neq_Nil] by simp_all
  ultimately show ?thesis
    by (auto simp: line_ok_def opens_def closes_def)
qed

text \<open>What the server makes of a configuration.\<close>

definition view_of :: "nats_config \<Rightarrow> server_view" where
  "view_of cfg =
    \<lparr>sv_system_account = (if nc_system_account cfg = [] then None else Some (nc_system_account cfg)),
     sv_authorization = (if totalUsers (nc_accounts cfg) = 0 then [sentinelUser] else []),
     sv_accounts = map (\<lambda>name. (name, effective_account (map_get empty_account (nc_accounts cfg) name)))
       (sort (map_keys (nc_accounts cfg)))\<rparr>"

lemma server_reads_plain:
  assumes "config_ok cfg"
  shows "server_reads (Generate ip cfg) = Some (view_of cfg)"
  by (simp add: server_reads_def Generate_layout read_layout config_nodes_ok assms read_config_nodes view_of_def)

lemma server_reads_content:
  assumes "config_ok cfg"
  shows "server_reads (FormatHashHeader (sha256_hex t) @ Generate ip cfg) = Some (view_of cfg)"
proof -
  have "read_doc (FormatHashHeader (sha256_hex t) @ Generate ip cfg) =
      Some (Leaf (''# hash: '' @ sha256_hex t) # config_nodes ip cfg)"
    unfolding header_line
    by (rule read_layout) (simp only: list.pred_inject(2) hash_leaf_ok config_nodes_ok [OF assms] simp_thms)
  then show ?thesis
    by (simp only: server_reads_def option.map read_config_header read_config_nodes view_of_def)
qed

lemma no_users:
  assumes "distinct (map awu_name awus)"
  shows "totalUsers (nc_accounts (ConvertToNatsConfig awus)) = 0 \<longleftrightarrow> (\<forall>a\<in>set awus. awu_users a = [])"
proof -
  let ?m = "nc_accounts (ConvertToNatsConfig awus)"
  have "acc_users c = []" if "\<forall>a\<in>set awus. awu_users a = []" "(k, c) \<in> set ?m" for k c
  proof -
    have "map_of ?m k = Some c" using that(2) nc_accounts_wf by simp
    then obtain a where "a \<in> set awus" "convertAccount a = c" by (rule nc_accounts_in)
    with that(1) show ?thesis by (auto simp: convertAccount_def)
  qed
  moreover have "awu_users a = []" if "\<forall>(k, c)\<in>set ?m. acc_users c = []" "a \<in> set awus" for a
  proof -
    have "(awu_name a, convertAccount a) \<in> set ?m"
      by (rule map_of_SomeD [OF nc_accounts_lookup [OF assms that(2)]])
    with that(1) show ?thesis by (auto simp: convertAccount_def)
  qed
  ultimately show ?thesis unfolding totalUsers_0 by blast
qed

text \<open>The accounts of the server in the order of their names, and what their users may do.\<close>

lemma sort_keys:
  assumes "distinct (map awu_name awus)"
  shows "sort (map_keys (nc_accounts (ConvertToNatsConfig awus))) = map awu_name (sort_key awu_name awus)"
proof -
  have "sort (map awu_name awus) = map awu_name (sort_key awu_name awus)"
    using sort_key_map [of id awu_name awus] by (simp add: id_def)
  moreover have "sort (map_keys (nc_accounts (ConvertToNatsConfig awus))) = sort (map awu_name awus)"
    using assms nc_accounts_wf nc_accounts_keys [of awus] by (intro sorted_distinct_set_unique) simp_all
  ultimately show ?thesis by simp
qed

lemma view_grants:
  fixes awus :: "account_with_users list"
  defines "v \<equiv> view_of (ConvertToNatsConfig awus)"
  assumes "distinct (map awu_name awus)"
  shows "map fst (sv_accounts v) = map awu_name (sort_key awu_name awus) \<and>
    list_all2 (\<lambda>a (n, c). list_all2 grants_exactly (awu_users a) (acc_users c)) (sort_key awu_name awus) (sv_accounts v) \<and>
    sv_authorization v = (if \<forall>a\<in>set awus. awu_users a = [] then [sentinelUser] else [])"
proof -
  let ?cfg = "ConvertToNatsConfig awus"
  have lookup: "map_get empty_account (nc_accounts ?cfg) (awu_name a) = convertAccount a" if "a \<in> set awus" for a
    using nc_accounts_lookup [OF assms(2) that] by (simp add: map_get_def)
  have grants: "list_all2 grants_exactly us (map (effective_user \<circ> convertUser) us)" for us
    by (induction us) (simp_all add: converted_grants)
  have "map (\<lambda>name. (name, effective_account (map_get empty_account (nc_accounts ?cfg) name)))
       (sort (map_keys (nc_accounts ?cfg))) =
     map (\<lambda>a. (awu_name a, effective_account (convertAccount a))) (sort_key awu_name awus)"
    using lookup by (simp add: sort_keys [OF assms(2)])
  then show ?thesis
    using grants
    by (simp add: v_def view_of_def no_users [OF assms(2)] list_all2_map2 effective_account_def convertAccount_def
        list_all2_same comp_def)
qed

text \<open>What the server takes from the published file, given as a list of accounts in the order of their names.\<close>

lemma server_grants:
  assumes "renderable awus" "sorted (map awu_name awus)" "distinct (map awu_name awus)"
  shows "\<exists>v. server_reads (config_content env (ConvertToNatsConfig awus)) = Some v \<and>
    map fst (sv_accounts v) = map awu_name awus \<and>
    list_all2 (\<lambda>a (n, c). list_all2 grants_exactly (awu_users a) (acc_users c)) awus (sv_accounts v) \<and>
    sv_authorization v = (if \<forall>a\<in>set awus. awu_users a = [] then [sentinelUser] else [])"
proof -
  have "sort_key awu_name awus = awus" by (rule sort_key_id_if_sorted [OF assms(2)])
  with view_grants [OF assms(3)] server_reads_content [OF renderable_ok [OF assms(1)]] show ?thesis
    by (simp add: config_content_def Let_def)
qed

lemma matching_sorted: "sorted (map account_name (matching cluster items))"
  by (simp add: matching_def)

lemma bare_awu_names: "map awu_name awus = map (\<lambda>x. account_name (fst x)) (map bare_awu awus)"
  by (simp add: bare_awu_def)



section \<open>From the files to the server\<close>

text \<open>Resources as one would apply them: every namespace is written out, and names are those of objects.\<close>

definition applicable :: "loaded_resources \<Rightarrow> bool" where
  "applicable res \<longleftrightarrow>
     list_all (\<lambda>c. cluster_namespace c \<noteq> []) (lr_clusters res) \<and>
     list_all (\<lambda>a. account_namespace a \<noteq> [] \<and> line_ok (account_name a)) (lr_accounts res) \<and>
     list_all (\<lambda>u. user_namespace u \<noteq> [] \<and> CHR 0x0A \<notin> set (user_name u)) (lr_users res)"

definition accounts_of :: "nats_cluster \<Rightarrow> loaded_resources \<Rightarrow> nats_account list" where
  "accounts_of cluster res =
     filter (\<lambda>a. as_cluster_ref (ac_spec a) = cluster_name cluster \<and> account_namespace a = cluster_namespace cluster)
       (lr_accounts res)"

definition users_of :: "loaded_resources \<Rightarrow> nats_account \<Rightarrow> nats_user list" where
  "users_of res acct = sort_key user_name (filter (\<lambda>u. userReferencesAccount u acct) (lr_users res))"

lemma cli_config:
  assumes "applicable res" "cluster \<in> set (lr_clusters res)"
  shows "buildConfigForCluster cluster res =
    ConvertToNatsConfig (map (\<lambda>a. \<lparr>awu_account = a, awu_users = map cliUser (users_of res a)\<rparr>) (accounts_of cluster res))"
proof -
  have sel: "filter (cliAccountMatches cluster) (lr_accounts res) = accounts_of cluster res"
    using assms unfolding accounts_of_def
    by (intro filter_cong refl cliAccountMatches_iff) (auto simp: applicable_def list_all_iff)
  have "cliAccount (lr_users res) a = \<lparr>awu_account = a, awu_users = map cliUser (users_of res a)\<rparr>"
    if "a \<in> set (lr_accounts res)" for a
  proof -
    have "awu_users (cliAccount (lr_users res) a) = map cliUser (users_of res a)"
      using assms(1) that unfolding users_of_def by (intro cliAccount_users) (auto simp: applicable_def list_all_iff)
    then show ?thesis by (simp add: cliAccount_def)
  qed
  then show ?thesis
    unfolding buildConfigForCluster_def sel
    by (intro arg_cong [where f = ConvertToNatsConfig] map_cong refl) (auto simp: accounts_of_def)
qed

lemma value_ok_placeholder: "CHR 0x0A \<notin> set n \<Longrightarrow> value_ok (uwk_public_key (cliUser u))" if "n = user_name u" for u
  using that by (auto simp: value_ok_def opens_def cliUser_def)



section \<open>From the operator to the diagnosis\<close>

lemma Contains_trans: "Contains s t \<Longrightarrow> Contains t p \<Longrightarrow> Contains s p"
proof -
  assume "Contains s t" "Contains t p"
  then obtain a b c d where "s = a @ t @ b" "t = c @ p @ d" unfolding Contains_iff by blast
  then have "s = (a @ c) @ p @ (d @ b)" by simp
  then show ?thesis unfolding Contains_iff by blast
qed

lemma Contains_part [simp]: "Contains p p" "Contains s p \<Longrightarrow> Contains (s @ t) p" "Contains t p \<Longrightarrow> Contains (s @ t) p"
proof -
  show "Contains p p" unfolding Contains_iff by (intro exI [of _ "[]"]) simp
  have "Contains (s @ t) s" unfolding Contains_iff by (intro exI [of _ "[]"] exI [of _ t]) simp
  then show "Contains s p \<Longrightarrow> Contains (s @ t) p" by (rule Contains_trans)
  have "Contains (s @ t) t" unfolding Contains_iff by (intro exI [of _ s] exI [of _ "[]"]) simp
  then show "Contains t p \<Longrightarrow> Contains (s @ t) p" by (rule Contains_trans)
qed

lemma Contains_concat: "x \<in> set xs \<Longrightarrow> Contains (f x) p \<Longrightarrow> Contains (concat (map f xs)) p"
  by (induction xs) auto

lemma Contains_account:
  assumes "u \<in> set (acc_users a)"
  shows "Contains (writeAccount ip name a n) (uc_nkey u)"
proof -
  have "Contains (indentation m @ ''{'' @ NL @ writeUser ip u k @ indentation m @ ''}'' @ NL) (uc_nkey u)" for m k
    unfolding writeUser_def by (simp only: Contains_part)
  then have "Contains (concat (map (\<lambda>user. indentation m @ ''{'' @ NL @ writeUser ip user k @ indentation m @ ''}'' @ NL)
      (acc_users a))) (uc_nkey u)" for m k
    by (rule Contains_concat [OF assms])
  then have "Contains (writeUsers ip (acc_users a) (n + 1)) (uc_nkey u)"
    unfolding writeUsers_def by (simp only: Contains_part)
  moreover have "acc_users a \<noteq> []" using assms by auto
  ultimately show ?thesis unfolding writeAccount_def by (simp only: if_True Contains_part not_False_eq_True)
qed

lemma Contains_name: "Contains (writeAccount ip name a n) (name @ '' {'')"
proof -
  have "Contains (name @ '' {'' @ t) (name @ '' {'')" for t
    unfolding Contains_iff by (intro exI [of _ "[]"] exI [of _ t]) simp
  then show ?thesis unfolding writeAccount_def by (simp only: Contains_part)
qed

lemma Contains_Generate:
  assumes "map_wf (nc_accounts cfg)" "(name, a) \<in> set (nc_accounts cfg)" "Contains (writeAccount ip name a 1) p"
  shows "Contains (Generate ip cfg) p"
proof -
  have a: "map_get empty_account (nc_accounts cfg) name = a" using assms(1,2) by (simp add: map_get_def)
  have "name \<in> set (sort (map_keys (nc_accounts cfg)))" using assms(2) by force
  then have "Contains (concat (map (\<lambda>name. writeAccount ip name (map_get empty_account (nc_accounts cfg) name) 1)
      (sort (map_keys (nc_accounts cfg))))) p"
    by (rule Contains_concat) (unfold a, rule assms(3))
  then show ?thesis unfolding Generate_def by (simp only: Contains_part)
qed

text \<open>
  C38. The diagnosis raises no false alarm. When the ConfigMap holds what the operator published for its accounts, then the
  tool reports the key of every user in them, and every one of the accounts, as present in the file.
\<close>
theorem published_keys_are_found:
  assumes "cm_data cm = [(''auth.conf'', config_content env (ConvertToNatsConfig awus))]"
    and "distinct (map awu_name awus)" "a \<in> set awus" "u \<in> set (awu_users a)"
  shows "keyReport (Inr cm) n (uwk_public_key u) = ''  [ok] NKey '' @ uwk_public_key u @ '' is present in auth.conf'' @ NL @ NL \<and>
    accountPresence env (Inr cm) n (awu_name a) =
      ''  [ok] Account '' @ Quote (e_printable env) (awu_name a) @ '' is present in auth.conf'' @ NL @ NL"
proof -
  let ?cfg = "ConvertToNatsConfig awus"
  have a: "(awu_name a, convertAccount a) \<in> set (nc_accounts ?cfg)"
    by (rule map_of_SomeD [OF nc_accounts_lookup [OF assms(2,3)]])
  have "convertUser u \<in> set (acc_users (convertAccount a))" "uc_nkey (convertUser u) = uwk_public_key u"
    using assms(4) by (simp_all add: convertAccount_def convertUser_def)
  then have key: "Contains (Generate (e_printable env) ?cfg) (uwk_public_key u)"
    using Contains_account [of "convertUser u" "convertAccount a"] Contains_Generate [OF nc_accounts_wf a] by metis
  have name: "Contains (Generate (e_printable env) ?cfg) (awu_name a @ '' {'')"
    by (rule Contains_Generate [OF nc_accounts_wf a Contains_name])
  have conf: "authConfOf cm = FormatHashHeader (sha256_hex (Generate (e_printable env) ?cfg)) @ Generate (e_printable env) ?cfg"
    using assms(1) by (simp add: authConfOf_def map_get_def config_content_def Let_def)
  then have "authConfOf cm \<noteq> []" by (simp add: FormatHashHeader_def)
  moreover have "Contains (authConfOf cm) (uwk_public_key u)" "Contains (authConfOf cm) (awu_name a @ '' {'')"
    unfolding conf by (rule Contains_part(3) [OF key], rule Contains_part(3) [OF name])
  ultimately show ?thesis by (simp add: keyReport_def accountPresence_def)
qed

theorem published_keys_are_found_witness:
  "keyReport (Inr \<lparr>cm_namespace = ''prod'', cm_name = ''nats-nats-config'',
       cm_data = [(''auth.conf'', config_content null_env (ConvertToNatsConfig
         [\<lparr>awu_account = pass_account ''a'' False, awu_users = [cliUser (pass_user ''x'' ''prod'')]\<rparr>]))]\<rparr>)
     ''nats-nats-config'' ''<nkey-for:x>'' = ''  [ok] NKey <nkey-for:x> is present in auth.conf'' @ NL @ NL"
proof -
  have "uwk_public_key (cliUser (pass_user ''x'' ''prod'')) = ''<nkey-for:x>''"
    by (simp add: cliUser_def pass_user_def)
  then show ?thesis
    using published_keys_are_found [of "\<lparr>cm_namespace = ''prod'', cm_name = ''nats-nats-config'',
       cm_data = [(''auth.conf'', config_content null_env (ConvertToNatsConfig
         [\<lparr>awu_account = pass_account ''a'' False, awu_users = [cliUser (pass_user ''x'' ''prod'')]\<rparr>]))]\<rparr>" null_env
      "[\<lparr>awu_account = pass_account ''a'' False, awu_users = [cliUser (pass_user ''x'' ''prod'')]\<rparr>]"
      "\<lparr>awu_account = pass_account ''a'' False, awu_users = [cliUser (pass_user ''x'' ''prod'')]\<rparr>"
      "cliUser (pass_user ''x'' ''prod'')"]
    by simp
qed

end
